theory Spec2Isabelle
  imports Complex_Main "HOL-Library.AList"
begin

section \<open>The world the program runs in\<close>

text \<open>
  The wallpaper manager and the downloader are sequences of file-system calls, child
  processes and terminal prompts. The model threads one explicit \<open>world\<close> through every
  call. What the outside decides (whether a system call fails, how a child process exits,
  what the user types, which files appear while the program sleeps) is read from
  schedules stored in the world, so that every function below is an executable function
  of the world it starts in.
\<close>

type_synonym path = string

text \<open>
  A node of the file system: a directory or a regular file. \<open>bytes\<close> is the
  content (for a directory, its entry table); \<open>stat\<close> reports its length as \<open>size\<close>.
\<close>

record node =
  isDir :: bool
  bytes :: string
  birthtime :: nat
  mtime :: nat
  mode :: nat

text \<open>
  The errors with which starting a child process fails, and the exit code Node reports
  for such a process: the negated error number (the numbers of macOS).
\<close>

datatype errno = ENOENT | EACCES | EAGAIN | EMFILE | ENFILE

definition uv_code :: "errno \<Rightarrow> int" where
  "uv_code e =
     (case e of ENOENT \<Rightarrow> - 2 | EACCES \<Rightarrow> - 13 | EAGAIN \<Rightarrow> - 35 | EMFILE \<Rightarrow> - 24
              | ENFILE \<Rightarrow> - 23)"

text \<open>
  How a child process ended. A process that ran ends with the \<open>close\<close> event and its exit
  code. A process that could not be started gets two events, one right after the other in
  the same turn of the event loop: first \<open>error\<close> with the spawn error (its message and
  its number), then \<open>close\<close> with the code \<open>uv_code\<close> of that number. A promise is settled
  by the first \<open>resolve\<close> or \<open>reject\<close> that is called; later calls are ignored.
\<close>

datatype pexit = Exited int | SpawnError string errno

text \<open>A JavaScript number as far as the program compares it: \<open>NaN\<close> or a value.\<close>

datatype jsnum = NaN | Num rat

text \<open>
  What one child process does, as far as the program observes it: how it ends, what
  \<open>JSON.parse\<close> and \<open>parseFloat\<close> make of \<open>format.duration\<close> in its standard output
  (\<open>None\<close>: parsing throws), the bytes it leaves at its output path (\<open>None\<close>: it
  writes nothing), and, for a command that touches files, the paths it fails to touch.
\<close>

record proc =
  pexit :: pexit
  pduration :: "jsnum option"
  pwrites :: "string option"
  pskips :: "path list"

text \<open>The questions the program asks on the terminal.\<close>

datatype prompt = SelectPrompt nat | ConfirmPrompt string

text \<open>
  The observable events of a run, oldest first: child processes with their argument
  lists, shell commands, terminal questions with the answer read, sleeps with their
  length in milliseconds, and every mutating file-system call with the error code it
  threw (\<open>None\<close>: it succeeded).
\<close>

datatype event =
    Spawned string "string list"
  | Ran string
  | Asked prompt string
  | Slept nat
  | EvMkdir path "string option"
  | EvWrite path "string option"
  | EvUnlink path "string option"
  | EvCopy path path "string option"
  | EvChmod path nat "string option"

record world =
  fs :: "(path \<times> node) list"
  clock :: nat
  faults :: "string option list"
  procs :: "proc list"
  answers :: "string list"
  arrivals :: "(path \<times> string) list list"
  env :: "(string \<times> string) list"
  cwd :: path
  isoNow :: string
  trace :: "event list"

definition emit :: "event \<Rightarrow> world \<Rightarrow> world" where
  "emit e w = w\<lparr>trace := trace w @ [e]\<rparr>"

definition lookup :: "world \<Rightarrow> path \<Rightarrow> node option" where
  "lookup w p = map_of (fs w) p"

text \<open>\<open>fs.existsSync\<close>: true for files and directories alike, never throws.\<close>

definition existsSync :: "path \<Rightarrow> world \<Rightarrow> bool" where
  "existsSync p w = (lookup w p \<noteq> None)"

text \<open>
  A mutating system call first consults the fault schedule: \<open>Some code\<close> makes this call
  throw an error with that \<open>code\<close> and leave the file system alone (a read-only
  directory, a locked file, a full disk). An exhausted schedule injects nothing.
\<close>

definition take_fault :: "world \<Rightarrow> string option \<times> world" where
  "take_fault w =
     (case faults w of
        [] \<Rightarrow> (None, w)
      | f # rest \<Rightarrow> (f, w\<lparr>faults := rest\<rparr>))"

text \<open>
  Writing the bytes \<open>bs\<close> to the file \<open>p\<close> with the permission bits \<open>m\<close> for a file that
  is created; an existing file keeps its birth time and, with \<open>keep\<close>, its permission
  bits.
\<close>

definition store_file :: "path \<Rightarrow> string \<Rightarrow> nat \<Rightarrow> bool \<Rightarrow> world \<Rightarrow> world" where
  "store_file p bs m keep w =
     w\<lparr>fs := AList.update p
              \<lparr>isDir = False, bytes = bs,
               birthtime = (case lookup w p of None \<Rightarrow> clock w | Some n \<Rightarrow> birthtime n),
               mtime = clock w,
               mode = (case lookup w p of None \<Rightarrow> m | Some n \<Rightarrow> if keep then mode n else m)\<rparr>
              (fs w),
       clock := Suc (clock w)\<rparr>"

text \<open>A file written by the program or by a child process: \<open>0o644\<close> (420) when new.\<close>

definition put_file :: "path \<Rightarrow> string \<Rightarrow> world \<Rightarrow> world" where
  "put_file p bs w = store_file p bs 420 True w"

text \<open>
  The directories above a path, nearest first: what precedes each separator of the path
  (the root, the empty prefix, is never missing and is left out).
\<close>

definition ancestors :: "path \<Rightarrow> path list" where
  "ancestors p =
     rev (filter (\<lambda>q. q \<noteq> [])
            (map (\<lambda>i. take i p) (filter (\<lambda>i. p ! i = CHR ''/'') [0..<length p])))"

definition make_dir :: "path \<Rightarrow> world \<Rightarrow> world" where
  "make_dir q w =
     w\<lparr>fs := AList.update q
              \<lparr>isDir = True, bytes = [], birthtime = clock w, mtime = clock w, mode = 493\<rparr>
              (fs w),
       clock := Suc (clock w)\<rparr>"

text \<open>
  \<open>fs.mkdirSync(p, {recursive: true})\<close>: no error when the directory exists. Otherwise
  the missing directories above \<open>p\<close> are created, from the nearest existing one downwards,
  and then \<open>p\<close>; nothing that exists is changed. The call fails with \<open>EEXIST\<close> when \<open>p\<close> is
  a file, and with \<open>ENOTDIR\<close> when the nearest existing path above \<open>p\<close> is a file.
\<close>

definition mkdirSync :: "path \<Rightarrow> world \<Rightarrow> string option \<times> world" where
  "mkdirSync p w =
     (case take_fault w of
        (Some c, w1) \<Rightarrow> (Some c, emit (EvMkdir p (Some c)) w1)
      | (None, w1) \<Rightarrow>
          (case lookup w1 p of
             Some n \<Rightarrow>
               if isDir n then (None, emit (EvMkdir p None) w1)
               else (Some ''EEXIST'', emit (EvMkdir p (Some ''EEXIST'')) w1)
           | None \<Rightarrow>
               (let missing = takeWhile (\<lambda>q. lookup w1 q = None) (ancestors p);
                    above = dropWhile (\<lambda>q. lookup w1 q = None) (ancestors p)
                in case (case above of [] \<Rightarrow> None | q # qs \<Rightarrow> lookup w1 q) of
                     Some n \<Rightarrow>
                       if isDir n
                       then (None, emit (EvMkdir p None) (fold make_dir (rev missing @ [p]) w1))
                       else (Some ''ENOTDIR'', emit (EvMkdir p (Some ''ENOTDIR'')) w1)
                   | None \<Rightarrow>
                       (None, emit (EvMkdir p None) (fold make_dir (rev missing @ [p]) w1)))))"

definition writeFileSync :: "path \<Rightarrow> string \<Rightarrow> world \<Rightarrow> string option \<times> world" where
  "writeFileSync p bs w =
     (case take_fault w of
        (Some c, w1) \<Rightarrow> (Some c, emit (EvWrite p (Some c)) w1)
      | (None, w1) \<Rightarrow>
          (case lookup w1 p of
             Some n \<Rightarrow>
               if isDir n then (Some ''EISDIR'', emit (EvWrite p (Some ''EISDIR'')) w1)
               else (None, emit (EvWrite p None) (put_file p bs w1))
           | None \<Rightarrow> (None, emit (EvWrite p None) (put_file p bs w1))))"

definition unlinkSync :: "path \<Rightarrow> world \<Rightarrow> string option \<times> world" where
  "unlinkSync p w =
     (case take_fault w of
        (Some c, w1) \<Rightarrow> (Some c, emit (EvUnlink p (Some c)) w1)
      | (None, w1) \<Rightarrow>
          (case lookup w1 p of
             None \<Rightarrow> (Some ''ENOENT'', emit (EvUnlink p (Some ''ENOENT'')) w1)
           | Some n \<Rightarrow>
               if isDir n then (Some ''EPERM'', emit (EvUnlink p (Some ''EPERM'')) w1)
               else (None, emit (EvUnlink p None) (w1\<lparr>fs := AList.delete p (fs w1)\<rparr>))))"

text \<open>\<open>fs.copyFileSync\<close>: the destination gets the bytes and the permission bits of the
  source, whether it existed or not.\<close>

definition copyFileSync :: "path \<Rightarrow> path \<Rightarrow> world \<Rightarrow> string option \<times> world" where
  "copyFileSync src dst w =
     (case take_fault w of
        (Some c, w1) \<Rightarrow> (Some c, emit (EvCopy src dst (Some c)) w1)
      | (None, w1) \<Rightarrow>
          (case lookup w1 src of
             None \<Rightarrow> (Some ''ENOENT'', emit (EvCopy src dst (Some ''ENOENT'')) w1)
           | Some n \<Rightarrow>
               if isDir n then (Some ''EISDIR'', emit (EvCopy src dst (Some ''EISDIR'')) w1)
               else (case lookup w1 dst of
                       None \<Rightarrow>
                         (None, emit (EvCopy src dst None)
                            (store_file dst (bytes n) (mode n) False w1))
                     | Some d \<Rightarrow>
                         if isDir d
                         then (Some ''EISDIR'', emit (EvCopy src dst (Some ''EISDIR'')) w1)
                         else (None, emit (EvCopy src dst None)
                                 (store_file dst (bytes n) (mode n) False w1)))))"

definition chmodSync :: "path \<Rightarrow> nat \<Rightarrow> world \<Rightarrow> string option \<times> world" where
  "chmodSync p m w =
     (case take_fault w of
        (Some c, w1) \<Rightarrow> (Some c, emit (EvChmod p m (Some c)) w1)
      | (None, w1) \<Rightarrow>
          (case lookup w1 p of
             None \<Rightarrow> (Some ''ENOENT'', emit (EvChmod p m (Some ''ENOENT'')) w1)
           | Some n \<Rightarrow>
               (None, emit (EvChmod p m None)
                  (w1\<lparr>fs := AList.update p (n\<lparr>mode := m\<rparr>) (fs w1)\<rparr>))))"

text \<open>\<open>fs.statSync\<close> throws exactly when the path does not exist.\<close>

definition statSync :: "path \<Rightarrow> world \<Rightarrow> string + node" where
  "statSync p w = (case lookup w p of None \<Rightarrow> Inl ''ENOENT'' | Some n \<Rightarrow> Inr n)"

definition stat_size :: "node \<Rightarrow> nat" where
  "stat_size n = length (bytes n)"

text \<open>
  Starting a child process takes the next entry of the process schedule (a process that
  exits with code 0, prints nothing usable and writes nothing when the schedule is
  exhausted). A process that ran leaves its bytes at \<open>out\<close>, the output path the caller
  passed to it.
\<close>

definition default_proc :: proc where
  "default_proc = \<lparr>pexit = Exited 0, pduration = None, pwrites = None, pskips = []\<rparr>"

definition next_proc :: "world \<Rightarrow> proc \<times> world" where
  "next_proc w =
     (case procs w of
        [] \<Rightarrow> (default_proc, w)
      | p # rest \<Rightarrow> (p, w\<lparr>procs := rest\<rparr>))"

definition proc_effect :: "proc \<Rightarrow> path option \<Rightarrow> world \<Rightarrow> world" where
  "proc_effect p out w =
     (case (pexit p, out, pwrites p) of
        (Exited c, Some q, Some bs) \<Rightarrow> put_file q bs w
      | _ \<Rightarrow> w)"

definition spawn :: "string \<Rightarrow> string list \<Rightarrow> path option \<Rightarrow> world \<Rightarrow> proc \<times> world" where
  "spawn cmd args out w =
     (case next_proc w of
        (p, w1) \<Rightarrow> (p, proc_effect p out (emit (Spawned cmd args) w1)))"

definition getenv :: "world \<Rightarrow> string \<Rightarrow> string option" where
  "getenv w k = map_of (env w) k"

text \<open>JavaScript truthiness of an environment entry: defined and not the empty string.\<close>

definition truthy :: "string option \<Rightarrow> bool" where
  "truthy v = (case v of None \<Rightarrow> False | Some s \<Rightarrow> s \<noteq> [])"

definition js_or :: "string option \<Rightarrow> string option \<Rightarrow> string option" where
  "js_or a b = (if truthy a then a else b)"

definition str :: "string option \<Rightarrow> string" where
  "str v = (case v of None \<Rightarrow> ''undefined'' | Some s \<Rightarrow> s)"

section \<open>Strings and paths\<close>

text \<open>
  A string is a sequence of code units below 256 (ISO 8859-1); the paths, file names and
  answers of the example runs are such strings. Letter case and white space are those of
  JavaScript on that range: the capital letters are \<open>A\<close> to \<open>Z\<close> and the code units 192 to
  222 but for the multiplication sign 215, each 32 below its small letter.
\<close>

definition lower_char :: "char \<Rightarrow> char" where
  "lower_char c =
     (let n = (of_char c :: nat)
      in if (65 \<le> n \<and> n \<le> 90) \<or> (192 \<le> n \<and> n \<le> 222 \<and> n \<noteq> 215) then char_of (n + 32) else c)"

definition toLowerCase :: "string \<Rightarrow> string" where
  "toLowerCase s = map lower_char s"

definition endsWith :: "string \<Rightarrow> string \<Rightarrow> bool" where
  "endsWith s t = (length t \<le> length s \<and> drop (length s - length t) s = t)"

fun startsWith :: "string \<Rightarrow> string \<Rightarrow> bool" where
  "startsWith s [] = True"
| "startsWith [] (c # t) = False"
| "startsWith (d # s) (c # t) = (d = c \<and> startsWith s t)"

fun str_includes :: "string \<Rightarrow> string \<Rightarrow> bool" where
  "str_includes [] t = (t = [])"
| "str_includes (c # s) t = (startsWith (c # s) t \<or> str_includes s t)"

text \<open>
  \<open>s.replace(/\\.[^.]+$/, r)\<close>: the match is the last dot of \<open>s\<close> with everything after
  it, provided something follows that dot; without a match \<open>s\<close> is returned as it is.
\<close>

definition replace_ext :: "string \<Rightarrow> string \<Rightarrow> string" where
  "replace_ext s r =
     (let tail = takeWhile (\<lambda>c. c \<noteq> CHR ''.'') (rev s);
          front = dropWhile (\<lambda>c. c \<noteq> CHR ''.'') (rev s)
      in if front = [] \<or> tail = [] then s else rev (tl front) @ r)"

text \<open>
  \<open>path.extname\<close> (POSIX): trailing separators are ignored, the last component is
  taken, and the extension runs from its last dot to its end; it is empty when there is
  no dot, when nothing precedes the last dot, and for the component \<open>..\<close>.
\<close>

definition basename :: "path \<Rightarrow> string" where
  "basename p = rev (takeWhile (\<lambda>c. c \<noteq> CHR ''/'') (dropWhile (\<lambda>c. c = CHR ''/'') (rev p)))"

definition extname :: "path \<Rightarrow> string" where
  "extname p =
     (let b = basename p;
          tail = takeWhile (\<lambda>c. c \<noteq> CHR ''.'') (rev b);
          front = dropWhile (\<lambda>c. c \<noteq> CHR ''.'') (rev b)
      in if front = [] \<or> tl front = [] \<or> b = ''..'' then [] else CHR ''.'' # rev tail)"

text \<open>\<open>path.parse(p).name\<close>: the last component without its extension.\<close>

definition parse_name :: "path \<Rightarrow> string" where
  "parse_name p = take (length (basename p) - length (extname p)) (basename p)"

text \<open>
  \<open>path.join(dir, name)\<close> for a directory path without trailing separator and the
  name of a directory entry (not empty, no separator, neither \<open>.\<close> nor \<open>..\<close>), which is
  how the program calls it.
\<close>

definition path_join :: "path \<Rightarrow> string \<Rightarrow> path" where
  "path_join dir n = dir @ ''/'' @ n"

text \<open>\<open>Number.prototype.toString\<close> of a non-negative integer.\<close>

function toString :: "nat \<Rightarrow> string" where
  "toString n =
     (if n < 10 then [''0123456789'' ! n]
      else toString (n div 10) @ [''0123456789'' ! (n mod 10)])"
  by pat_completeness auto
termination
  by (relation "measure (\<lambda>n. n)") auto

declare toString.simps [simp del]

text \<open>
  \<open>parseInt(s)\<close> without a radix: leading white space is skipped, a sign is read, the
  prefix \<open>0x\<close> or \<open>0X\<close> selects base 16, and the longest run of digits of the base is
  the value; \<open>None\<close> is \<open>NaN\<close>, returned when that run is empty. (The value is kept
  exact; rounding a huge value to a double does not change how it compares with the
  length of a list.) The white space of JavaScript below 256 is the space, the controls
  9 to 13 and the no-break space 160.
\<close>

definition digit_val :: "char \<Rightarrow> nat option" where
  "digit_val c =
     map_of (zip ''0123456789abcdef'' [0..<16] @ zip ''ABCDEF'' [10..<16]) c"

definition is_digit :: "nat \<Rightarrow> char \<Rightarrow> bool" where
  "is_digit radix c = (case digit_val c of None \<Rightarrow> False | Some v \<Rightarrow> v < radix)"

definition digits_value :: "nat \<Rightarrow> string \<Rightarrow> nat" where
  "digits_value radix ds =
     foldl (\<lambda>a c. a * radix + (case digit_val c of None \<Rightarrow> 0 | Some v \<Rightarrow> v)) 0 ds"

definition is_space :: "char \<Rightarrow> bool" where
  "is_space c = (c \<in> set [CHR '' '', CHR 0x09, CHR 0x0A, CHR 0x0B, CHR 0x0C, CHR 0x0D, CHR 0xA0])"

definition parseInt :: "string \<Rightarrow> int option" where
  "parseInt s =
     (let s1 = dropWhile is_space s;
          negative = startsWith s1 ''-'';
          s2 = (if startsWith s1 ''-'' \<or> startsWith s1 ''+'' then tl s1 else s1);
          radix = (if startsWith s2 ''0x'' \<or> startsWith s2 ''0X'' then 16 else 10);
          s3 = (if radix = 16 then drop 2 s2 else s2);
          z = takeWhile (is_digit radix) s3
      in if z = [] then None
         else Some (if negative then - int (digits_value radix z)
                    else int (digits_value radix z)))"


section \<open>Shell commands\<close>

text \<open>
  What \<open>find dir -name "*.mov" -exec touch {} \;\<close> does when the shell ran it: \<open>dir\<close> and
  every path below it whose last component ends with \<open>.mov\<close> gets the current time as
  modification time, but for the paths the process fails to touch. The exit status of
  \<open>find\<close> says nothing about the individual \<open>touch\<close> runs.
\<close>

definition touched :: "path \<Rightarrow> proc \<Rightarrow> path \<Rightarrow> bool" where
  "touched dir p q =
     ((q = dir \<or> startsWith q (dir @ ''/'')) \<and> endsWith q ''.mov'' \<and> q \<notin> set (pskips p))"

definition touch_found :: "path \<Rightarrow> proc \<Rightarrow> world \<Rightarrow> world" where
  "touch_found dir p w =
     w\<lparr>fs := map (\<lambda>(q, n). if touched dir p q then (q, n\<lparr>mtime := clock w\<rparr>) else (q, n)) (fs w),
       clock := Suc (clock w)\<rparr>"

text \<open>
  \<open>child_process.exec\<close>: the callback's \<open>error\<close> is set unless the command exits with 0.
  \<open>touches\<close> is the directory whose \<open>.mov\<close> files the command touches; the other commands
  of the program (\<open>osascript\<close>, \<open>open\<close>, \<open>launchctl\<close>) write no file themselves.
\<close>

definition exec :: "string \<Rightarrow> path option \<Rightarrow> world \<Rightarrow> bool \<times> world" where
  "exec cmdline touches w =
     (case next_proc w of
        (p, w1) \<Rightarrow>
          (pexit p \<noteq> Exited 0,
           (case (pexit p, touches) of
              (Exited c, Some dir) \<Rightarrow> touch_found dir p (emit (Ran cmdline) w1)
            | _ \<Rightarrow> emit (Ran cmdline) w1)))"

section \<open>utils.js\<close>

text \<open>
  \<open>Utils.fixFilePermissions\<close>. The promise is only ever resolved, with \<open>true\<close> or
  \<open>false\<close>: each \<open>catch\<close> of the source is a branch returning \<open>False\<close>. \<open>0o664\<close> is 436.
  When \<open>chown\<close> cannot be started the \<open>error\<close> handler resolves with \<open>false\<close>, and the
  \<open>close\<close> handler that follows resolves with \<open>false\<close> once more.
\<close>

definition Utils_fixFilePermissions :: "path \<Rightarrow> world \<Rightarrow> bool \<times> world" where
  "Utils_fixFilePermissions filePath w =
     (let originalUser = js_or (getenv w ''SUDO_USER'') (getenv w ''USER'');
          originalUid = getenv w ''SUDO_UID'';
          originalGid = getenv w ''SUDO_GID''
      in if truthy originalUser \<and> truthy originalUid \<and> truthy originalGid then
           (case spawn ''chown'' [str originalUid @ '':'' @ str originalGid, filePath] None w of
              (p, w1) \<Rightarrow>
                (case pexit p of
                   Exited code \<Rightarrow>
                     if code = 0 then
                       (case chmodSync filePath 436 w1 of
                          (None, w2) \<Rightarrow> (True, w2)
                        | (Some chmodError, w2) \<Rightarrow> (False, w2))
                     else (False, w1)
                 | SpawnError msg e \<Rightarrow> (False, w1)))
         else
           (case chmodSync filePath 436 w of
              (None, w1) \<Rightarrow> (True, w1)
            | (Some err, w1) \<Rightarrow> (False, w1)))"

text \<open>\<open>Utils.ensureDirectoryExists\<close>; the \<open>mkdirSync\<close> may throw.\<close>

definition Utils_ensureDirectoryExists :: "path \<Rightarrow> world \<Rightarrow> string option \<times> world" where
  "Utils_ensureDirectoryExists dirPath w =
     (if \<not> existsSync dirPath w then mkdirSync dirPath w else (None, w))"

section \<open>config.js\<close>


definition customerDir :: path where
  "customerDir = ''/Library/Application Support/com.apple.idleassetsd/Customer''"

definition targetDir :: path where
  "targetDir = path_join customerDir ''4KSDR240FPS''"

definition backupDir :: "world \<Rightarrow> path" where
  "backupDir w = path_join (path_join (cwd w) ''outputs'') ''wallpaper_backups''"

definition retryAttempts :: nat where
  "retryAttempts = 30"

definition retryInterval :: nat where
  "retryInterval = 1000"

section \<open>downloader.js\<close>

text \<open>What the promises of the downloader and of the wallpaper manager are rejected with.\<close>

datatype error =
    ProbeFailed
  | ProbeParseFailed
  | ProbeError string
  | ExtendNoDuration error
  | ExtendOutputMissing
  | ExtendFailed int
  | ExtendError string
  | OutputMissing
  | ConversionFailed int
  | FFmpegError string
  | NoDirectoryAccess
  | SeedTimeout
  | SysError string

text \<open>
  \<open>getVideoDuration\<close> and \<open>extendVideo\<close>. When the process cannot be started, the \<open>error\<close>
  handler rejects the promise first; the \<open>close\<close> handler that follows rejects a promise
  that is settled already.
\<close>

definition getVideoDuration :: "path \<Rightarrow> world \<Rightarrow> (error + jsnum) \<times> world" where
  "getVideoDuration inputPath w =
     (case spawn ''ffprobe''
             [''-v'', ''quiet'', ''-print_format'', ''json'', ''-show_format'', inputPath] None w of
        (p, w1) \<Rightarrow>
          (case pexit p of
             Exited code \<Rightarrow>
               if code = 0 then
                 (case pduration p of
                    Some duration \<Rightarrow> (Inr duration, w1)
                  | None \<Rightarrow> (Inl ProbeParseFailed, w1))
               else (Inl ProbeFailed, w1)
           | SpawnError msg e \<Rightarrow> (Inl (ProbeError msg), w1)))"

definition extendArgs :: "path \<Rightarrow> nat \<Rightarrow> path \<Rightarrow> string list" where
  "extendArgs inputPath minDuration outputPath =
     [''-stream_loop'', ''-1'',
      ''-i'', inputPath,
      ''-t'', toString minDuration,
      ''-c'', ''copy'',
      ''-avoid_negative_ts'', ''make_zero'',
      ''-fflags'', ''+genpts'',
      ''-y'',
      outputPath]"

definition extendVideo :: "path \<Rightarrow> nat \<Rightarrow> world \<Rightarrow> (error + path) \<times> world" where
  "extendVideo inputPath minDuration w =
     (case getVideoDuration inputPath w of
        (Inl e, w1) \<Rightarrow> (Inl (ExtendNoDuration e), w1)
      | (Inr originalDuration, w1) \<Rightarrow>
          (let outputPath = replace_ext inputPath ''_extended.mp4'' in
           case spawn ''ffmpeg'' (extendArgs inputPath minDuration outputPath) (Some outputPath) w1 of
             (p, w2) \<Rightarrow>
               (case pexit p of
                  Exited code \<Rightarrow>
                    if code = 0 then
                      (if existsSync outputPath w2 then (Inr outputPath, w2)
                       else (Inl ExtendOutputMissing, w2))
                    else (Inl (ExtendFailed code), w2)
                | SpawnError msg e \<Rightarrow> (Inl (ExtendError msg), w2))))"

text \<open>The downloader's own \<open>fixFilePermissions\<close>: the outcome is only logged.\<close>

definition fixFilePermissions :: "path \<Rightarrow> world \<Rightarrow> world" where
  "fixFilePermissions filePath w = snd (Utils_fixFilePermissions filePath w)"

text \<open>
  \<open>cleanupSourceFile\<close>. Sizes are byte counts; \<open>c < s * 0.1\<close> on doubles is \<open>10 * c < s\<close>
  for every size below \<open>2 ^ 50\<close>. \<open>0o666\<close> is 438. An error thrown outside the inner
  \<open>try\<close> ends the function through the outer \<open>catch\<close>, which only logs.
\<close>

definition cleanupSourceFile :: "path \<Rightarrow> path \<Rightarrow> world \<Rightarrow> world" where
  "cleanupSourceFile sourcePath convertedPath w =
     (if \<not> existsSync convertedPath w then w
      else
        (case statSync sourcePath w of
           Inl e \<Rightarrow> w
         | Inr sourceStats \<Rightarrow>
             (case statSync convertedPath w of
                Inl e \<Rightarrow> w
              | Inr convertedStats \<Rightarrow>
                  if 10 * stat_size convertedStats < stat_size sourceStats then w
                  else if toLowerCase (extname sourcePath) = ''.mp4'' then
                    (case unlinkSync sourcePath w of
                       (None, w1) \<Rightarrow> w1
                     | (Some code, w1) \<Rightarrow>
                         if code = ''EPERM'' \<or> code = ''EACCES'' then
                           (case chmodSync sourcePath 438 w1 of
                              (Some secondError, w2) \<Rightarrow> w2
                            | (None, w2) \<Rightarrow> snd (unlinkSync sourcePath w2))
                         else w1)
                  else w)))"

definition hevcArgs :: "path \<Rightarrow> path \<Rightarrow> bool \<Rightarrow> string list" where
  "hevcArgs inputPath outputPath useFallback =
     [''-i'', inputPath,
      ''-c:v'', (if useFallback then ''libx265'' else ''hevc_videotoolbox''),
      ''-c:a'', ''aac'',
      ''-tag:v'', ''hvc1'',
      ''-movflags'', ''+faststart'',
      ''-pix_fmt'', (if useFallback then ''yuv420p10le'' else ''yuv420p10le''),
      ''-r'', ''60'',
      ''-vf'', ''scale=3840:2160:flags=lanczos'',
      ''-b:v'', ''50M'',
      ''-maxrate'', ''60M'',
      ''-bufsize'', ''100M'']
     @ (if useFallback
        then [''-profile:v'', ''main10'', ''-level'', ''5.1'', ''-preset'', ''medium'']
        else [])
     @ [''-progress'', ''pipe:1'', ''-y'', outputPath]"

text \<open>
  \<open>convertWithHEVC\<close>. The permission fix of the output is started without being awaited;
  it touches no path that the rest of the conversion reads, and is run here at the
  point where it is started.

  When \<open>ffmpeg\<close> cannot be started, the \<open>error\<close> handler runs first. For a first attempt
  whose message contains \<open>videotoolbox\<close> it starts the software attempt and ties the
  promise to it with \<open>.then(resolve).catch(reject)\<close>; otherwise it rejects with the error.
  Then the \<open>close\<close> handler runs with the code \<open>uv_code e\<close>, which is neither 0 nor 1 nor
  69: it calls \<open>reject\<close> with that code. In the first case this is the first settlement,
  since the software attempt has only been started: the promise is rejected with the
  code whatever the software attempt does later (its process still runs, and is run here
  at the point where it is started). In the second case the promise is settled already.
\<close>

function convertWithHEVC :: "path \<Rightarrow> path \<Rightarrow> bool \<Rightarrow> world \<Rightarrow> (error + path) \<times> world" where
  "convertWithHEVC inputPath outputPath useFallback w =
     (case spawn ''ffmpeg'' (hevcArgs inputPath outputPath useFallback) (Some outputPath) w of
        (p, w1) \<Rightarrow>
          (case pexit p of
             Exited code \<Rightarrow>
               if code = 0 then
                 (if existsSync outputPath w1
                  then (Inr outputPath, fixFilePermissions outputPath w1)
                  else (Inl OutputMissing, w1))
               else if \<not> useFallback \<and> (code = 1 \<or> code = 69)
                 then convertWithHEVC inputPath outputPath True w1
                 else (Inl (ConversionFailed code), w1)
           | SpawnError msg e \<Rightarrow>
               if \<not> useFallback \<and> str_includes msg ''videotoolbox''
               then (case convertWithHEVC inputPath outputPath True w1 of
                       (ignored, w2) \<Rightarrow> (Inl (ConversionFailed (uv_code e)), w2))
               else (Inl (FFmpegError msg), w1)))"
  by pat_completeness auto
termination
  by (relation "measure (\<lambda>(i, out, useFallback, w). if useFallback then 0 else 1)") auto

declare convertWithHEVC.simps [simp del]


section \<open>wallpaperManager.js\<close>

text \<open>The objects \<open>getExistingWallpapers\<close> returns; times are milliseconds.\<close>

record wallpaper =
  name :: string
  path :: path
  size_bytes :: nat
  created :: nat
  modified :: nat

text \<open>
  \<open>fs.readdirSync\<close>: the names of the entries directly inside a directory; it throws
  when the path is missing or is not a directory.
\<close>

definition is_entry :: "path \<Rightarrow> path \<Rightarrow> bool" where
  "is_entry dir p =
     (startsWith p (dir @ ''/'') \<and> drop (Suc (length dir)) p \<noteq> [] \<and>
      CHR ''/'' \<notin> set (drop (Suc (length dir)) p))"

definition readdirSync :: "path \<Rightarrow> world \<Rightarrow> string + string list" where
  "readdirSync dir w =
     (case lookup w dir of
        None \<Rightarrow> Inl ''ENOENT''
      | Some n \<Rightarrow>
          if isDir n
          then Inr (map (drop (Suc (length dir))) (filter (is_entry dir) (map fst (fs w))))
          else Inl ''ENOTDIR'')"

definition checkCustomerDirectory :: "world \<Rightarrow> bool \<times> world" where
  "checkCustomerDirectory w =
     (if \<not> existsSync customerDir w then (False, w)
      else
        (case (if \<not> existsSync targetDir w then mkdirSync targetDir w else (None, w)) of
           (Some e, w1) \<Rightarrow> (False, w1)
         | (None, w1) \<Rightarrow>
             (let testFile = path_join targetDir ''.test_write'' in
              case writeFileSync testFile ''test'' w1 of
                (Some e, w2) \<Rightarrow> (False, w2)
              | (None, w2) \<Rightarrow>
                  (case unlinkSync testFile w2 of
                     (Some e, w3) \<Rightarrow> (False, w3)
                   | (None, w3) \<Rightarrow> (True, w3)))))"

fun stat_files :: "string list \<Rightarrow> world \<Rightarrow> string + wallpaper list" where
  "stat_files [] w = Inr []"
| "stat_files (file # files) w =
     (let filePath = path_join targetDir file in
      case statSync filePath w of
        Inl e \<Rightarrow> Inl e
      | Inr stats \<Rightarrow>
          (case stat_files files w of
             Inl e \<Rightarrow> Inl e
           | Inr rest \<Rightarrow>
               Inr (\<lparr>name = file, path = filePath, size_bytes = stat_size stats,
                     created = birthtime stats, modified = mtime stats\<rparr> # rest)))"

text \<open>
  \<open>getExistingWallpapers\<close>: \<open>sort((a, b) => b.modified - a.modified)\<close> is a stable sort
  by descending modification time. Every error is caught and gives the empty list.
\<close>

definition getExistingWallpapers :: "world \<Rightarrow> wallpaper list" where
  "getExistingWallpapers w =
     (if \<not> existsSync targetDir w then []
      else
        (case readdirSync targetDir w of
           Inl e \<Rightarrow> []
         | Inr entries \<Rightarrow>
             (case stat_files
                     (filter (\<lambda>file. endsWith file ''.mov'' \<or> endsWith file ''.mp4'') entries) w of
                Inl e \<Rightarrow> []
              | Inr files \<Rightarrow> sort_key (\<lambda>a. - int (modified a)) files)))"

definition isTargetDirectoryEmpty :: "world \<Rightarrow> bool" where
  "isTargetDirectoryEmpty w = (length (getExistingWallpapers w) = 0)"

definition settingsScript :: string where
  "settingsScript =
     [CHR 0x0A] @ ''                tell application '' @ [CHR 0x22] @
     ''System Preferences'' @ [CHR 0x22] @ [CHR 0x0A] @ ''                    activate'' @
     [CHR 0x0A] @ ''                    set current pane to pane '' @ [CHR 0x22] @
     ''com.apple.preference.desktopscreeneffect'' @ [CHR 0x22] @ [CHR 0x0A] @
     ''                end tell'' @ [CHR 0x0A] @ ''            ''"

definition refreshScript :: string where
  "refreshScript =
     [CHR 0x0A] @ ''                tell application '' @ [CHR 0x22] @ ''System Events'' @
     [CHR 0x22] @ [CHR 0x0A] @ ''                    tell every desktop'' @ [CHR 0x0A] @
     ''                        set picture rotation to 0'' @ [CHR 0x0A] @
     ''                        delay 0.5'' @ [CHR 0x0A] @
     ''                        set picture rotation to 1'' @ [CHR 0x0A] @
     ''                        delay 0.5'' @ [CHR 0x0A] @
     ''                        set picture rotation to 0'' @ [CHR 0x0A] @
     ''                    end tell'' @ [CHR 0x0A] @ ''                end tell'' @
     [CHR 0x0A] @ ''            ''"

definition openWallpaperSettings :: "world \<Rightarrow> bool \<times> world" where
  "openWallpaperSettings w =
     (case exec (''osascript -e '' @ [CHR 0x27] @ settingsScript @ [CHR 0x27]) None w of
        (err, w1) \<Rightarrow> (\<not> err, w1))"

definition openFinderAtWallpaperDir :: "world \<Rightarrow> bool \<times> world" where
  "openFinderAtWallpaperDir w =
     (case exec (''open '' @ [CHR 0x22] @ targetDir @ [CHR 0x22]) None w of
        (err, w1) \<Rightarrow> (\<not> err, w1))"

text \<open>
  \<open>setTimeout\<close> for \<open>ms\<close> milliseconds: the only point where the outside changes the
  file system under the program (the user downloads a wallpaper in System Settings). The
  files that appear during one sleep are the next entry of \<open>arrivals\<close>.
\<close>

definition sleep :: "nat \<Rightarrow> world \<Rightarrow> world" where
  "sleep ms w =
     (let w1 = emit (Slept ms) (w\<lparr>clock := clock w + ms\<rparr>) in
      case arrivals w1 of
        [] \<Rightarrow> w1
      | files # rest \<Rightarrow> foldl (\<lambda>v (p, bs). put_file p bs v) (w1\<lparr>arrivals := rest\<rparr>) files)"

text \<open>The \<open>while\<close> loop of \<open>waitForWallpaperSetup\<close>, with its counter \<open>attempts\<close>.\<close>

function waitForWallpaperSetup_loop :: "nat \<Rightarrow> world \<Rightarrow> (error + wallpaper) \<times> world" where
  "waitForWallpaperSetup_loop attempts w =
     (if attempts < retryAttempts then
        (let wallpapers = getExistingWallpapers w in
         if length wallpapers > 0 then (Inr (wallpapers ! 0), w)
         else waitForWallpaperSetup_loop (Suc attempts) (sleep retryInterval w))
      else (Inl SeedTimeout, w))"
  by pat_completeness auto
termination
  by (relation "measure (\<lambda>(attempts, w). retryAttempts - attempts)") auto

declare waitForWallpaperSetup_loop.simps [simp del]

definition waitForWallpaperSetup :: "world \<Rightarrow> (error + wallpaper) \<times> world" where
  "waitForWallpaperSetup w = waitForWallpaperSetup_loop 0 w"

text \<open>
  \<open>createBackup\<close>: \<open>null\<close> is \<open>None\<close>. \<open>isoNow\<close> is \<open>new Date().toISOString()\<close>. Whatever is
  thrown inside is caught, logged as a warning and answered with \<open>null\<close>.
\<close>

definition createBackup :: "wallpaper \<Rightarrow> world \<Rightarrow> path option \<times> world" where
  "createBackup wallpaperFile w =
     (case Utils_ensureDirectoryExists (backupDir w) w of
        (Some e, w1) \<Rightarrow> (None, w1)
      | (None, w1) \<Rightarrow>
          (let timestamp = map (\<lambda>c. if c = CHR '':'' \<or> c = CHR ''.'' then CHR ''-'' else c) (isoNow w1);
               backupName = parse_name (name wallpaperFile) @ ''_backup_'' @ timestamp @ ''.mov'';
               backupPath = path_join (backupDir w1) backupName
           in case copyFileSync (path wallpaperFile) backupPath w1 of
                (Some e, w2) \<Rightarrow> (None, w2)
              | (None, w2) \<Rightarrow>
                  (case Utils_fixFilePermissions backupPath w2 of
                     (permissionFixed, w3) \<Rightarrow> (Some backupPath, w3))))"

definition restartWallpaperDaemon :: "world \<Rightarrow> world" where
  "restartWallpaperDaemon w =
     snd (exec ''sudo launchctl load /System/Library/LaunchDaemons/com.apple.idleassetsd.plist'' None
       (snd (exec ''sudo launchctl unload /System/Library/LaunchDaemons/com.apple.idleassetsd.plist''
              None w)))"

definition touchCommand :: string where
  "touchCommand =
     ''find '' @ [CHR 0x22] @ targetDir @ [CHR 0x22] @ '' -name '' @ [CHR 0x22] @ ''*.mov'' @
     [CHR 0x22] @ '' -exec touch {} '' @ [CHR 0x5C] @ ''; 2>/dev/null''"

definition forceWallpaperRefresh :: "world \<Rightarrow> world" where
  "forceWallpaperRefresh w =
     (case exec (''osascript -e '' @ [CHR 0x27] @ refreshScript @ [CHR 0x27]) None w of
        (err, w1) \<Rightarrow>
          if err then snd (exec touchCommand (Some targetDir) w1)
          else w1)"

definition refreshWallpaperSystem :: "world \<Rightarrow> world" where
  "refreshWallpaperSystem w = forceWallpaperRefresh (restartWallpaperDaemon w)"

definition installWallpaper :: "path \<Rightarrow> string \<Rightarrow> world \<Rightarrow> bool \<times> world" where
  "installWallpaper videoPath targetWallpaperName w =
     (let targetPath = path_join targetDir targetWallpaperName in
      case copyFileSync videoPath targetPath w of
        (Some e, w1) \<Rightarrow> (False, w1)
      | (None, w1) \<Rightarrow>
          if existsSync targetPath w1 then
            (case statSync targetPath w1 of
               Inl e \<Rightarrow> (False, w1)
             | Inr stats \<Rightarrow> (True, refreshWallpaperSystem w1))
          else (False, w1))"

text \<open>
  The prompts read the next line of \<open>answers\<close>. When the input has ended the callback of
  \<open>rl.question\<close> is never called and the promise stays pending: the result \<open>None\<close>.
\<close>

function promptUser :: "wallpaper list \<Rightarrow> world \<Rightarrow> wallpaper option option \<times> world" where
  "promptUser wallpapers w =
     (case answers w of
        [] \<Rightarrow> (None, w)
      | answer # rest \<Rightarrow>
          if toLowerCase answer = ''c'' \<or> toLowerCase answer = ''cancel'' then
            (Some None, emit (Asked (SelectPrompt (length wallpapers)) answer) (w\<lparr>answers := rest\<rparr>))
          else
            (case parseInt answer of
               None \<Rightarrow>
                 promptUser wallpapers
                   (emit (Asked (SelectPrompt (length wallpapers)) answer) (w\<lparr>answers := rest\<rparr>))
             | Some choice \<Rightarrow>
                 if choice < 1 \<or> choice > int (length wallpapers) then
                   promptUser wallpapers
                     (emit (Asked (SelectPrompt (length wallpapers)) answer) (w\<lparr>answers := rest\<rparr>))
                 else
                   (Some (Some (wallpapers ! nat (choice - 1))),
                    emit (Asked (SelectPrompt (length wallpapers)) answer) (w\<lparr>answers := rest\<rparr>))))"
  by pat_completeness auto
termination
  by (relation "measure (\<lambda>(wallpapers, w). length (answers w))") (auto simp: emit_def)

declare promptUser.simps [simp del]

definition selectWallpaperFromList :: "wallpaper list \<Rightarrow> world \<Rightarrow> wallpaper option option \<times> world" where
  "selectWallpaperFromList wallpapers w =
     (case openFinderAtWallpaperDir w of
        (opened, w1) \<Rightarrow> promptUser wallpapers w1)"

text \<open>\<open>getUserConfirmation\<close>: a throwing \<open>statSync\<close> of the new video rejects the promise.\<close>

definition getUserConfirmation :: "wallpaper \<Rightarrow> path \<Rightarrow> world \<Rightarrow> (error + bool) option \<times> world" where
  "getUserConfirmation selectedWallpaper newVideoPath w =
     (case statSync newVideoPath w of
        Inl e \<Rightarrow> (Some (Inl (SysError e)), w)
      | Inr newStats \<Rightarrow>
          (case answers w of
             [] \<Rightarrow> (None, w)
           | answer # rest \<Rightarrow>
               (Some (Inr (toLowerCase answer = ''y'' \<or> toLowerCase answer = ''yes'')),
                emit (Asked (ConfirmPrompt (name selectedWallpaper)) answer) (w\<lparr>answers := rest\<rparr>))))"

text \<open>
  \<open>setupWallpaper\<close>: \<open>Some b\<close> is the boolean the promise resolves to, \<open>None\<close> a promise
  that stays pending at a prompt. Every error thrown inside is caught and gives \<open>false\<close>.
\<close>

definition setupWallpaper :: "path \<Rightarrow> world \<Rightarrow> bool option \<times> world" where
  "setupWallpaper videoPath w =
     (case checkCustomerDirectory w of
        (hasAccess, w1) \<Rightarrow>
          if \<not> hasAccess then (Some False, w1)
          else if isTargetDirectoryEmpty w1 then
            (case openWallpaperSettings w1 of
               (opened, w2) \<Rightarrow>
                 (case waitForWallpaperSetup w2 of
                    (Inl e, w3) \<Rightarrow> (Some False, w3)
                  | (Inr wallpaperFile, w3) \<Rightarrow>
                      (case createBackup wallpaperFile w3 of
                         (backup, w4) \<Rightarrow>
                           (case installWallpaper videoPath (name wallpaperFile) w4 of
                              (success, w5) \<Rightarrow> (Some success, w5)))))
          else
            (let existingWallpapers = getExistingWallpapers w1 in
             if length existingWallpapers = 0 then
               (case openWallpaperSettings w1 of
                  (opened, w2) \<Rightarrow>
                    (case waitForWallpaperSetup w2 of
                       (Inl e, w3) \<Rightarrow> (Some False, w3)
                     | (Inr wallpaperFile, w3) \<Rightarrow>
                         (case createBackup wallpaperFile w3 of
                            (backup, w4) \<Rightarrow>
                              (case installWallpaper videoPath (name wallpaperFile) w4 of
                                 (success, w5) \<Rightarrow> (Some success, w5)))))
             else if length existingWallpapers = 1 then
               (let targetWallpaper = existingWallpapers ! 0 in
                case getUserConfirmation targetWallpaper videoPath w1 of
                  (None, w2) \<Rightarrow> (None, w2)
                | (Some (Inl e), w2) \<Rightarrow> (Some False, w2)
                | (Some (Inr confirmed), w2) \<Rightarrow>
                    if \<not> confirmed then (Some False, w2)
                    else
                      (case createBackup targetWallpaper w2 of
                         (backup, w3) \<Rightarrow>
                           (case installWallpaper videoPath (name targetWallpaper) w3 of
                              (success, w4) \<Rightarrow> (Some success, w4))))
             else
               (case selectWallpaperFromList existingWallpapers w1 of
                  (None, w2) \<Rightarrow> (None, w2)
                | (Some None, w2) \<Rightarrow> (Some False, w2)
                | (Some (Some selectedWallpaper), w2) \<Rightarrow>
                    (case getUserConfirmation selectedWallpaper videoPath w2 of
                       (None, w3) \<Rightarrow> (None, w3)
                     | (Some (Inl e), w3) \<Rightarrow> (Some False, w3)
                     | (Some (Inr confirmed), w3) \<Rightarrow>
                         if \<not> confirmed then (Some False, w3)
                         else
                           (case createBackup selectedWallpaper w3 of
                              (backup, w4) \<Rightarrow>
                                (case installWallpaper videoPath (name selectedWallpaper) w4 of
                                   (success, w5) \<Rightarrow> (Some success, w5)))))))"

section \<open>Vocabulary of the properties\<close>

text \<open>The condition under which \<open>Utils.fixFilePermissions\<close> changes the owner first.\<close>

definition elevated :: "world \<Rightarrow> bool" where
  "elevated w =
     (truthy (js_or (getenv w ''SUDO_USER'') (getenv w ''USER'')) \<and>
      truthy (getenv w ''SUDO_UID'') \<and> truthy (getenv w ''SUDO_GID''))"

text \<open>The answers the prompts take as cancellation and as consent.\<close>

definition is_cancel :: "string \<Rightarrow> bool" where
  "is_cancel answer = (toLowerCase answer = ''c'' \<or> toLowerCase answer = ''cancel'')"

definition is_yes :: "string \<Rightarrow> bool" where
  "is_yes answer = (toLowerCase answer = ''y'' \<or> toLowerCase answer = ''yes'')"

text \<open>The argument lists of the \<open>ffmpeg\<close> processes of a trace, in order.\<close>

definition ffmpeg_runs :: "event list \<Rightarrow> string list list" where
  "ffmpeg_runs evs =
     concat (map (\<lambda>e. case e of Spawned cmd args \<Rightarrow> if cmd = ''ffmpeg'' then [args] else []
                           | _ \<Rightarrow> []) evs)"

text \<open>The ways the hardware encode can end that make \<open>convertWithHEVC\<close> try again.\<close>

definition is_fallback_signal :: "pexit \<Rightarrow> bool" where
  "is_fallback_signal e =
     (case e of Exited code \<Rightarrow> code = 1 \<or> code = 69
              | SpawnError msg e \<Rightarrow> str_includes msg ''videotoolbox'')"

text \<open>
  The three conditions of \<open>cleanupSourceFile\<close>: the converted file exists, it has at
  least a tenth of the size of the source, and the source has the extension \<open>.mp4\<close>
  (compared after lower-casing).
\<close>

definition cleanup_allowed :: "path \<Rightarrow> path \<Rightarrow> world \<Rightarrow> bool" where
  "cleanup_allowed sourcePath convertedPath w =
     (existsSync convertedPath w \<and>
      (case (statSync sourcePath w, statSync convertedPath w) of
         (Inr sourceStats, Inr convertedStats) \<Rightarrow>
           stat_size sourceStats \<le> 10 * stat_size convertedStats
       | _ \<Rightarrow> False) \<and>
      toLowerCase (extname sourcePath) = ''.mp4'')"

text \<open>The runs of the duration extender among them: those that loop their input.\<close>

definition extender_runs :: "event list \<Rightarrow> string list list" where
  "extender_runs evs = filter (\<lambda>args. take 2 args = [''-stream_loop'', ''-1'']) (ffmpeg_runs evs)"

text \<open>A node but for its modification time: what \<open>touch\<close> leaves as it is.\<close>

definition timeless :: "node \<Rightarrow> node" where
  "timeless n = n\<lparr>mtime := 0\<rparr>"

text \<open>The events a run adds to the trace it starts with.\<close>

definition new_events :: "world \<Rightarrow> world \<Rightarrow> event list" where
  "new_events w w' = drop (length (trace w)) (trace w')"

text \<open>\<open>grows K w w'\<close>: the trace of \<open>w'\<close> is the trace of \<open>w\<close> followed by events of kind \<open>K\<close>.\<close>

definition grows :: "(event \<Rightarrow> bool) \<Rightarrow> world \<Rightarrow> world \<Rightarrow> bool" where
  "grows K w w' = (\<exists>evs. trace w' = trace w @ evs \<and> list_all K evs)"

definition is_question :: "event \<Rightarrow> bool" where
  "is_question e = (case e of Asked q answer \<Rightarrow> True | _ \<Rightarrow> False)"

definition is_copy :: "event \<Rightarrow> bool" where
  "is_copy e = (case e of EvCopy src dst r \<Rightarrow> True | _ \<Rightarrow> False)"

text \<open>A cancellation by the user: the cancel token at the selection prompt, or anything
  but \<open>y\<close> or \<open>yes\<close> at the confirmation prompt.\<close>

definition is_cancellation :: "event \<Rightarrow> bool" where
  "is_cancellation e =
     (case e of
        Asked (SelectPrompt n) answer \<Rightarrow> is_cancel answer
      | Asked (ConfirmPrompt n) answer \<Rightarrow> \<not> is_yes answer
      | _ \<Rightarrow> False)"

text \<open>
  What the selection prompt resolved to, given the answers \<open>qs\<close> it read: it stays pending
  (\<open>None\<close>) while no answer is a cancel token or a valid number; it resolves to \<open>null\<close> at
  the first cancel token; and it resolves to the wallpaper whose number the last answer
  is, none of the answers being a cancel token.
\<close>

definition selection_outcome :: "wallpaper list \<Rightarrow> string list \<Rightarrow> wallpaper option option \<Rightarrow> bool" where
  "selection_outcome ws qs r =
     (case r of
        None \<Rightarrow> \<forall>ans\<in>set qs. \<not> is_cancel ans
      | Some None \<Rightarrow>
          qs \<noteq> [] \<and> is_cancel (last qs) \<and> (\<forall>ans\<in>set (butlast qs). \<not> is_cancel ans)
      | Some (Some a) \<Rightarrow>
          qs \<noteq> [] \<and> (\<forall>ans\<in>set qs. \<not> is_cancel ans) \<and>
          (\<exists>c. parseInt (last qs) = Some c \<and> 1 \<le> c \<and> c \<le> int (length ws) \<and>
               a = ws ! nat (c - 1)))"

text \<open>
  The two statements every branch of \<open>setupWallpaper\<close> ends with once an asset \<open>a\<close> is
  chosen: \<open>await this.createBackup(a)\<close>, whose result is dropped, and
  \<open>return await this.installWallpaper(videoPath, a.name)\<close>.
\<close>

definition replace_step :: "path \<Rightarrow> wallpaper \<Rightarrow> world \<Rightarrow> bool option \<times> world" where
  "replace_step videoPath a w =
     (case createBackup a w of
        (backup, w1) \<Rightarrow>
          (case installWallpaper videoPath (name a) w1 of
             (success, w2) \<Rightarrow> (Some success, w2)))"

text \<open>The path \<open>createBackup\<close> copies the wallpaper to.\<close>

definition backupPath :: "wallpaper \<Rightarrow> world \<Rightarrow> path" where
  "backupPath a w =
     path_join (backupDir w)
       (parse_name (name a) @ ''_backup_'' @
        map (\<lambda>c. if c = CHR '':'' \<or> c = CHR ''.'' then CHR ''-'' else c) (isoNow w) @ ''.mov'')"

text \<open>
  The statements the branches with an existing wallpaper share: ask for confirmation of
  the chosen asset, and replace it when the answer is yes.
\<close>

definition confirm_step :: "path \<Rightarrow> wallpaper \<Rightarrow> world \<Rightarrow> bool option \<times> world" where
  "confirm_step videoPath a w =
     (case getUserConfirmation a videoPath w of
        (None, w1) \<Rightarrow> (None, w1)
      | (Some (Inl e), w1) \<Rightarrow> (Some False, w1)
      | (Some (Inr confirmed), w1) \<Rightarrow>
          if confirmed then replace_step videoPath a w1 else (Some False, w1))"

text \<open>
  How \<open>setupWallpaper\<close> arrives at the asset \<open>a\<close> it replaces, and the world \<open>wS\<close> in which
  the replacement starts: in an empty directory \<open>a\<close> is the asset the poll returned; with
  one asset it is that asset, confirmed by the user; with more it is the asset
  \<open>selectWallpaperFromList\<close> resolved to, confirmed by the user.
\<close>

definition arrives_at :: "path \<Rightarrow> world \<Rightarrow> wallpaper \<Rightarrow> world \<Rightarrow> bool" where
  "arrives_at videoPath w a wS =
     (let w1 = snd (checkCustomerDirectory w);
          existingWallpapers = getExistingWallpapers w1
      in fst (checkCustomerDirectory w) \<and>
         (if existingWallpapers = [] then
            waitForWallpaperSetup (snd (openWallpaperSettings w1)) = (Inr a, wS)
          else if length existingWallpapers = 1 then
            a = existingWallpapers ! 0 \<and>
            getUserConfirmation a videoPath w1 = (Some (Inr True), wS)
          else
            fst (selectWallpaperFromList existingWallpapers w1) = Some (Some a) \<and>
            getUserConfirmation a videoPath (snd (selectWallpaperFromList existingWallpapers w1)) =
              (Some (Inr True), wS)))"

section \<open>Example worlds\<close>

definition dirNode :: node where
  "dirNode = \<lparr>isDir = True, bytes = [], birthtime = 0, mtime = 0, mode = 493\<rparr>"

definition fileNode :: "string \<Rightarrow> nat \<Rightarrow> node" where
  "fileNode bs t = \<lparr>isDir = False, bytes = bs, birthtime = t, mtime = t, mode = 420\<rparr>"

definition world0 :: world where
  "world0 =
     \<lparr>fs = [], clock = 100, faults = [], procs = [], answers = [], arrivals = [], env = [],
      cwd = ''/Users/me/app'', isoNow = ''2024-05-06T07:08:09.010Z'', trace = []\<rparr>"

definition exits :: "int \<Rightarrow> string option \<Rightarrow> proc" where
  "exits code written = \<lparr>pexit = Exited code, pduration = None, pwrites = written, pskips = []\<rparr>"

definition probes :: "jsnum \<Rightarrow> proc" where
  "probes d = \<lparr>pexit = Exited 0, pduration = Some d, pwrites = None, pskips = []\<rparr>"

text \<open>A converted file in the output directory, without and with \<open>sudo\<close>.\<close>

definition plain_world :: world where
  "plain_world = world0\<lparr>fs := [(''/out/v.mov'', fileNode ''hevc'' 1)]\<rparr>"

definition sudo_world :: world where
  "sudo_world =
     world0\<lparr>fs := [(''/out/v.mov'', fileNode ''hevc'' 1)],
            env := [(''SUDO_USER'', ''me''), (''SUDO_UID'', ''501''), (''SUDO_GID'', ''20'')],
            procs := [exits 1 None]\<rparr>"







definition empty_output_world :: world where
  "empty_output_world = world0\<lparr>procs := [exits 0 (Some [])]\<rparr>"

definition extend_world :: world where
  "extend_world = world0\<lparr>procs := [probes (Num 45), exits 0 (Some ''looped'')]\<rparr>"

text \<open>A downloaded source of 20 bytes with its conversion of 5 bytes; the first
  \<open>unlink\<close> is refused. And the same source with a conversion of 1 byte.\<close>

definition locked_source_world :: world where
  "locked_source_world =
     world0\<lparr>fs := [(''/out/v.mp4'', fileNode ''01234567890123456789'' 1),
                   (''/out/v.mov'', fileNode ''hevc!'' 2)],
            faults := [Some ''EPERM'']\<rparr>"

text \<open>The same files; both \<open>unlink\<close> attempts are refused, or the first \<open>unlink\<close> and the
  \<open>chmod\<close> are.\<close>

definition stuck_source_world :: world where
  "stuck_source_world =
     world0\<lparr>fs := [(''/out/v.mp4'', fileNode ''01234567890123456789'' 1),
                   (''/out/v.mov'', fileNode ''hevc!'' 2)],
            faults := [Some ''EACCES'', None, Some ''EACCES'']\<rparr>"

definition readonly_source_world :: world where
  "readonly_source_world =
     world0\<lparr>fs := [(''/out/v.mp4'', fileNode ''01234567890123456789'' 1),
                   (''/out/v.mov'', fileNode ''hevc!'' 2)],
            faults := [Some ''EPERM'', Some ''EPERM'']\<rparr>"

definition truncated_world :: world where
  "truncated_world =
     world0\<lparr>fs := [(''/out/v.mp4'', fileNode ''01234567890123456789'' 1),
                   (''/out/v.mov'', fileNode ''h'' 2)]\<rparr>"

definition busy_source_world :: world where
  "busy_source_world =
     world0\<lparr>fs := [(''/out/v.mp4'', fileNode ''01234567890123456789'' 1),
                   (''/out/v.mov'', fileNode ''hevc!'' 2)],
            faults := [Some ''EBUSY'']\<rparr>"




text \<open>
  The wallpaper directory with no wallpaper, with one (the user answers \<open>n\<close>, or \<open>y\<close>),
  and with three (the user picks the second and consents). The converted video is
  \<open>/out/v.mov\<close>. In \<open>backup_fails_world\<close> the fourth mutating call, the copy into the
  backup directory, is refused. In \<open>world0\<close> the directory of the wallpaper system is
  missing altogether.
\<close>

definition wallpaper_fs :: "(path \<times> node) list" where
  "wallpaper_fs =
     [(customerDir, dirNode), (targetDir, dirNode), (''/Users/me/app'', dirNode),
      (''/out/v.mov'', fileNode ''hevc!'' 5)]"

definition empty_dir_world :: world where
  "empty_dir_world = world0\<lparr>fs := wallpaper_fs\<rparr>"

definition seeded_world :: world where
  "seeded_world =
     world0\<lparr>fs := wallpaper_fs,
            arrivals := [[], [(path_join targetDir ''Sonoma Horizon.mov'', ''apple'')]]\<rparr>"

definition one_wallpaper_world :: world where
  "one_wallpaper_world =
     world0\<lparr>fs := wallpaper_fs @ [(path_join targetDir ''a.mov'', fileNode ''old'' 1)],
            answers := [''n'']\<rparr>"

definition consenting_world :: world where
  "consenting_world =
     world0\<lparr>fs := wallpaper_fs @ [(path_join targetDir ''a.mov'', fileNode ''old'' 1)],
            answers := [''y'']\<rparr>"

definition backup_fails_world :: world where
  "backup_fails_world =
     world0\<lparr>fs := wallpaper_fs @ [(path_join targetDir ''a.mov'', fileNode ''old'' 1)],
            answers := [''y''],
            faults := [None, None, None, Some ''EACCES'']\<rparr>"

definition three_wallpaper_world :: world where
  "three_wallpaper_world =
     world0\<lparr>fs := wallpaper_fs @
                  [(path_join targetDir ''a.mov'', fileNode ''first'' 3),
                   (path_join targetDir ''b.mov'', fileNode ''second'' 2),
                   (path_join targetDir ''c.mp4'', fileNode ''third'' 1)],
            answers := [''2'', ''y'']\<rparr>"

text \<open>The one wallpaper of these worlds as \<open>getExistingWallpapers\<close> reports it, and a
  world in which the backup directory can be made but the copy into it is refused.\<close>

definition wallpaper_a :: wallpaper where
  "wallpaper_a =
     \<lparr>name = ''a.mov'', path = path_join targetDir ''a.mov'', size_bytes = 3, created = 1,
      modified = 1\<rparr>"

definition refused_backup_world :: world where
  "refused_backup_world =
     world0\<lparr>fs := wallpaper_fs @ [(path_join targetDir ''a.mov'', fileNode ''old'' 1)],
            faults := [None, Some ''EACCES'']\<rparr>"

text \<open>A world in which the user consents and the backup is made (the sixth mutating call
  comes after the backup's copy and its chmod), but the copy over the selected wallpaper
  is refused.\<close>

definition install_fails_world :: world where
  "install_fails_world =
     world0\<lparr>fs := wallpaper_fs @ [(path_join targetDir ''a.mov'', fileNode ''old'' 1)],
            answers := [''y''],
            faults := [None, None, None, None, None, Some ''EACCES'']\<rparr>"

section \<open>Properties of the system calls\<close>

lemma trace_emit [simp]: "trace (emit e w) = trace w @ [e]"
  by (simp add: emit_def)

lemma trace_store_file [simp]: "trace (store_file p bs m k w) = trace w"
  by (simp add: store_file_def)

lemma trace_put_file [simp]: "trace (put_file p bs w) = trace w"
  by (simp add: put_file_def)

lemma chmodSync_trace:
  "trace (snd (chmodSync p m w)) = trace w @ [EvChmod p m (fst (chmodSync p m w))]"
  by (simp add: chmodSync_def take_fault_def split: list.splits option.splits)

lemma unlinkSync_trace:
  "trace (snd (unlinkSync p w)) = trace w @ [EvUnlink p (fst (unlinkSync p w))]"
  by (simp add: unlinkSync_def take_fault_def split: list.splits option.splits)

lemma spawn_trace:
  "trace (snd (spawn cmd args out w)) = trace w @ [Spawned cmd args]"
  by (simp add: spawn_def next_proc_def proc_effect_def
      split: list.splits option.splits pexit.splits prod.splits)

lemma spawn_fst: "fst (spawn cmd args out w) = fst (next_proc w)"
  by (simp add: spawn_def split: prod.splits)

lemma ffmpeg_runs_append [simp]: "ffmpeg_runs (xs @ ys) = ffmpeg_runs xs @ ffmpeg_runs ys"
  by (simp add: ffmpeg_runs_def)

lemma ffmpeg_runs_Nil [simp]: "ffmpeg_runs [] = []"
  by (simp add: ffmpeg_runs_def)

lemma ffmpeg_runs_Cons [simp]:
  "ffmpeg_runs (e # es) =
     (case e of Spawned cmd args \<Rightarrow> if cmd = ''ffmpeg'' then [args] else [] | _ \<Rightarrow> [])
     @ ffmpeg_runs es"
  by (simp add: ffmpeg_runs_def)

section \<open>The permission normalizer\<close>

lemma Utils_fixFilePermissions_plain:
  "\<not> elevated w \<Longrightarrow>
     Utils_fixFilePermissions p w = (fst (chmodSync p 436 w) = None, snd (chmodSync p 436 w))"
  by (auto simp: Utils_fixFilePermissions_def elevated_def Let_def split: prod.splits option.splits)

lemma Utils_fixFilePermissions_sudo:
  "elevated w \<Longrightarrow>
     Utils_fixFilePermissions p w =
       (let chown = spawn ''chown'' [str (getenv w ''SUDO_UID'') @ '':'' @ str (getenv w ''SUDO_GID''), p] None w
        in if pexit (fst chown) = Exited 0
           then (fst (chmodSync p 436 (snd chown)) = None, snd (chmodSync p 436 (snd chown)))
           else (False, snd chown))"
  by (auto simp: Utils_fixFilePermissions_def elevated_def Let_def
      split: prod.splits option.splits pexit.splits)

lemma Utils_fixFilePermissions_ffmpeg_runs [simp]:
  "ffmpeg_runs (trace (snd (Utils_fixFilePermissions p w))) = ffmpeg_runs (trace w)"
  by (cases "elevated w")
     (simp_all add: Utils_fixFilePermissions_plain Utils_fixFilePermissions_sudo Let_def
        chmodSync_trace spawn_trace)

text \<open>
  Claim C9. \<open>Utils.fixFilePermissions\<close> resolves to a boolean and never throws or rejects
  (the model returns a boolean in every branch: each \<open>catch\<close> and each error callback of
  the source is one of them). When \<open>SUDO_USER\<close>, \<open>SUDO_UID\<close> and \<open>SUDO_GID\<close> are absent,
  the only step that runs is \<open>chmod\<close> to \<open>0o664\<close> (436), and the result says whether it
  succeeded. When the owner is changed first, a \<open>chown\<close> that exits with a non-zero code or
  cannot be spawned gives \<open>false\<close> with no further step; a \<open>chmod\<close> that throws gives
  \<open>false\<close>; and \<open>true\<close> is returned only after a \<open>chmod\<close> that succeeded.
\<close>

theorem Utils_fixFilePermissions_swallows_failures:
  "(getenv w ''SUDO_USER'' = None \<and> getenv w ''SUDO_UID'' = None \<and> getenv w ''SUDO_GID'' = None \<longrightarrow>
      trace (snd (Utils_fixFilePermissions p w)) = trace w @ [EvChmod p 436 (fst (chmodSync p 436 w))] \<and>
      fst (Utils_fixFilePermissions p w) = (fst (chmodSync p 436 w) = None))
   \<and> (elevated w \<and> pexit (fst (next_proc w)) \<noteq> Exited 0 \<longrightarrow>
        \<not> fst (Utils_fixFilePermissions p w) \<and>
        trace (snd (Utils_fixFilePermissions p w)) =
          trace w @ [Spawned ''chown'' [str (getenv w ''SUDO_UID'') @ '':'' @ str (getenv w ''SUDO_GID''), p]])
   \<and> (\<forall>e. last (trace (snd (Utils_fixFilePermissions p w))) = EvChmod p 436 (Some e) \<longrightarrow>
        \<not> fst (Utils_fixFilePermissions p w))
   \<and> (fst (Utils_fixFilePermissions p w) \<longrightarrow>
        last (trace (snd (Utils_fixFilePermissions p w))) = EvChmod p 436 None)"
proof (cases "elevated w")
  case False
  then show ?thesis
    by (simp add: Utils_fixFilePermissions_plain chmodSync_trace)
next
  case True
  then have "\<not> (getenv w ''SUDO_USER'' = None \<and> getenv w ''SUDO_UID'' = None \<and> getenv w ''SUDO_GID'' = None)"
    by (auto simp: elevated_def truthy_def)
  with True show ?thesis
    by (simp add: Utils_fixFilePermissions_sudo Let_def chmodSync_trace spawn_trace spawn_fst)
qed

theorem Utils_fixFilePermissions_swallows_failures_witness:
  "(getenv plain_world ''SUDO_USER'' = None \<and> getenv plain_world ''SUDO_UID'' = None \<and>
    getenv plain_world ''SUDO_GID'' = None)
   \<and> fst (Utils_fixFilePermissions ''/out/v.mov'' plain_world)
   \<and> last (trace (snd (Utils_fixFilePermissions ''/out/v.mov'' plain_world))) = EvChmod ''/out/v.mov'' 436 None
   \<and> (elevated sudo_world \<and> pexit (fst (next_proc sudo_world)) \<noteq> Exited 0)
   \<and> \<not> fst (Utils_fixFilePermissions ''/out/v.mov'' sudo_world)"
proof -
  have h1: "getenv plain_world ''SUDO_USER'' = None \<and> getenv plain_world ''SUDO_UID'' = None \<and>
    getenv plain_world ''SUDO_GID'' = None"
    by code_simp
  have c1: "fst (chmodSync ''/out/v.mov'' 436 plain_world) = None"
    by code_simp
  have h2: "elevated sudo_world \<and> pexit (fst (next_proc sudo_world)) \<noteq> Exited 0"
    by code_simp
  from Utils_fixFilePermissions_swallows_failures[of plain_world "''/out/v.mov''"] h1 c1
  have r1: "fst (Utils_fixFilePermissions ''/out/v.mov'' plain_world)"
    by simp
  from Utils_fixFilePermissions_swallows_failures[of plain_world "''/out/v.mov''"] r1
  have r2: "last (trace (snd (Utils_fixFilePermissions ''/out/v.mov'' plain_world))) = EvChmod ''/out/v.mov'' 436 None"
    by blast
  from Utils_fixFilePermissions_swallows_failures[of sudo_world "''/out/v.mov''"] h2
  have r3: "\<not> fst (Utils_fixFilePermissions ''/out/v.mov'' sudo_world)"
    by blast
  from h1 r1 r2 h2 r3 show ?thesis by blast
qed

section \<open>The selection prompt\<close>

lemma promptUser_member:
  "promptUser ws w = (Some (Some a), w') \<Longrightarrow> a \<in> set ws"
proof (induction ws w rule: promptUser.induct)
  case (1 ws w)
  from "1.prems" show ?case
    by (subst (asm) promptUser.simps)
       (auto split: list.splits option.splits if_splits dest: "1.IH")
qed


lemma promptUser_invalid:
  "answers w = ans # rest \<Longrightarrow> \<not> is_cancel ans \<Longrightarrow>
   (case parseInt ans of None \<Rightarrow> True | Some c \<Rightarrow> c < 1 \<or> c > int (length ws)) \<Longrightarrow>
   promptUser ws w = promptUser ws (emit (Asked (SelectPrompt (length ws)) ans) (w\<lparr>answers := rest\<rparr>))"
  by (subst promptUser.simps) (auto simp: is_cancel_def split: option.splits)



section \<open>The transcoder\<close>

lemma fixFilePermissions_ffmpeg_runs [simp]:
  "ffmpeg_runs (trace (fixFilePermissions p w)) = ffmpeg_runs (trace w)"
  by (simp add: fixFilePermissions_def)

lemma convertWithHEVC_software:
  "convertWithHEVC i out True w =
     (let sw = spawn ''ffmpeg'' (hevcArgs i out True) (Some out) w
      in case pexit (fst sw) of
           Exited code \<Rightarrow>
             if code = 0 then
               (if existsSync out (snd sw) then (Inr out, fixFilePermissions out (snd sw))
                else (Inl OutputMissing, snd sw))
             else (Inl (ConversionFailed code), snd sw)
         | SpawnError msg e \<Rightarrow> (Inl (FFmpegError msg), snd sw))"
  by (subst convertWithHEVC.simps) (simp add: Let_def split: prod.splits pexit.splits)

lemma convertWithHEVC_hardware:
  "convertWithHEVC i out False w =
     (let hw = spawn ''ffmpeg'' (hevcArgs i out False) (Some out) w
      in case pexit (fst hw) of
           Exited code \<Rightarrow>
             if code = 0 then
               (if existsSync out (snd hw) then (Inr out, fixFilePermissions out (snd hw))
                else (Inl OutputMissing, snd hw))
             else if code = 1 \<or> code = 69 then convertWithHEVC i out True (snd hw)
             else (Inl (ConversionFailed code), snd hw)
         | SpawnError msg e \<Rightarrow>
             if str_includes msg ''videotoolbox''
             then (Inl (ConversionFailed (uv_code e)), snd (convertWithHEVC i out True (snd hw)))
             else (Inl (FFmpegError msg), snd hw))"
  by (subst convertWithHEVC.simps)
     (auto simp: Let_def split: prod.splits pexit.splits)


lemma convertWithHEVC_software_runs:
  "ffmpeg_runs (trace (snd (convertWithHEVC i out True w))) =
     ffmpeg_runs (trace w) @ [hevcArgs i out True]"
  by (simp add: convertWithHEVC_software Let_def spawn_trace split: pexit.splits)





lemma extendVideo_after_probe:
  "fst (getVideoDuration i w) = Inr d \<Longrightarrow>
   extendVideo i m w =
     (let e = replace_ext i ''_extended.mp4'';
          sp = spawn ''ffmpeg'' (extendArgs i m e) (Some e) (snd (getVideoDuration i w))
      in case pexit (fst sp) of
           Exited code \<Rightarrow>
             if code = 0 then
               (if existsSync e (snd sp) then (Inr e, snd sp) else (Inl ExtendOutputMissing, snd sp))
             else (Inl (ExtendFailed code), snd sp)
         | SpawnError msg e \<Rightarrow> (Inl (ExtendError msg), snd sp))"
  by (cases "getVideoDuration i w")
     (auto simp: extendVideo_def Let_def split: prod.splits pexit.splits sum.splits)

text \<open>
  Claim C5, amended. When the engine exits with code 0, \<open>convertWithHEVC\<close> and
  \<open>extendVideo\<close> succeed exactly when the expected output file exists afterwards; a
  missing output is reported as a failure (\<open>OutputMissing\<close>, \<open>ExtendOutputMissing\<close>)
  although the exit code was 0. The size of the output is not looked at.
\<close>

theorem zero_exit_needs_existing_output:
  "(pexit (fst (next_proc w)) = Exited 0 \<longrightarrow>
      (fst (convertWithHEVC i out u w) = Inr out \<longleftrightarrow>
         existsSync out (snd (spawn ''ffmpeg'' (hevcArgs i out u) (Some out) w))) \<and>
      (\<not> existsSync out (snd (spawn ''ffmpeg'' (hevcArgs i out u) (Some out) w)) \<longrightarrow>
         fst (convertWithHEVC i out u w) = Inl OutputMissing))
   \<and> (\<forall>d. fst (getVideoDuration i w) = Inr d \<and>
           pexit (fst (next_proc (snd (getVideoDuration i w)))) = Exited 0 \<longrightarrow>
        (let e = replace_ext i ''_extended.mp4'';
             sp = spawn ''ffmpeg'' (extendArgs i m e) (Some e) (snd (getVideoDuration i w))
         in (fst (extendVideo i m w) = Inr e \<longleftrightarrow> existsSync e (snd sp)) \<and>
            (\<not> existsSync e (snd sp) \<longrightarrow> fst (extendVideo i m w) = Inl ExtendOutputMissing)))"
proof -
  have conv: "pexit (fst (next_proc w)) = Exited 0 \<Longrightarrow>
      fst (convertWithHEVC i out u w) =
        (if existsSync out (snd (spawn ''ffmpeg'' (hevcArgs i out u) (Some out) w))
         then Inr out else Inl OutputMissing)"
    by (cases u)
       (simp_all add: convertWithHEVC_software convertWithHEVC_hardware Let_def spawn_fst
          is_fallback_signal_def)
  show ?thesis
    by (auto simp: conv extendVideo_after_probe Let_def spawn_fst)
qed

theorem zero_exit_needs_existing_output_witness:
  "pexit (fst (next_proc empty_output_world)) = Exited 0
   \<and> fst (convertWithHEVC ''/out/v.mp4'' ''/out/v.mov'' False empty_output_world) = Inr ''/out/v.mov''
   \<and> pexit (fst (next_proc world0)) = Exited 0
   \<and> fst (convertWithHEVC ''/out/v.mp4'' ''/out/v.mov'' False world0) = Inl OutputMissing
   \<and> (fst (getVideoDuration ''/out/v.mp4'' extend_world) = Inr (Num 45) \<and>
      pexit (fst (next_proc (snd (getVideoDuration ''/out/v.mp4'' extend_world)))) = Exited 0)
   \<and> fst (extendVideo ''/out/v.mp4'' 60 extend_world) = Inr ''/out/v_extended.mp4''"
proof -
  have h1: "pexit (fst (next_proc empty_output_world)) = Exited 0"
    by code_simp
  have x1: "existsSync ''/out/v.mov''
      (snd (spawn ''ffmpeg'' (hevcArgs ''/out/v.mp4'' ''/out/v.mov'' False) (Some ''/out/v.mov'') empty_output_world))"
    by code_simp
  have h2: "pexit (fst (next_proc world0)) = Exited 0"
    by code_simp
  have x2: "\<not> existsSync ''/out/v.mov''
      (snd (spawn ''ffmpeg'' (hevcArgs ''/out/v.mp4'' ''/out/v.mov'' False) (Some ''/out/v.mov'') world0))"
    by code_simp
  have h3: "fst (getVideoDuration ''/out/v.mp4'' extend_world) = Inr (Num 45) \<and>
      pexit (fst (next_proc (snd (getVideoDuration ''/out/v.mp4'' extend_world)))) = Exited 0"
    by code_simp
  have e3: "replace_ext ''/out/v.mp4'' ''_extended.mp4'' = ''/out/v_extended.mp4''"
    by code_simp
  have x3: "existsSync ''/out/v_extended.mp4''
      (snd (spawn ''ffmpeg'' (extendArgs ''/out/v.mp4'' 60 ''/out/v_extended.mp4'') (Some ''/out/v_extended.mp4'')
         (snd (getVideoDuration ''/out/v.mp4'' extend_world))))"
    by code_simp
  note t = zero_exit_needs_existing_output[of _ "''/out/v.mp4''" "''/out/v.mov''" False 60]
  from t[of empty_output_world] h1 x1
  have r1: "fst (convertWithHEVC ''/out/v.mp4'' ''/out/v.mov'' False empty_output_world) = Inr ''/out/v.mov''"
    by blast
  from t[of world0] h2 x2
  have r2: "fst (convertWithHEVC ''/out/v.mp4'' ''/out/v.mov'' False world0) = Inl OutputMissing"
    by blast
  from t[of extend_world] h3 x3
  have r3: "fst (extendVideo ''/out/v.mp4'' 60 extend_world) = Inr ''/out/v_extended.mp4''"
    by (simp add: Let_def e3)
  from h1 r1 h2 r2 h3 r3 show ?thesis by blast
qed

text \<open>
  Claim C5, as stated, asks that a zero-byte output after exit code 0 be reported as a
  failure. The source checks \<open>fs.existsSync(outputPath)\<close> only: an empty output file is
  accepted.
\<close>

theorem zero_byte_output_counterexample:
  "pexit (fst (next_proc empty_output_world)) = Exited 0
   \<and> fst (convertWithHEVC ''/out/v.mp4'' ''/out/v.mov'' False empty_output_world) = Inr ''/out/v.mov''
   \<and> map_option stat_size
       (lookup (snd (convertWithHEVC ''/out/v.mp4'' ''/out/v.mov'' False empty_output_world)) ''/out/v.mov'')
     = Some 0"
  by code_simp

section \<open>Deleting the source after the conversion\<close>

lemma cleanupSourceFile_refused:
  "\<not> cleanup_allowed s c w \<Longrightarrow> cleanupSourceFile s c w = w"
  by (auto simp: cleanupSourceFile_def cleanup_allowed_def split: sum.splits)

lemma cleanupSourceFile_allowed:
  "cleanup_allowed s c w \<Longrightarrow>
   cleanupSourceFile s c w =
     (case unlinkSync s w of
        (None, w1) \<Rightarrow> w1
      | (Some code, w1) \<Rightarrow>
          if code = ''EPERM'' \<or> code = ''EACCES'' then
            (case chmodSync s 438 w1 of
               (Some secondError, w2) \<Rightarrow> w2
             | (None, w2) \<Rightarrow> snd (unlinkSync s w2))
          else w1)"
  by (auto simp: cleanupSourceFile_def cleanup_allowed_def split: sum.splits)

lemma unlinkSync_failed_keeps:
  "fst (unlinkSync p w) = Some e \<Longrightarrow> lookup (snd (unlinkSync p w)) q = lookup w q"
  by (auto simp: unlinkSync_def take_fault_def lookup_def emit_def
      split: list.splits option.splits if_splits)

lemma unlinkSync_done_removes:
  "fst (unlinkSync p w) = None \<Longrightarrow> lookup (snd (unlinkSync p w)) p = None"
  by (auto simp: unlinkSync_def take_fault_def lookup_def emit_def AList.delete_conv'
      split: list.splits option.splits if_splits)

lemma chmodSync_failed_keeps:
  "fst (chmodSync p m w) = Some e \<Longrightarrow> lookup (snd (chmodSync p m w)) q = lookup w q"
  by (auto simp: chmodSync_def take_fault_def lookup_def emit_def
      split: list.splits option.splits if_splits)

lemma chmodSync_done:
  "fst (chmodSync p m w) = None \<Longrightarrow>
     lookup w p \<noteq> None \<and>
     lookup (snd (chmodSync p m w)) p = map_option (\<lambda>n. n\<lparr>mode := m\<rparr>) (lookup w p)"
  by (auto simp: chmodSync_def take_fault_def lookup_def emit_def AList.update_conv'
      split: list.splits option.splits if_splits)

text \<open>
  Claim C4. \<open>cleanupSourceFile\<close> touches the source only if the converted file exists, its
  size is at least a tenth of the size of the source, and the extension of the source is
  \<open>.mp4\<close> (compared in lower case); otherwise the world is left exactly as it was. When
  these hold, one \<open>unlink\<close> is attempted, and when it succeeds the source is gone. If it
  throws \<open>EPERM\<close> or \<open>EACCES\<close>, the file is made writable (\<open>chmod 0o666\<close>, 438): when that
  fails the source is left as it was; when it succeeds the source has the permission bits
  438 and exactly one more \<open>unlink\<close> is attempted, after which the source is gone if it
  succeeded and is still in place, writable, if it failed. Nothing is attempted after it.
  If the first \<open>unlink\<close> throws anything else, nothing more is attempted and the source
  file is still in place.
\<close>

theorem cleanupSourceFile_deletes_only_when_safe:
  "(\<not> cleanup_allowed s c w \<longrightarrow> cleanupSourceFile s c w = w)
   \<and> (cleanup_allowed s c w \<longrightarrow>
        (case fst (unlinkSync s w) of
           None \<Rightarrow>
             trace (cleanupSourceFile s c w) = trace w @ [EvUnlink s None] \<and>
             lookup (cleanupSourceFile s c w) s = None
         | Some code \<Rightarrow>
             if code = ''EPERM'' \<or> code = ''EACCES'' then
               (let w1 = snd (unlinkSync s w);
                    r2 = fst (chmodSync s 438 w1);
                    w2 = snd (chmodSync s 438 w1);
                    r3 = fst (unlinkSync s w2)
                in trace (cleanupSourceFile s c w) =
                     trace w @ [EvUnlink s (Some code), EvChmod s 438 r2]
                     @ (if r2 = None then [EvUnlink s r3] else []) \<and>
                   (case r2 of
                      Some secondError \<Rightarrow> lookup (cleanupSourceFile s c w) s = lookup w s
                    | None \<Rightarrow>
                        lookup w s \<noteq> None \<and>
                        lookup w2 s = map_option (\<lambda>n. n\<lparr>mode := 438\<rparr>) (lookup w s) \<and>
                        (case r3 of
                           None \<Rightarrow> lookup (cleanupSourceFile s c w) s = None
                         | Some secondError \<Rightarrow>
                             lookup (cleanupSourceFile s c w) s =
                               map_option (\<lambda>n. n\<lparr>mode := 438\<rparr>) (lookup w s))))
             else trace (cleanupSourceFile s c w) = trace w @ [EvUnlink s (Some code)] \<and>
                  lookup (cleanupSourceFile s c w) s = lookup w s))"
proof -
  have perm: "cleanup_allowed s c w \<Longrightarrow> fst (unlinkSync s w) = Some code \<Longrightarrow>
      code = ''EPERM'' \<or> code = ''EACCES'' \<Longrightarrow>
      (let w1 = snd (unlinkSync s w);
           r2 = fst (chmodSync s 438 w1);
           w2 = snd (chmodSync s 438 w1);
           r3 = fst (unlinkSync s w2)
       in trace (cleanupSourceFile s c w) =
            trace w @ [EvUnlink s (Some code), EvChmod s 438 r2]
            @ (if r2 = None then [EvUnlink s r3] else []) \<and>
          (case r2 of
             Some secondError \<Rightarrow> lookup (cleanupSourceFile s c w) s = lookup w s
           | None \<Rightarrow>
               lookup w s \<noteq> None \<and>
               lookup w2 s = map_option (\<lambda>n. n\<lparr>mode := 438\<rparr>) (lookup w s) \<and>
               (case r3 of
                  None \<Rightarrow> lookup (cleanupSourceFile s c w) s = None
                | Some secondError \<Rightarrow>
                    lookup (cleanupSourceFile s c w) s =
                      map_option (\<lambda>n. n\<lparr>mode := 438\<rparr>) (lookup w s))))" for code
  proof -
    assume a: "cleanup_allowed s c w" and f: "fst (unlinkSync s w) = Some code"
      and k: "code = ''EPERM'' \<or> code = ''EACCES''"
    define w1 where "w1 = snd (unlinkSync s w)"
    define r2 where "r2 = fst (chmodSync s 438 w1)"
    define w2 where "w2 = snd (chmodSync s 438 w1)"
    define r3 where "r3 = fst (unlinkSync s w2)"
    have t1: "trace w1 = trace w @ [EvUnlink s (Some code)]"
      using unlinkSync_trace[of s w] f by (simp add: w1_def)
    have t2: "trace w2 = trace w1 @ [EvChmod s 438 r2]"
      using chmodSync_trace[of s 438 w1] by (simp add: w2_def r2_def)
    have u: "unlinkSync s w = (Some code, w1)"
      using f by (simp add: w1_def prod_eq_iff)
    have ch: "chmodSync s 438 w1 = (r2, w2)"
      by (simp add: w2_def r2_def)
    have res: "cleanupSourceFile s c w = (if r2 = None then snd (unlinkSync s w2) else w2)"
      using k by (auto simp add: cleanupSourceFile_allowed[OF a] u ch split: option.splits)
    have tr: "trace (cleanupSourceFile s c w) =
            trace w @ [EvUnlink s (Some code), EvChmod s 438 r2]
            @ (if r2 = None then [EvUnlink s r3] else [])"
      by (simp add: res t1 t2 unlinkSync_trace r3_def)
    have l1: "lookup w1 s = lookup w s"
      using unlinkSync_failed_keeps[OF f] by (simp add: w1_def)
    have st: "(case r2 of
             Some secondError \<Rightarrow> lookup (cleanupSourceFile s c w) s = lookup w s
           | None \<Rightarrow>
               lookup w s \<noteq> None \<and>
               lookup w2 s = map_option (\<lambda>n. n\<lparr>mode := 438\<rparr>) (lookup w s) \<and>
               (case r3 of
                  None \<Rightarrow> lookup (cleanupSourceFile s c w) s = None
                | Some secondError \<Rightarrow>
                    lookup (cleanupSourceFile s c w) s =
                      map_option (\<lambda>n. n\<lparr>mode := 438\<rparr>) (lookup w s)))"
    proof (cases r2)
      case (Some e2)
      then have "fst (chmodSync s 438 w1) = Some e2"
        by (simp add: r2_def)
      from chmodSync_failed_keeps[OF this, of s] Some show ?thesis
        by (simp add: res w2_def l1)
    next
      case None
      then have "fst (chmodSync s 438 w1) = None"
        by (simp add: r2_def)
      from chmodSync_done[OF this]
      have m: "lookup w s \<noteq> None \<and> lookup w2 s = map_option (\<lambda>n. n\<lparr>mode := 438\<rparr>) (lookup w s)"
        by (simp add: w2_def l1)
      show ?thesis
      proof (cases r3)
        case n3: None
        then have "fst (unlinkSync s w2) = None"
          by (simp add: r3_def)
        from unlinkSync_done_removes[OF this] None n3 m show ?thesis
          by (simp add: res)
      next
        case (Some e3)
        then have "fst (unlinkSync s w2) = Some e3"
          by (simp add: r3_def)
        from unlinkSync_failed_keeps[OF this, of s] None Some m show ?thesis
          by (simp add: res)
      qed
    qed
    from conjI[OF tr st] show ?thesis
      unfolding Let_def r3_def w2_def r2_def w1_def .
  qed
  have other: "cleanup_allowed s c w \<Longrightarrow> fst (unlinkSync s w) = Some code \<Longrightarrow>
      \<not> (code = ''EPERM'' \<or> code = ''EACCES'') \<Longrightarrow>
      trace (cleanupSourceFile s c w) = trace w @ [EvUnlink s (Some code)] \<and>
      lookup (cleanupSourceFile s c w) s = lookup w s" for code
    using unlinkSync_failed_keeps[of s w code s] unlinkSync_trace[of s w]
    by (cases "unlinkSync s w") (auto simp: cleanupSourceFile_allowed)
  have ok: "cleanup_allowed s c w \<Longrightarrow> fst (unlinkSync s w) = None \<Longrightarrow>
      trace (cleanupSourceFile s c w) = trace w @ [EvUnlink s None] \<and>
      lookup (cleanupSourceFile s c w) s = None"
    using unlinkSync_done_removes[of s w] unlinkSync_trace[of s w]
    by (cases "unlinkSync s w") (auto simp: cleanupSourceFile_allowed)
  show ?thesis
  proof (cases "cleanup_allowed s c w")
    case False
    then show ?thesis by (simp add: cleanupSourceFile_refused)
  next
    case True
    show ?thesis
    proof (cases "fst (unlinkSync s w)")
      case None
      with True ok show ?thesis by simp
    next
      case (Some code)
      show ?thesis
      proof (cases "code = ''EPERM'' \<or> code = ''EACCES''")
        case yes: True
        from perm[OF True Some yes] True Some yes show ?thesis by simp
      next
        case no: False
        from other[OF True Some no] True Some no show ?thesis by simp
      qed
    qed
  qed
qed

theorem cleanupSourceFile_deletes_only_when_safe_witness:
  "cleanup_allowed ''/out/v.mp4'' ''/out/v.mov'' locked_source_world
   \<and> trace (cleanupSourceFile ''/out/v.mp4'' ''/out/v.mov'' locked_source_world) =
       [EvUnlink ''/out/v.mp4'' (Some ''EPERM''), EvChmod ''/out/v.mp4'' 438 None,
        EvUnlink ''/out/v.mp4'' None]
   \<and> map_option mode (lookup locked_source_world ''/out/v.mp4'') = Some 420
   \<and> map_option mode
       (lookup (snd (chmodSync ''/out/v.mp4'' 438 (snd (unlinkSync ''/out/v.mp4'' locked_source_world))))
          ''/out/v.mp4'') = Some 438
   \<and> lookup (cleanupSourceFile ''/out/v.mp4'' ''/out/v.mov'' locked_source_world) ''/out/v.mp4'' = None
   \<and> cleanup_allowed ''/out/v.mp4'' ''/out/v.mov'' stuck_source_world
   \<and> trace (cleanupSourceFile ''/out/v.mp4'' ''/out/v.mov'' stuck_source_world) =
       [EvUnlink ''/out/v.mp4'' (Some ''EACCES''), EvChmod ''/out/v.mp4'' 438 None,
        EvUnlink ''/out/v.mp4'' (Some ''EACCES'')]
   \<and> lookup (cleanupSourceFile ''/out/v.mp4'' ''/out/v.mov'' stuck_source_world) ''/out/v.mp4'' =
       Some ((fileNode ''01234567890123456789'' 1)\<lparr>mode := 438\<rparr>)
   \<and> cleanup_allowed ''/out/v.mp4'' ''/out/v.mov'' readonly_source_world
   \<and> trace (cleanupSourceFile ''/out/v.mp4'' ''/out/v.mov'' readonly_source_world) =
       [EvUnlink ''/out/v.mp4'' (Some ''EPERM''), EvChmod ''/out/v.mp4'' 438 (Some ''EPERM'')]
   \<and> lookup (cleanupSourceFile ''/out/v.mp4'' ''/out/v.mov'' readonly_source_world) ''/out/v.mp4'' =
       lookup readonly_source_world ''/out/v.mp4''
   \<and> \<not> cleanup_allowed ''/out/v.mp4'' ''/out/v.mov'' truncated_world
   \<and> cleanupSourceFile ''/out/v.mp4'' ''/out/v.mov'' truncated_world = truncated_world
   \<and> cleanup_allowed ''/out/v.mp4'' ''/out/v.mov'' busy_source_world
   \<and> lookup (cleanupSourceFile ''/out/v.mp4'' ''/out/v.mov'' busy_source_world) ''/out/v.mp4'' =
       lookup busy_source_world ''/out/v.mp4''"
proof -
  let ?s = "''/out/v.mp4''"
  let ?c = "''/out/v.mov''"
  note t = cleanupSourceFile_deletes_only_when_safe[of ?s ?c]
  have h1: "cleanup_allowed ?s ?c locked_source_world"
    by code_simp
  have u1: "fst (unlinkSync ?s locked_source_world) = Some ''EPERM''"
    by code_simp
  have c1: "fst (chmodSync ?s 438 (snd (unlinkSync ?s locked_source_world))) = None"
    by code_simp
  have d1: "fst (unlinkSync ?s (snd (chmodSync ?s 438 (snd (unlinkSync ?s locked_source_world))))) = None"
    by code_simp
  have t1: "trace locked_source_world = []"
    by code_simp
  have m1: "lookup locked_source_world ?s = Some (fileNode ''01234567890123456789'' 1)"
    by code_simp
  have m0: "mode (fileNode ''01234567890123456789'' 1) = 420"
    by code_simp
  note k1 = t[of locked_source_world, THEN conjunct2, THEN mp, OF h1]
  from k1 u1 c1 d1 t1
  have r1: "trace (cleanupSourceFile ?s ?c locked_source_world) =
       [EvUnlink ?s (Some ''EPERM''), EvChmod ?s 438 None, EvUnlink ?s None]"
    by (simp add: Let_def)
  from m1 m0 have r1a: "map_option mode (lookup locked_source_world ?s) = Some 420"
    by simp
  from k1 u1 c1 d1 m1
  have r1b: "map_option mode
       (lookup (snd (chmodSync ?s 438 (snd (unlinkSync ?s locked_source_world)))) ?s) = Some 438"
    by (simp add: Let_def)
  from k1 u1 c1 d1
  have r1c: "lookup (cleanupSourceFile ?s ?c locked_source_world) ?s = None"
    by (simp add: Let_def)
  have h4: "cleanup_allowed ?s ?c stuck_source_world"
    by code_simp
  have u4: "fst (unlinkSync ?s stuck_source_world) = Some ''EACCES''"
    by code_simp
  have c4: "fst (chmodSync ?s 438 (snd (unlinkSync ?s stuck_source_world))) = None"
    by code_simp
  have d4: "fst (unlinkSync ?s (snd (chmodSync ?s 438 (snd (unlinkSync ?s stuck_source_world))))) =
      Some ''EACCES''"
    by code_simp
  have t4: "trace stuck_source_world = []"
    by code_simp
  have m4: "lookup stuck_source_world ?s = Some (fileNode ''01234567890123456789'' 1)"
    by code_simp
  note k4 = t[of stuck_source_world, THEN conjunct2, THEN mp, OF h4]
  from k4 u4 c4 d4 t4
  have r4: "trace (cleanupSourceFile ?s ?c stuck_source_world) =
       [EvUnlink ?s (Some ''EACCES''), EvChmod ?s 438 None, EvUnlink ?s (Some ''EACCES'')]"
    by (simp add: Let_def)
  from k4 u4 c4 d4 m4
  have r4a: "lookup (cleanupSourceFile ?s ?c stuck_source_world) ?s =
       Some ((fileNode ''01234567890123456789'' 1)\<lparr>mode := 438\<rparr>)"
    by (simp add: Let_def)
  have h5: "cleanup_allowed ?s ?c readonly_source_world"
    by code_simp
  have u5: "fst (unlinkSync ?s readonly_source_world) = Some ''EPERM''"
    by code_simp
  have c5: "fst (chmodSync ?s 438 (snd (unlinkSync ?s readonly_source_world))) = Some ''EPERM''"
    by code_simp
  have t5: "trace readonly_source_world = []"
    by code_simp
  note k5 = t[of readonly_source_world, THEN conjunct2, THEN mp, OF h5]
  from k5 u5 c5 t5
  have r5: "trace (cleanupSourceFile ?s ?c readonly_source_world) =
       [EvUnlink ?s (Some ''EPERM''), EvChmod ?s 438 (Some ''EPERM'')]"
    by (simp add: Let_def)
  from k5 u5 c5
  have r5a: "lookup (cleanupSourceFile ?s ?c readonly_source_world) ?s = lookup readonly_source_world ?s"
    by (simp add: Let_def)
  have h2: "\<not> cleanup_allowed ?s ?c truncated_world"
    by code_simp
  from t[of truncated_world] h2
  have r2: "cleanupSourceFile ?s ?c truncated_world = truncated_world"
    by blast
  have h3: "cleanup_allowed ?s ?c busy_source_world"
    by code_simp
  have u3: "fst (unlinkSync ?s busy_source_world) = Some ''EBUSY''"
    by code_simp
  from t[of busy_source_world] h3 u3
  have r3: "lookup (cleanupSourceFile ?s ?c busy_source_world) ?s = lookup busy_source_world ?s"
    by simp
  from h1 r1 r1a r1b r1c h4 r4 r4a h5 r5 r5a h2 r2 h3 r3 show ?thesis
    by (intro conjI)
qed

section \<open>Extending short videos\<close>

lemma lookup_emit [simp]: "lookup (emit e w) q = lookup w q"
  by (simp add: lookup_def emit_def)

lemma lookup_store_file_other: "q \<noteq> p \<Longrightarrow> lookup (store_file p bs m k w) q = lookup w q"
  by (simp add: lookup_def store_file_def AList.update_conv')

lemma lookup_put_file_other: "q \<noteq> p \<Longrightarrow> lookup (put_file p bs w) q = lookup w q"
  by (simp add: put_file_def lookup_store_file_other)

lemma lookup_take_fault [simp]: "lookup (snd (take_fault w)) q = lookup w q"
  by (simp add: lookup_def take_fault_def split: list.splits)

lemma chmodSync_other: "q \<noteq> p \<Longrightarrow> lookup (snd (chmodSync p m w)) q = lookup w q"
  by (auto simp: chmodSync_def take_fault_def lookup_def emit_def AList.update_conv'
      split: list.splits option.splits)

lemma unlinkSync_other: "q \<noteq> p \<Longrightarrow> lookup (snd (unlinkSync p w)) q = lookup w q"
  by (auto simp: unlinkSync_def take_fault_def lookup_def emit_def AList.delete_conv'
      split: list.splits option.splits)

lemma spawn_other: "out \<noteq> Some q \<Longrightarrow> lookup (snd (spawn cmd args out w)) q = lookup w q"
  by (auto simp: spawn_def next_proc_def proc_effect_def lookup_put_file_other
      split: list.splits option.splits pexit.splits prod.splits)
     (simp_all add: lookup_def)

lemma Utils_fixFilePermissions_other:
  "q \<noteq> p \<Longrightarrow> lookup (snd (Utils_fixFilePermissions p w)) q = lookup w q"
  by (cases "elevated w")
     (simp_all add: Utils_fixFilePermissions_plain Utils_fixFilePermissions_sudo Let_def
        chmodSync_other spawn_other)

lemma getVideoDuration_snd:
  "snd (getVideoDuration i w) =
     snd (spawn ''ffprobe'' [''-v'', ''quiet'', ''-print_format'', ''json'', ''-show_format'', i] None w)"
  by (simp add: getVideoDuration_def split: prod.splits pexit.splits option.splits)

lemma getVideoDuration_lookup [simp]:
  "lookup (snd (getVideoDuration i w)) q = lookup w q"
  by (simp add: getVideoDuration_snd spawn_other)

lemma getVideoDuration_runs [simp]:
  "ffmpeg_runs (trace (snd (getVideoDuration i w))) = ffmpeg_runs (trace w)"
  by (simp add: getVideoDuration_snd spawn_trace)





lemma cleanupSourceFile_steps:
  "cleanup_allowed s c w \<Longrightarrow>
   cleanupSourceFile s c w =
     (case fst (unlinkSync s w) of
        None \<Rightarrow> snd (unlinkSync s w)
      | Some code \<Rightarrow>
          if code = ''EPERM'' \<or> code = ''EACCES'' then
            (case fst (chmodSync s 438 (snd (unlinkSync s w))) of
               Some secondError \<Rightarrow> snd (chmodSync s 438 (snd (unlinkSync s w)))
             | None \<Rightarrow> snd (unlinkSync s (snd (chmodSync s 438 (snd (unlinkSync s w))))))
          else snd (unlinkSync s w))"
  by (simp add: cleanupSourceFile_allowed split: prod.splits option.splits)


lemma cleanupSourceFile_runs [simp]:
  "ffmpeg_runs (trace (cleanupSourceFile s c w)) = ffmpeg_runs (trace w)"
  by (cases "cleanup_allowed s c w")
     (simp_all add: cleanupSourceFile_refused cleanupSourceFile_steps unlinkSync_trace
        chmodSync_trace split: option.splits)

lemma convertWithHEVC_runs:
  "\<exists>rs. ffmpeg_runs (trace (snd (convertWithHEVC i out u w))) = ffmpeg_runs (trace w) @ rs \<and>
        set rs \<subseteq> {hevcArgs i out False, hevcArgs i out True}"
proof (cases u)
  case True
  then show ?thesis by (simp add: convertWithHEVC_software_runs)
next
  case False
  then show ?thesis
    by (simp add: convertWithHEVC_hardware Let_def convertWithHEVC_software_runs spawn_trace
        split: pexit.splits)
qed

lemma hevcArgs_not_extender: "take 2 (hevcArgs i out u) \<noteq> [''-stream_loop'', ''-1'']"
  by (simp add: hevcArgs_def)

lemma extender_runs_append [simp]:
  "extender_runs (xs @ ys) = extender_runs xs @ extender_runs ys"
  by (simp add: extender_runs_def)

lemma convertWithHEVC_extender_runs [simp]:
  "extender_runs (trace (snd (convertWithHEVC i out u w))) = extender_runs (trace w)"
proof -
  obtain rs where rs: "ffmpeg_runs (trace (snd (convertWithHEVC i out u w))) = ffmpeg_runs (trace w) @ rs"
    and sub: "set rs \<subseteq> {hevcArgs i out False, hevcArgs i out True}"
    using convertWithHEVC_runs by blast
  have "filter (\<lambda>args. take 2 args = [''-stream_loop'', ''-1'']) rs = []"
    using sub hevcArgs_not_extender by (auto simp: filter_empty_conv)
  then show ?thesis
    by (simp add: extender_runs_def rs)
qed















section \<open>The wallpaper manager: what each step leaves alone\<close>

lemma grows_refl [simp]: "grows K w w"
  by (simp add: grows_def)

lemma grows_trans: "grows K w w1 \<Longrightarrow> grows K w1 w2 \<Longrightarrow> grows K w w2"
  by (auto simp: grows_def)

lemma grows_mono: "grows K w w' \<Longrightarrow> (\<And>e. K e \<Longrightarrow> L e) \<Longrightarrow> grows L w w'"
  by (auto simp: grows_def list_all_iff)

lemma grows_new: "grows K w w' \<Longrightarrow> trace w' = trace w @ new_events w w' \<and> list_all K (new_events w w')"
  by (auto simp: grows_def new_events_def)

lemma grows_emit: "K e \<Longrightarrow> grows K w (emit e w)"
  by (simp add: grows_def)

lemma grows_trace_eq: "trace w' = trace w \<Longrightarrow> grows K w w'"
  by (simp add: grows_def)

lemma grows_step: "trace w' = trace w @ [e] \<Longrightarrow> K e \<Longrightarrow> grows K w w'"
  by (simp add: grows_def)

lemma new_events_trans:
  "grows K w w1 \<Longrightarrow> grows L w1 w2 \<Longrightarrow> new_events w w2 = new_events w w1 @ new_events w1 w2"
  by (auto simp: grows_def new_events_def)

lemma trace_make_dir [simp]: "trace (make_dir q w) = trace w"
  by (simp add: make_dir_def)

lemma trace_fold_make_dir [simp]: "trace (fold make_dir qs w) = trace w"
  by (induction qs arbitrary: w) simp_all

lemma mkdirSync_trace:
  "trace (snd (mkdirSync p w)) = trace w @ [EvMkdir p (fst (mkdirSync p w))]"
  by (simp add: mkdirSync_def take_fault_def Let_def split: list.splits option.splits)

lemma writeFileSync_trace:
  "trace (snd (writeFileSync p bs w)) = trace w @ [EvWrite p (fst (writeFileSync p bs w))]"
  by (simp add: writeFileSync_def take_fault_def split: list.splits option.splits)

lemma copyFileSync_trace:
  "trace (snd (copyFileSync src dst w)) = trace w @ [EvCopy src dst (fst (copyFileSync src dst w))]"
  by (simp add: copyFileSync_def take_fault_def split: list.splits option.splits)

lemma exec_trace: "trace (snd (exec c t w)) = trace w @ [Ran c]"
  by (simp add: exec_def next_proc_def touch_found_def
      split: list.splits pexit.splits option.splits)

lemma exec_fs [simp]: "fs (snd (exec c None w)) = fs w"
  by (simp add: exec_def next_proc_def emit_def split: list.splits pexit.splits)

lemma lookup_fs_cong: "fs w = fs w' \<Longrightarrow> lookup w p = lookup w' p"
  by (simp add: lookup_def)

lemma map_of_touch:
  "map_of (map (\<lambda>(q, n). if P q then (q, f n) else (q, n)) xs) q =
     map_option (\<lambda>n. if P q then f n else n) (map_of xs q)"
  by (induction xs) auto

lemma timeless_touch [simp]: "timeless (n\<lparr>mtime := t\<rparr>) = timeless n"
  by (simp add: timeless_def)

lemma touch_found_timeless:
  "map_option timeless (lookup (touch_found dir p w) q) = map_option timeless (lookup w q)"
  by (cases "map_of (fs w) q") (simp_all add: touch_found_def lookup_def map_of_touch)

lemma exec_timeless:
  "map_option timeless (lookup (snd (exec c t w)) q) = map_option timeless (lookup w q)"
proof -
  obtain p w1 where n: "next_proc w = (p, w1)"
    by (cases "next_proc w")
  then have "lookup w1 q = lookup w q"
    by (auto simp: lookup_def next_proc_def split: list.splits)
  then show ?thesis
    by (simp add: exec_def n touch_found_timeless split: pexit.splits option.splits)
qed

lemma timeless_eq_Some:
  assumes "map_option timeless x = map_option timeless (Some d)"
  shows "\<exists>d'. x = Some d' \<and> isDir d' = isDir d \<and> bytes d' = bytes d \<and> mode d' = mode d \<and>
          birthtime d' = birthtime d"
proof (cases x)
  case None
  with assms show ?thesis by simp
next
  case (Some a)
  with assms have e: "timeless a = timeless d"
    by simp
  from arg_cong[OF e, of isDir] arg_cong[OF e, of bytes] arg_cong[OF e, of mode]
    arg_cong[OF e, of birthtime] Some
  show ?thesis
    by (simp add: timeless_def)
qed

lemma lookup_make_dir_other: "q \<noteq> p \<Longrightarrow> lookup (make_dir p w) q = lookup w q"
  by (simp add: lookup_def make_dir_def AList.update_conv')

lemma lookup_fold_make_dir_other:
  "q \<notin> set ps \<Longrightarrow> lookup (fold make_dir ps w) q = lookup w q"
  by (induction ps arbitrary: w) (simp_all add: lookup_make_dir_other)

text \<open>What \<open>mkdirSync\<close> can change: the path itself and the missing directories above it.\<close>

lemma mkdirSync_steps:
  "mkdirSync p w =
     (case fst (take_fault w) of
        Some c \<Rightarrow> (Some c, emit (EvMkdir p (Some c)) (snd (take_fault w)))
      | None \<Rightarrow>
          (case lookup w p of
             Some n \<Rightarrow>
               if isDir n then (None, emit (EvMkdir p None) (snd (take_fault w)))
               else (Some ''EEXIST'', emit (EvMkdir p (Some ''EEXIST'')) (snd (take_fault w)))
           | None \<Rightarrow>
               (case (case dropWhile (\<lambda>q. lookup w q = None) (ancestors p) of
                        [] \<Rightarrow> None | q # qs \<Rightarrow> lookup w q) of
                  Some n \<Rightarrow>
                    if isDir n
                    then (None, emit (EvMkdir p None)
                            (fold make_dir (rev (takeWhile (\<lambda>q. lookup w q = None) (ancestors p)) @ [p])
                               (snd (take_fault w))))
                    else (Some ''ENOTDIR'', emit (EvMkdir p (Some ''ENOTDIR'')) (snd (take_fault w)))
                | None \<Rightarrow>
                    (None, emit (EvMkdir p None)
                       (fold make_dir (rev (takeWhile (\<lambda>q. lookup w q = None) (ancestors p)) @ [p])
                          (snd (take_fault w)))))))"
proof -
  obtain f w1 where t: "take_fault w = (f, w1)"
    by (cases "take_fault w")
  have "lookup w1 q = lookup w q" for q
    using lookup_take_fault[of w q] t by simp
  then have l: "lookup w1 = lookup w"
    by (rule ext)
  show ?thesis
    unfolding mkdirSync_def t split_conv Let_def l fst_conv snd_conv
    by (cases f) simp_all
qed

lemma mkdirSync_frame:
  assumes "q \<noteq> p" and "q \<notin> set (takeWhile (\<lambda>a. lookup w a = None) (ancestors p))"
  shows "lookup (snd (mkdirSync p w)) q = lookup w q"
  using assms
  by (simp add: mkdirSync_steps lookup_fold_make_dir_other lookup_make_dir_other
      split: option.splits list.splits)

lemma mkdirSync_other:
  "q \<notin> set (p # ancestors p) \<Longrightarrow> lookup (snd (mkdirSync p w)) q = lookup w q"
  by (rule mkdirSync_frame) (auto dest: set_takeWhileD)

lemma mkdirSync_keeps:
  assumes "lookup w q \<noteq> None"
  shows "lookup (snd (mkdirSync p w)) q = lookup w q"
proof (cases "q = p")
  case True
  with assms show ?thesis
    by (auto simp: mkdirSync_steps split: option.splits)
next
  case False
  from assms have "q \<notin> set (takeWhile (\<lambda>a. lookup w a = None) (ancestors p))"
    by (auto dest: set_takeWhileD)
  with False show ?thesis
    by (rule mkdirSync_frame)
qed

lemma mkdirSync_below:
  assumes "ancestors p = a # as" and "lookup w a \<noteq> None" and "q \<noteq> p"
  shows "lookup (snd (mkdirSync p w)) q = lookup w q"
  using assms by (intro mkdirSync_frame) simp_all

lemma writeFileSync_other: "q \<noteq> p \<Longrightarrow> lookup (snd (writeFileSync p bs w)) q = lookup w q"
  by (auto simp: writeFileSync_def take_fault_def lookup_def emit_def put_file_def store_file_def
      AList.update_conv' split: list.splits option.splits)

lemma copyFileSync_other: "q \<noteq> dst \<Longrightarrow> lookup (snd (copyFileSync src dst w)) q = lookup w q"
  by (auto simp: copyFileSync_def take_fault_def lookup_def emit_def store_file_def
      AList.update_conv' split: list.splits option.splits)

lemma copyFileSync_failed_keeps:
  "fst (copyFileSync src dst w) = Some e \<Longrightarrow> lookup (snd (copyFileSync src dst w)) q = lookup w q"
  by (auto simp: copyFileSync_def take_fault_def lookup_def emit_def
      split: list.splits option.splits if_splits)

lemma copyFileSync_done:
  "fst (copyFileSync src dst w) = None \<Longrightarrow>
     \<exists>n d. lookup (snd (take_fault w)) src = Some n \<and> \<not> isDir n \<and>
           lookup (snd (copyFileSync src dst w)) dst = Some d \<and> \<not> isDir d \<and> bytes d = bytes n"
  by (auto simp: copyFileSync_def take_fault_def lookup_def emit_def store_file_def
      AList.update_conv' split: list.splits option.splits if_splits)


lemma grows_mkdirSync:
  "grows K w v \<Longrightarrow> (\<And>r. K (EvMkdir p r)) \<Longrightarrow> grows K w (snd (mkdirSync p v))"
  by (erule grows_trans) (simp add: grows_def mkdirSync_trace)

lemma grows_writeFileSync:
  "grows K w v \<Longrightarrow> (\<And>r. K (EvWrite p r)) \<Longrightarrow> grows K w (snd (writeFileSync p bs v))"
  by (erule grows_trans) (simp add: grows_def writeFileSync_trace)

lemma grows_unlinkSync:
  "grows K w v \<Longrightarrow> (\<And>r. K (EvUnlink p r)) \<Longrightarrow> grows K w (snd (unlinkSync p v))"
  by (erule grows_trans) (simp add: grows_def unlinkSync_trace)

lemma grows_chmodSync:
  "grows K w v \<Longrightarrow> (\<And>r. K (EvChmod p m r)) \<Longrightarrow> grows K w (snd (chmodSync p m v))"
  by (erule grows_trans) (simp add: grows_def chmodSync_trace)

lemma grows_copyFileSync:
  "grows K w v \<Longrightarrow> (\<And>r. K (EvCopy src dst r)) \<Longrightarrow> grows K w (snd (copyFileSync src dst v))"
  by (erule grows_trans) (simp add: grows_def copyFileSync_trace)

lemma grows_exec: "grows K w v \<Longrightarrow> K (Ran c) \<Longrightarrow> grows K w (snd (exec c t v))"
  by (erule grows_trans) (simp add: grows_def exec_trace)

lemma grows_spawn:
  "grows K w v \<Longrightarrow> K (Spawned cmd args) \<Longrightarrow> grows K w (snd (spawn cmd args out v))"
  by (erule grows_trans) (simp add: grows_def spawn_trace)

lemmas grows_intros =
  grows_mkdirSync grows_writeFileSync grows_unlinkSync grows_chmodSync grows_copyFileSync
  grows_exec grows_spawn

subsection \<open>checkCustomerDirectory\<close>

lemma checkCustomerDirectory_steps:
  "checkCustomerDirectory w =
     (if \<not> existsSync customerDir w then (False, w)
      else
        (let m = (if \<not> existsSync targetDir w then mkdirSync targetDir w else (None, w)) in
         if fst m \<noteq> None then (False, snd m)
         else
           (let wr = writeFileSync (path_join targetDir ''.test_write'') ''test'' (snd m) in
            if fst wr \<noteq> None then (False, snd wr)
            else
              (let u = unlinkSync (path_join targetDir ''.test_write'') (snd wr)
               in (fst u = None, snd u)))))"
  by (simp add: checkCustomerDirectory_def Let_def split: prod.splits option.splits)

lemma checkCustomerDirectory_grows:
  "(\<And>p r. K (EvMkdir p r)) \<Longrightarrow> (\<And>p r. K (EvWrite p r)) \<Longrightarrow> (\<And>p r. K (EvUnlink p r)) \<Longrightarrow>
   grows K w (snd (checkCustomerDirectory w))"
  by (simp add: checkCustomerDirectory_steps Let_def grows_intros)

lemma ancestors_targetDir:
  "ancestors targetDir =
     [customerDir, ''/Library/Application Support/com.apple.idleassetsd'',
      ''/Library/Application Support'', ''/Library'']"
  by code_simp

lemma checkCustomerDirectory_other:
  "q \<noteq> path_join targetDir ''.test_write'' \<Longrightarrow> q \<noteq> targetDir \<Longrightarrow>
   lookup (snd (checkCustomerDirectory w)) q = lookup w q"
  by (simp add: checkCustomerDirectory_steps Let_def mkdirSync_below[OF ancestors_targetDir]
      existsSync_def writeFileSync_other unlinkSync_other)

subsection \<open>getExistingWallpapers\<close>

lemma stat_files_member:
  "stat_files files w = Inr ws \<Longrightarrow> a \<in> set ws \<Longrightarrow>
     name a \<in> set files \<and> path a = path_join targetDir (name a) \<and> lookup w (path a) \<noteq> None"
proof (induction files arbitrary: ws)
  case Nil
  then show ?case by simp
next
  case (Cons f files)
  then show ?case
    by (auto simp: Let_def statSync_def split: sum.splits option.splits)
qed

lemma getExistingWallpapers_member:
  assumes "a \<in> set (getExistingWallpapers w)"
  shows "path a = path_join targetDir (name a) \<and> lookup w (path a) \<noteq> None \<and>
         (endsWith (name a) ''.mov'' \<or> endsWith (name a) ''.mp4'')"
proof -
  obtain entries where rd: "readdirSync targetDir w = Inr entries"
    using assms
    by (cases "readdirSync targetDir w") (auto simp: getExistingWallpapers_def split: if_splits)
  let ?files = "filter (\<lambda>f. endsWith f ''.mov'' \<or> endsWith f ''.mp4'') entries"
  obtain ws where st: "stat_files ?files w = Inr ws"
    using assms rd
    by (cases "stat_files ?files w") (auto simp: getExistingWallpapers_def split: if_splits)
  have a: "a \<in> set ws"
    using assms rd st by (auto simp: getExistingWallpapers_def split: if_splits)
  have "name a \<in> set ?files"
    using stat_files_member[OF st a] by simp
  then have ext: "endsWith (name a) ''.mov'' \<or> endsWith (name a) ''.mp4''"
    by simp
  from stat_files_member[OF st a] ext show ?thesis by blast
qed

lemma stat_files_fs:
  assumes "fs w = fs v"
  shows "stat_files files w = stat_files files v"
proof -
  have st: "statSync p w = statSync p v" for p
    by (simp add: statSync_def lookup_def assms)
  show ?thesis
    by (induction files) (simp_all add: Let_def st split: sum.splits)
qed

lemma getExistingWallpapers_fs:
  assumes "fs w = fs v"
  shows "getExistingWallpapers w = getExistingWallpapers v"
proof -
  have "existsSync targetDir w = existsSync targetDir v"
    by (simp add: existsSync_def lookup_def assms)
  moreover have "readdirSync targetDir w = readdirSync targetDir v"
    by (simp add: readdirSync_def lookup_def assms split: option.splits)
  ultimately show ?thesis
    by (simp add: getExistingWallpapers_def stat_files_fs[OF assms] split: sum.splits)
qed

subsection \<open>Prompts and shell commands\<close>

lemma openWallpaperSettings_snd:
  "snd (openWallpaperSettings w) =
     snd (exec (''osascript -e '' @ [CHR 0x27] @ settingsScript @ [CHR 0x27]) None w)"
  by (simp add: openWallpaperSettings_def split: prod.splits)

lemma openFinderAtWallpaperDir_snd:
  "snd (openFinderAtWallpaperDir w) =
     snd (exec (''open '' @ [CHR 0x22] @ targetDir @ [CHR 0x22]) None w)"
  by (simp add: openFinderAtWallpaperDir_def split: prod.splits)

lemma openWallpaperSettings_fs [simp]: "fs (snd (openWallpaperSettings w)) = fs w"
  by (simp add: openWallpaperSettings_snd)

lemma openFinderAtWallpaperDir_fs [simp]: "fs (snd (openFinderAtWallpaperDir w)) = fs w"
  by (simp add: openFinderAtWallpaperDir_snd)

lemma openWallpaperSettings_grows:
  "(\<And>c. K (Ran c)) \<Longrightarrow> grows K w (snd (openWallpaperSettings w))"
  by (simp add: openWallpaperSettings_snd grows_intros)

lemma openFinderAtWallpaperDir_grows:
  "(\<And>c. K (Ran c)) \<Longrightarrow> grows K w (snd (openFinderAtWallpaperDir w))"
  by (simp add: openFinderAtWallpaperDir_snd grows_intros)

lemma fs_emit [simp]: "fs (emit e w) = fs w"
  by (simp add: emit_def)

lemma promptUser_fs: "fs (snd (promptUser ws w)) = fs w"
proof (induction ws w rule: promptUser.induct)
  case (1 ws w)
  show ?case
    using "1.IH"
    by (subst promptUser.simps) (auto split: list.splits option.splits)
qed


lemma selection_outcome_Cons:
  "\<not> is_cancel ans \<Longrightarrow> selection_outcome ws qs r \<Longrightarrow> (r \<noteq> None \<longrightarrow> qs \<noteq> []) \<Longrightarrow>
   selection_outcome ws (ans # qs) r"
  by (auto simp: selection_outcome_def split: option.splits)

lemma selection_outcome_nonempty:
  "selection_outcome ws qs (Some r) \<Longrightarrow> qs \<noteq> []"
  by (auto simp: selection_outcome_def split: option.splits)

lemma promptUser_events:
  "\<exists>qs. trace (snd (promptUser ws w)) = trace w @ map (Asked (SelectPrompt (length ws))) qs \<and>
        selection_outcome ws qs (fst (promptUser ws w))"
proof (induction ws w rule: promptUser.induct)
  case (1 ws w)
  show ?case
  proof (cases "answers w")
    case Nil
    then have "promptUser ws w = (None, w)"
      by (subst promptUser.simps) simp
    then show ?thesis
      by (intro exI[of _ "[]"]) (simp add: selection_outcome_def)
  next
    case (Cons ans rest)
    let ?w1 = "emit (Asked (SelectPrompt (length ws)) ans) (w\<lparr>answers := rest\<rparr>)"
    show ?thesis
    proof (cases "is_cancel ans")
      case True
      with Cons have "promptUser ws w = (Some None, ?w1)"
        by (subst promptUser.simps) (simp add: is_cancel_def)
      then show ?thesis
        using True by (intro exI[of _ "[ans]"]) (simp add: selection_outcome_def)
    next
      case nc: False
      show ?thesis
      proof (cases "case parseInt ans of None \<Rightarrow> True | Some c \<Rightarrow> c < 1 \<or> c > int (length ws)")
        case True
        with Cons nc have eq: "promptUser ws w = promptUser ws ?w1"
          by (rule promptUser_invalid)
        have "\<exists>qs. trace (snd (promptUser ws ?w1)) =
                 trace ?w1 @ map (Asked (SelectPrompt (length ws))) qs \<and>
                 selection_outcome ws qs (fst (promptUser ws ?w1))"
          using "1.IH" Cons nc True unfolding is_cancel_def
          by (auto split: option.splits)
        then obtain qs where
          t: "trace (snd (promptUser ws ?w1)) = trace ?w1 @ map (Asked (SelectPrompt (length ws))) qs"
          and r: "selection_outcome ws qs (fst (promptUser ws ?w1))"
          by blast
        have ne: "fst (promptUser ws ?w1) \<noteq> None \<longrightarrow> qs \<noteq> []"
          using r selection_outcome_nonempty by (cases "fst (promptUser ws ?w1)") auto
        show ?thesis
          unfolding eq
          using t selection_outcome_Cons[OF nc r ne]
          by (intro exI[of _ "ans # qs"]) simp
      next
        case False
        then obtain c where c: "parseInt ans = Some c" "1 \<le> c" "c \<le> int (length ws)"
          by (auto split: option.splits)
        with Cons nc have "promptUser ws w = (Some (Some (ws ! nat (c - 1))), ?w1)"
          by (subst promptUser.simps) (simp add: is_cancel_def)
        then show ?thesis
          using nc c by (intro exI[of _ "[ans]"]) (simp add: selection_outcome_def)
      qed
    qed
  qed
qed

lemma selectWallpaperFromList_snd:
  "selectWallpaperFromList ws w = promptUser ws (snd (openFinderAtWallpaperDir w))"
  by (simp add: selectWallpaperFromList_def split: prod.splits)

lemma selectWallpaperFromList_fs [simp]: "fs (snd (selectWallpaperFromList ws w)) = fs w"
  by (simp add: selectWallpaperFromList_snd promptUser_fs)

lemma getUserConfirmation_fs [simp]: "fs (snd (getUserConfirmation a v w)) = fs w"
  by (simp add: getUserConfirmation_def split: sum.splits list.splits)

lemma getUserConfirmation_trace:
  "trace (snd (getUserConfirmation a v w)) =
     (case fst (getUserConfirmation a v w) of
        Some (Inr c) \<Rightarrow> trace w @ [Asked (ConfirmPrompt (name a)) (hd (answers w))]
      | _ \<Rightarrow> trace w)"
  by (simp add: getUserConfirmation_def split: sum.splits list.splits)

lemma getUserConfirmation_yes:
  "fst (getUserConfirmation a v w) = Some (Inr c) \<Longrightarrow> c = is_yes (hd (answers w))"
  by (auto simp: getUserConfirmation_def is_yes_def split: sum.splits list.splits)

subsection \<open>waitForWallpaperSetup\<close>

lemma foldl_put_file_trace [simp]:
  "trace (foldl (\<lambda>v (p, bs). put_file p bs v) w files) = trace w"
  by (induction files arbitrary: w) (auto simp: case_prod_beta)

lemma sleep_trace: "trace (sleep ms w) = trace w @ [Slept ms]"
  by (simp add: sleep_def Let_def emit_def split: list.splits)

lemma waitForWallpaperSetup_loop_grows:
  "(\<And>ms. K (Slept ms)) \<Longrightarrow> grows K w (snd (waitForWallpaperSetup_loop n w))"
proof (induction n w rule: waitForWallpaperSetup_loop.induct)
  case (1 attempts w)
  have step: "grows K w (sleep retryInterval w)"
    using "1.prems" by (simp add: grows_def sleep_trace)
  show ?case
    using "1.IH" "1.prems" step
    by (subst waitForWallpaperSetup_loop.simps) (auto simp: Let_def intro: grows_trans)
qed

lemma waitForWallpaperSetup_loop_member:
  "waitForWallpaperSetup_loop n w = (Inr a, w') \<Longrightarrow> a \<in> set (getExistingWallpapers w')"
proof (induction n w rule: waitForWallpaperSetup_loop.induct)
  case (1 attempts w)
  from "1.prems" show ?case
    by (subst (asm) waitForWallpaperSetup_loop.simps)
       (auto simp: Let_def split: if_splits dest: "1.IH")
qed

lemma waitForWallpaperSetup_loop_timeout:
  "(fst (waitForWallpaperSetup_loop n w) = Inl SeedTimeout \<longleftrightarrow>
      (\<forall>k < retryAttempts - n. getExistingWallpapers ((sleep retryInterval ^^ k) w) = [])) \<and>
   (fst (waitForWallpaperSetup_loop n w) = Inl SeedTimeout \<longrightarrow>
      snd (waitForWallpaperSetup_loop n w) = (sleep retryInterval ^^ (retryAttempts - n)) w) \<and>
   (\<forall>e. fst (waitForWallpaperSetup_loop n w) = Inl e \<longrightarrow> e = SeedTimeout)"
proof (induction n w rule: waitForWallpaperSetup_loop.induct)
  case (1 attempts w)
  show ?case
  proof (cases "attempts < retryAttempts")
    case False
    then show ?thesis
      by (subst (1 2 3 4) waitForWallpaperSetup_loop.simps) simp
  next
    case True
    then have suc: "retryAttempts - attempts = Suc (retryAttempts - Suc attempts)"
      by simp
    show ?thesis
    proof (cases "getExistingWallpapers w")
      case (Cons a ws)
      then have "waitForWallpaperSetup_loop attempts w = (Inr a, w)"
        using True by (subst waitForWallpaperSetup_loop.simps) (simp add: Let_def)
      moreover have "\<not> (\<forall>k < retryAttempts - attempts. getExistingWallpapers ((sleep retryInterval ^^ k) w) = [])"
        using Cons True by (auto intro: exI[of _ 0])
      ultimately show ?thesis by simp
    next
      case Nil
      then have eq: "waitForWallpaperSetup_loop attempts w =
          waitForWallpaperSetup_loop (Suc attempts) (sleep retryInterval w)"
        using True by (subst waitForWallpaperSetup_loop.simps) (simp add: Let_def)
      have all: "(\<forall>k < retryAttempts - attempts. getExistingWallpapers ((sleep retryInterval ^^ k) w) = []) \<longleftrightarrow>
          (\<forall>k < retryAttempts - Suc attempts.
              getExistingWallpapers ((sleep retryInterval ^^ k) (sleep retryInterval w)) = [])"
        unfolding suc using Nil
        by (auto simp: less_Suc_eq_0_disj funpow_swap1)
      have pow: "(sleep retryInterval ^^ (retryAttempts - attempts)) w =
          (sleep retryInterval ^^ (retryAttempts - Suc attempts)) (sleep retryInterval w)"
        unfolding suc by (simp add: funpow_swap1)
      from "1.IH"[OF True, of "getExistingWallpapers w"] Nil
      show ?thesis
        unfolding eq all pow by simp
    qed
  qed
qed


subsection \<open>createBackup and installWallpaper\<close>

lemma take_fault_fields [simp]:
  "cwd (snd (take_fault w)) = cwd w" "isoNow (snd (take_fault w)) = isoNow w"
  by (simp_all add: take_fault_def split: list.splits)

lemma make_dir_fields [simp]:
  "cwd (make_dir q w) = cwd w" "isoNow (make_dir q w) = isoNow w"
  by (simp_all add: make_dir_def)

lemma fold_make_dir_fields [simp]:
  "cwd (fold make_dir qs w) = cwd w" "isoNow (fold make_dir qs w) = isoNow w"
  by (induction qs arbitrary: w) (simp_all add: make_dir_def)

lemma emit_fields [simp]: "cwd (emit e w) = cwd w" "isoNow (emit e w) = isoNow w"
  by (simp_all add: emit_def)

lemma mkdirSync_fields [simp]:
  "cwd (snd (mkdirSync p w)) = cwd w" "isoNow (snd (mkdirSync p w)) = isoNow w"
  by (simp_all add: mkdirSync_steps split: option.splits)

lemma Utils_ensureDirectoryExists_fields [simp]:
  "cwd (snd (Utils_ensureDirectoryExists p w)) = cwd w"
  "isoNow (snd (Utils_ensureDirectoryExists p w)) = isoNow w"
  by (simp_all add: Utils_ensureDirectoryExists_def)

lemma createBackup_steps:
  "createBackup a w =
     (let d = Utils_ensureDirectoryExists (backupDir w) w in
      if fst d \<noteq> None then (None, snd d)
      else
        (let c = copyFileSync (path a) (backupPath a w) (snd d) in
         if fst c \<noteq> None then (None, snd c)
         else (Some (backupPath a w), snd (Utils_fixFilePermissions (backupPath a w) (snd c)))))"
proof -
  obtain r d where e: "Utils_ensureDirectoryExists (backupDir w) w = (r, d)"
    by (cases "Utils_ensureDirectoryExists (backupDir w) w")
  have f: "cwd d = cwd w" "isoNow d = isoNow w"
    using Utils_ensureDirectoryExists_fields[of "backupDir w" w] e by simp_all
  have bd: "backupDir d = backupDir w"
    by (simp add: backupDir_def f)
  show ?thesis
    by (auto simp: createBackup_def e Let_def backupPath_def bd f
        split: prod.splits option.splits)
qed

lemma Utils_fixFilePermissions_grows:
  "(\<And>c args. K (Spawned c args)) \<Longrightarrow> (\<And>p m r. K (EvChmod p m r)) \<Longrightarrow>
   grows K w v \<Longrightarrow> grows K w (snd (Utils_fixFilePermissions p v))"
  by (cases "elevated v")
     (simp_all add: Utils_fixFilePermissions_plain Utils_fixFilePermissions_sudo Let_def
        grows_intros)

lemma createBackup_grows:
  "(\<And>p r. K (EvMkdir p r)) \<Longrightarrow> (\<And>c args. K (Spawned c args)) \<Longrightarrow>
   (\<And>p m r. K (EvChmod p m r)) \<Longrightarrow> (\<And>r. K (EvCopy (path a) (backupPath a w) r)) \<Longrightarrow>
   grows K w (snd (createBackup a w))"
  by (simp add: createBackup_steps Let_def Utils_ensureDirectoryExists_def grows_intros
      Utils_fixFilePermissions_grows)

lemma createBackup_null:
  "fst (createBackup a w) = None \<longleftrightarrow>
     fst (Utils_ensureDirectoryExists (backupDir w) w) \<noteq> None \<or>
     fst (copyFileSync (path a) (backupPath a w)
            (snd (Utils_ensureDirectoryExists (backupDir w) w))) \<noteq> None"
  by (simp add: createBackup_steps Let_def)

lemma Utils_ensureDirectoryExists_other:
  "q \<notin> set (p # ancestors p) \<Longrightarrow>
   lookup (snd (Utils_ensureDirectoryExists p w)) q = lookup w q"
  by (simp add: Utils_ensureDirectoryExists_def mkdirSync_other)

lemma Utils_ensureDirectoryExists_keeps:
  "lookup w q \<noteq> None \<Longrightarrow> lookup (snd (Utils_ensureDirectoryExists p w)) q = lookup w q"
  by (simp add: Utils_ensureDirectoryExists_def mkdirSync_keeps)

lemma createBackup_other:
  "q \<notin> set (backupDir w # ancestors (backupDir w)) \<Longrightarrow> q \<noteq> backupPath a w \<Longrightarrow>
   lookup (snd (createBackup a w)) q = lookup w q"
  by (simp add: createBackup_steps Let_def Utils_ensureDirectoryExists_other
      copyFileSync_other Utils_fixFilePermissions_other del: set_simps)

lemma createBackup_keeps:
  "lookup w q \<noteq> None \<Longrightarrow> q \<noteq> backupPath a w \<Longrightarrow>
   lookup (snd (createBackup a w)) q = lookup w q"
  by (simp add: createBackup_steps Let_def Utils_ensureDirectoryExists_keeps
      copyFileSync_other Utils_fixFilePermissions_other)

lemma createBackup_null_other:
  "fst (createBackup a w) = None \<Longrightarrow> q \<notin> set (backupDir w # ancestors (backupDir w)) \<Longrightarrow>
   lookup (snd (createBackup a w)) q = lookup w q"
  by (auto simp: createBackup_steps Let_def Utils_ensureDirectoryExists_other
      copyFileSync_failed_keeps simp del: set_simps split: if_splits)

lemma createBackup_null_keeps:
  "fst (createBackup a w) = None \<Longrightarrow> lookup w q \<noteq> None \<Longrightarrow>
   lookup (snd (createBackup a w)) q = lookup w q"
  by (auto simp: createBackup_steps Let_def Utils_ensureDirectoryExists_keeps
      copyFileSync_failed_keeps split: if_splits)

lemma forceWallpaperRefresh_steps:
  "forceWallpaperRefresh w =
     (let r = exec (''osascript -e '' @ [CHR 0x27] @ refreshScript @ [CHR 0x27]) None w in
      if fst r then snd (exec touchCommand (Some targetDir) (snd r))
      else snd r)"
  by (simp add: forceWallpaperRefresh_def Let_def split: prod.splits)

lemma refreshWallpaperSystem_timeless:
  "map_option timeless (lookup (refreshWallpaperSystem w) q) = map_option timeless (lookup w q)"
  by (simp add: refreshWallpaperSystem_def forceWallpaperRefresh_steps restartWallpaperDaemon_def
      Let_def exec_timeless)

lemma refreshWallpaperSystem_grows:
  "(\<And>c. K (Ran c)) \<Longrightarrow> grows K w v \<Longrightarrow> grows K w (refreshWallpaperSystem v)"
  by (simp add: refreshWallpaperSystem_def forceWallpaperRefresh_steps restartWallpaperDaemon_def
      Let_def grows_intros)

lemma installWallpaper_steps:
  "installWallpaper v n w =
     (let c = copyFileSync v (path_join targetDir n) w in
      if fst c = None then (True, refreshWallpaperSystem (snd c)) else (False, snd c))"
proof (cases "fst (copyFileSync v (path_join targetDir n) w)")
  case None
  from copyFileSync_done[OF None]
  have "existsSync (path_join targetDir n) (snd (copyFileSync v (path_join targetDir n) w))"
    by (auto simp: existsSync_def)
  with None show ?thesis
    by (cases "copyFileSync v (path_join targetDir n) w")
       (auto simp: installWallpaper_def Let_def statSync_def existsSync_def split: option.splits)
next
  case (Some e)
  then show ?thesis
    by (cases "copyFileSync v (path_join targetDir n) w")
       (auto simp: installWallpaper_def Let_def)
qed

lemma installWallpaper_grows:
  "(\<And>c. K (Ran c)) \<Longrightarrow> (\<And>r. K (EvCopy v (path_join targetDir n) r)) \<Longrightarrow>
   grows K w (snd (installWallpaper v n w))"
  by (simp add: installWallpaper_steps Let_def grows_intros refreshWallpaperSystem_grows)

lemma installWallpaper_other:
  "q \<noteq> path_join targetDir n \<Longrightarrow>
   map_option timeless (lookup (snd (installWallpaper v n w)) q) = map_option timeless (lookup w q)"
  by (simp add: installWallpaper_steps Let_def copyFileSync_other refreshWallpaperSystem_timeless)

lemma installWallpaper_done:
  assumes "fst (installWallpaper v n w)"
  shows "\<exists>src d. lookup w v = Some src \<and> \<not> isDir src \<and>
           lookup (snd (installWallpaper v n w)) (path_join targetDir n) = Some d \<and>
           \<not> isDir d \<and> bytes d = bytes src"
proof -
  have ok: "fst (copyFileSync v (path_join targetDir n) w) = None"
    using assms by (simp add: installWallpaper_steps Let_def split: if_splits)
  from copyFileSync_done[OF ok] obtain src d where
    s: "lookup w v = Some src" "\<not> isDir src"
    and d: "lookup (snd (copyFileSync v (path_join targetDir n) w)) (path_join targetDir n) = Some d"
      "\<not> isDir d" "bytes d = bytes src"
    by auto
  have "map_option timeless (lookup (snd (installWallpaper v n w)) (path_join targetDir n)) =
        map_option timeless (Some d)"
    using ok d(1) by (simp add: installWallpaper_steps Let_def refreshWallpaperSystem_timeless)
  from timeless_eq_Some[OF this] s d show ?thesis
    by auto
qed

lemma installWallpaper_failed_keeps:
  "\<not> fst (installWallpaper v n w) \<Longrightarrow> lookup (snd (installWallpaper v n w)) q = lookup w q"
  by (auto simp: installWallpaper_steps Let_def copyFileSync_failed_keeps split: if_splits)

subsection \<open>The branches of setupWallpaper\<close>

lemma setupWallpaper_no_access:
  "\<not> fst (checkCustomerDirectory w) \<Longrightarrow>
   setupWallpaper v w = (Some False, snd (checkCustomerDirectory w))"
  by (cases "checkCustomerDirectory w") (simp add: setupWallpaper_def)

lemma setupWallpaper_empty:
  assumes "fst (checkCustomerDirectory w)"
    and "getExistingWallpapers (snd (checkCustomerDirectory w)) = []"
  shows "setupWallpaper v w =
     (case waitForWallpaperSetup (snd (openWallpaperSettings (snd (checkCustomerDirectory w)))) of
        (Inl e, w3) \<Rightarrow> (Some False, w3)
      | (Inr a, w3) \<Rightarrow> replace_step v a w3)"
  using assms
  by (cases "checkCustomerDirectory w")
     (auto simp: setupWallpaper_def isTargetDirectoryEmpty_def replace_step_def
        split: prod.splits sum.splits)

lemma setupWallpaper_one:
  assumes "fst (checkCustomerDirectory w)"
    and "getExistingWallpapers (snd (checkCustomerDirectory w)) = [a]"
  shows "setupWallpaper v w =
     (case getUserConfirmation a v (snd (checkCustomerDirectory w)) of
        (None, w2) \<Rightarrow> (None, w2)
      | (Some (Inl e), w2) \<Rightarrow> (Some False, w2)
      | (Some (Inr confirmed), w2) \<Rightarrow>
          if confirmed then replace_step v a w2 else (Some False, w2))"
  using assms
  by (cases "checkCustomerDirectory w")
     (auto simp: setupWallpaper_def isTargetDirectoryEmpty_def replace_step_def Let_def
        split: prod.splits sum.splits option.splits)

lemma setupWallpaper_many:
  assumes "fst (checkCustomerDirectory w)"
    and "length (getExistingWallpapers (snd (checkCustomerDirectory w))) \<ge> 2"
  shows "setupWallpaper v w =
     (case selectWallpaperFromList (getExistingWallpapers (snd (checkCustomerDirectory w)))
             (snd (checkCustomerDirectory w)) of
        (None, w2) \<Rightarrow> (None, w2)
      | (Some None, w2) \<Rightarrow> (Some False, w2)
      | (Some (Some selected), w2) \<Rightarrow>
          (case getUserConfirmation selected v w2 of
             (None, w3) \<Rightarrow> (None, w3)
           | (Some (Inl e), w3) \<Rightarrow> (Some False, w3)
           | (Some (Inr confirmed), w3) \<Rightarrow>
               if confirmed then replace_step v selected w3 else (Some False, w3)))"
  using assms
  by (cases "checkCustomerDirectory w")
     (auto simp: setupWallpaper_def isTargetDirectoryEmpty_def replace_step_def Let_def
        split: prod.splits sum.splits option.splits)


section \<open>Which prompt comes first\<close>

lemma replace_step_snd:
  "snd (replace_step v a w) = snd (installWallpaper v (name a) (snd (createBackup a w)))"
  by (simp add: replace_step_def split: prod.splits)

lemma replace_step_fst:
  "fst (replace_step v a w) = Some (fst (installWallpaper v (name a) (snd (createBackup a w))))"
  by (simp add: replace_step_def split: prod.splits)

lemma replace_step_grows:
  assumes "\<And>p r. K (EvMkdir p r)" "\<And>c args. K (Spawned c args)" "\<And>p m r. K (EvChmod p m r)"
    "\<And>c. K (Ran c)" "\<And>s d r. K (EvCopy s d r)"
  shows "grows K w (snd (replace_step v a w))"
  unfolding replace_step_snd
  by (rule grows_trans[OF createBackup_grows installWallpaper_grows]) (simp_all add: assms)

lemma getUserConfirmation_grows:
  "(\<And>ans. K (Asked (ConfirmPrompt (name a)) ans)) \<Longrightarrow>
   grows K w (snd (getUserConfirmation a v w))"
  by (simp add: grows_def getUserConfirmation_trace split: option.splits sum.splits)

lemma promptUser_grows:
  "(\<And>ans. K (Asked (SelectPrompt (length ws)) ans)) \<Longrightarrow> grows K w (snd (promptUser ws w))"
  using promptUser_events[of ws w] by (auto simp: grows_def list_all_iff)

lemma waitForWallpaperSetup_grows:
  "(\<And>ms. K (Slept ms)) \<Longrightarrow> grows K w (snd (waitForWallpaperSetup w))"
  by (simp add: waitForWallpaperSetup_def waitForWallpaperSetup_loop_grows)

lemma setupWallpaper_empty_grows:
  assumes acc: "fst (checkCustomerDirectory w)"
    and emp: "getExistingWallpapers (snd (checkCustomerDirectory w)) = []"
    and K: "\<And>e. \<not> is_question e \<Longrightarrow> K e"
  shows "grows K w (snd (setupWallpaper v w))"
proof -
  let ?w1 = "snd (checkCustomerDirectory w)"
  let ?w2 = "snd (openWallpaperSettings ?w1)"
  let ?w3 = "snd (waitForWallpaperSetup ?w2)"
  have g1: "grows K w ?w1"
    by (rule checkCustomerDirectory_grows) (simp_all add: K is_question_def)
  have g2: "grows K ?w1 ?w2"
    by (rule openWallpaperSettings_grows) (simp add: K is_question_def)
  have g3: "grows K ?w2 ?w3"
    by (rule waitForWallpaperSetup_grows) (simp add: K is_question_def)
  have g4: "grows K ?w3 (snd (replace_step v a ?w3))" for a
    by (rule replace_step_grows) (simp_all add: K is_question_def)
  have "snd (setupWallpaper v w) = ?w3 \<or> (\<exists>a. snd (setupWallpaper v w) = snd (replace_step v a ?w3))"
    by (cases "waitForWallpaperSetup ?w2")
       (auto simp: setupWallpaper_empty[OF acc emp] split: sum.splits)
  moreover have g123: "grows K w ?w3"
    by (rule grows_trans[OF grows_trans[OF g1 g2] g3])
  moreover have "grows K w (snd (replace_step v a ?w3))" for a
    by (rule grows_trans[OF g123 g4])
  ultimately show ?thesis
    by auto
qed

lemma setupWallpaper_one_grows:
  assumes acc: "fst (checkCustomerDirectory w)"
    and one: "getExistingWallpapers (snd (checkCustomerDirectory w)) = [a]"
    and K: "\<And>e. \<not> is_question e \<Longrightarrow> K e" "\<And>ans. K (Asked (ConfirmPrompt (name a)) ans)"
  shows "grows K w (snd (setupWallpaper v w))"
proof -
  let ?w1 = "snd (checkCustomerDirectory w)"
  let ?w2 = "snd (getUserConfirmation a v ?w1)"
  have g1: "grows K w ?w1"
    by (rule checkCustomerDirectory_grows) (simp_all add: K is_question_def)
  have g2: "grows K ?w1 ?w2"
    by (rule getUserConfirmation_grows) (simp add: K)
  have g3: "grows K ?w2 (snd (replace_step v a ?w2))"
    by (rule replace_step_grows) (simp_all add: K is_question_def)
  have "snd (setupWallpaper v w) = ?w2 \<or> snd (setupWallpaper v w) = snd (replace_step v a ?w2)"
    by (cases "getUserConfirmation a v ?w1")
       (auto simp: setupWallpaper_one[OF acc one] split: sum.splits option.splits)
  moreover have g12: "grows K w ?w2"
    by (rule grows_trans[OF g1 g2])
  moreover have "grows K w (snd (replace_step v a ?w2))"
    by (rule grows_trans[OF g12 g3])
  ultimately show ?thesis
    by auto
qed

lemma split_at_unique:
  assumes "xs @ c # ys = pre @ d # post" "\<forall>e\<in>set xs. \<not> P e" "\<forall>e\<in>set ys. \<not> P e" "P d"
  shows "pre = xs \<and> d = c \<and> post = ys"
  using assms
proof (induction xs arbitrary: pre)
  case Nil
  then show ?case by (cases pre) auto
next
  case (Cons x xs)
  then show ?case by (cases pre) auto
qed

lemma no_split_without:
  assumes "xs = pre @ d # post" "\<forall>e\<in>set xs. \<not> P e" "P d"
  shows False
  using assms by auto


lemma new_events_append: "trace w' = trace w @ evs \<Longrightarrow> new_events w w' = evs"
  by (simp add: new_events_def)

lemma grows_obtain:
  assumes "grows K w w'"
  obtains evs where "trace w' = trace w @ evs" "\<forall>e\<in>set evs. K e"
  using assms by (auto simp: grows_def list_all_iff)

lemma setupWallpaper_many_events:
  assumes acc: "fst (checkCustomerDirectory w)"
    and many: "length (getExistingWallpapers (snd (checkCustomerDirectory w))) \<ge> 2"
  shows "\<exists>E1 qs C E4.
           new_events w (snd (setupWallpaper v w)) =
             E1 @ map (Asked (SelectPrompt (length (getExistingWallpapers (snd (checkCustomerDirectory w)))))) qs
             @ C @ E4 \<and>
           (\<forall>e\<in>set E1. \<not> is_question e) \<and> (\<forall>e\<in>set E4. \<not> is_question e) \<and>
           (C = [] \<or>
            (\<exists>ans c. qs \<noteq> [] \<and> parseInt (last qs) = Some c \<and> 1 \<le> c \<and>
               c \<le> int (length (getExistingWallpapers (snd (checkCustomerDirectory w)))) \<and>
               C = [Asked (ConfirmPrompt
                      (name (getExistingWallpapers (snd (checkCustomerDirectory w)) ! nat (c - 1)))) ans]))"
proof -
  let ?w1 = "snd (checkCustomerDirectory w)"
  let ?ws = "getExistingWallpapers ?w1"
  let ?wf = "snd (openFinderAtWallpaperDir ?w1)"
  let ?K = "\<lambda>e. \<not> is_question e"
  let ?w' = "snd (setupWallpaper v w)"
  have "grows ?K w ?w1"
    by (rule checkCustomerDirectory_grows) (simp_all add: is_question_def)
  moreover have "grows ?K ?w1 ?wf"
    by (rule openFinderAtWallpaperDir_grows) (simp add: is_question_def)
  ultimately have "grows ?K w ?wf"
    by (rule grows_trans)
  then obtain E1 where E1: "trace ?wf = trace w @ E1" and q1: "\<forall>e\<in>set E1. \<not> is_question e"
    by (rule grows_obtain)
  obtain r w2 where sel: "promptUser ?ws ?wf = (r, w2)"
    by (cases "promptUser ?ws ?wf")
  from promptUser_events[of ?ws ?wf] sel obtain qs where
    t2: "trace w2 = trace ?wf @ map (Asked (SelectPrompt (length ?ws))) qs"
    and so: "selection_outcome ?ws qs r"
    by auto
  have sel': "selectWallpaperFromList ?ws ?w1 = (r, w2)"
    by (simp add: selectWallpaperFromList_snd sel)
  note eq = setupWallpaper_many[OF acc many, of v, unfolded sel']
  have done_here: "?w' = w2 \<Longrightarrow> ?thesis"
  proof -
    assume "?w' = w2"
    then have "new_events w ?w' = E1 @ map (Asked (SelectPrompt (length ?ws))) qs @ [] @ []"
      using t2 E1 by (simp add: new_events_def)
    with q1 show ?thesis
      by (intro exI[of _ E1] exI[of _ qs] exI[of _ "[]"]) simp
  qed
  show ?thesis
  proof (cases r)
    case None
    then show ?thesis using eq done_here by simp
  next
    case (Some ro)
    show ?thesis
    proof (cases ro)
      case None
      with Some show ?thesis using eq done_here by simp
    next
      case (Some a)
      with \<open>r = Some ro\<close> so obtain c where
        ne: "qs \<noteq> []" and c: "parseInt (last qs) = Some c" "1 \<le> c" "c \<le> int (length ?ws)"
        and a: "a = ?ws ! nat (c - 1)"
        by (auto simp: selection_outcome_def)
      obtain rc w3 where conf: "getUserConfirmation a v w2 = (rc, w3)"
        by (cases "getUserConfirmation a v w2")
      from eq Some \<open>r = Some ro\<close> conf
      have eq3: "setupWallpaper v w =
          (case rc of None \<Rightarrow> (None, w3)
           | Some (Inl e) \<Rightarrow> (Some False, w3)
           | Some (Inr confirmed) \<Rightarrow> if confirmed then replace_step v a w3 else (Some False, w3))"
        by (simp split: option.splits sum.splits)
      have t3: "trace w3 =
          (case rc of Some (Inr b) \<Rightarrow> trace w2 @ [Asked (ConfirmPrompt (name a)) (hd (answers w2))]
           | _ \<Rightarrow> trace w2)"
        using getUserConfirmation_trace[of a v w2] conf by simp
      have quiet_case: "?w' = w3 \<Longrightarrow> trace w3 = trace w2 \<Longrightarrow> ?thesis"
      proof -
        assume "?w' = w3" "trace w3 = trace w2"
        then have "?w' = w3" "trace ?w' = trace w2" by simp_all
        then have "new_events w ?w' = E1 @ map (Asked (SelectPrompt (length ?ws))) qs @ [] @ []"
          using t2 E1 by (simp add: new_events_def)
        with q1 show ?thesis
          by (intro exI[of _ E1] exI[of _ qs] exI[of _ "[]"]) simp
      qed
      show ?thesis
      proof (cases rc)
        case None
        then show ?thesis using eq3 t3 quiet_case by simp
      next
        case (Some rs)
        show ?thesis
        proof (cases rs)
          case (Inl e)
          with Some show ?thesis using eq3 t3 quiet_case by simp
        next
          case (Inr b)
          let ?C = "[Asked (ConfirmPrompt (name a)) (hd (answers w2))]"
          from Inr Some t3 have t3': "trace w3 = trace w2 @ ?C"
            by simp
          have "grows ?K w3 (snd (replace_step v a w3))"
            by (rule replace_step_grows) (simp_all add: is_question_def)
          then obtain E4 where E4: "trace (snd (replace_step v a w3)) = trace w3 @ E4"
            and q4: "\<forall>e\<in>set E4. \<not> is_question e"
            by (rule grows_obtain)
          have "\<exists>E. trace ?w' = trace w3 @ E \<and> (\<forall>e\<in>set E. \<not> is_question e)"
          proof (cases b)
            case True
            with Inr Some eq3 have "?w' = snd (replace_step v a w3)" by simp
            with E4 q4 show ?thesis by auto
          next
            case False
            with Inr Some eq3 have "?w' = w3" by simp
            then show ?thesis by (intro exI[of _ "[]"]) simp
          qed
          then obtain E where E: "trace ?w' = trace w3 @ E" and qE: "\<forall>e\<in>set E. \<not> is_question e"
            by blast
          have "new_events w ?w' = E1 @ map (Asked (SelectPrompt (length ?ws))) qs @ ?C @ E"
            using E t3' t2 E1 by (simp add: new_events_def)
          with q1 qE ne c a show ?thesis
            by (intro exI[of _ E1] exI[of _ qs] exI[of _ ?C] exI[of _ E]) auto
        qed
      qed
    qed
  qed
qed


lemma confirm_needs_selection:
  assumes acc: "fst (checkCustomerDirectory w)"
    and many: "length (getExistingWallpapers (snd (checkCustomerDirectory w))) \<ge> 2"
    and split: "new_events w (snd (setupWallpaper v w)) = pre @ Asked (ConfirmPrompt n) ans # post"
  shows "\<exists>sel c. Asked (SelectPrompt (length (getExistingWallpapers (snd (checkCustomerDirectory w))))) sel \<in> set pre \<and>
           parseInt sel = Some c \<and> 1 \<le> c \<and>
           c \<le> int (length (getExistingWallpapers (snd (checkCustomerDirectory w)))) \<and>
           n = name (getExistingWallpapers (snd (checkCustomerDirectory w)) ! nat (c - 1))"
proof -
  let ?ws = "getExistingWallpapers (snd (checkCustomerDirectory w))"
  let ?P = "\<lambda>e. \<exists>m a. e = Asked (ConfirmPrompt m) a"
  from setupWallpaper_many_events[OF acc many, of v] obtain E1 qs C E4 where
    ev: "new_events w (snd (setupWallpaper v w)) =
           E1 @ map (Asked (SelectPrompt (length ?ws))) qs @ C @ E4"
    and q1: "\<forall>e\<in>set E1. \<not> is_question e" and q4: "\<forall>e\<in>set E4. \<not> is_question e"
    and C: "C = [] \<or>
            (\<exists>ans c. qs \<noteq> [] \<and> parseInt (last qs) = Some c \<and> 1 \<le> c \<and>
               c \<le> int (length ?ws) \<and>
               C = [Asked (ConfirmPrompt (name (?ws ! nat (c - 1)))) ans])"
    by blast
  let ?xs = "E1 @ map (Asked (SelectPrompt (length ?ws))) qs"
  have nx: "\<forall>e\<in>set ?xs. \<not> ?P e"
    using q1 by (auto simp: is_question_def)
  have ny: "\<forall>e\<in>set E4. \<not> ?P e"
    using q4 by (auto simp: is_question_def)
  show ?thesis
  proof (cases "C = []")
    case True
    have "\<forall>e\<in>set (?xs @ E4). \<not> ?P e"
      using nx ny by auto
    moreover have "?xs @ E4 = pre @ Asked (ConfirmPrompt n) ans # post"
      using ev split True by simp
    ultimately have False
      by (metis in_set_conv_decomp)
    then show ?thesis ..
  next
    case False
    with C obtain a c where ne: "qs \<noteq> []" and c: "parseInt (last qs) = Some c" "1 \<le> c"
      "c \<le> int (length ?ws)" and Ceq: "C = [Asked (ConfirmPrompt (name (?ws ! nat (c - 1)))) a]"
      by blast
    have "?xs @ Asked (ConfirmPrompt (name (?ws ! nat (c - 1)))) a # E4 =
            pre @ Asked (ConfirmPrompt n) ans # post"
      using ev split Ceq by simp
    from split_at_unique[where P = ?P, OF this nx ny]
    have pre: "pre = ?xs" and same: "Asked (ConfirmPrompt n) ans = Asked (ConfirmPrompt (name (?ws ! nat (c - 1)))) a"
      by auto
    have "Asked (SelectPrompt (length ?ws)) (last qs) \<in> set pre"
      using ne by (simp add: pre)
    with c same show ?thesis
      by auto
  qed
qed

text \<open>
  Claim C7. The poll of \<open>waitForWallpaperSetup\<close> makes at most 30 scans with a sleep of
  1000 ms after each empty one; it ends with the timeout error exactly when all 30 scans
  find no wallpaper, and then it has slept 30 times. In \<open>setupWallpaper\<close>, once the
  directory is accessible: with no wallpaper the flow is that poll (after opening the
  settings), the timeout gives \<open>false\<close>, and no question is asked; with exactly one
  wallpaper the next step is the confirmation of that wallpaper and no selection
  question occurs; with two or more, every confirmation question is preceded by a
  selection answer that \<open>parseInt\<close> reads as a number \<open>c\<close> in \<open>1..length\<close>, and it is
  the wallpaper number \<open>c\<close> that is put to confirmation.
\<close>

theorem selection_branches_on_cardinality:
  "retryAttempts = 30 \<and> retryInterval = 1000
   \<and> (fst (waitForWallpaperSetup u) = Inl SeedTimeout \<longleftrightarrow>
        (\<forall>k < retryAttempts. getExistingWallpapers ((sleep retryInterval ^^ k) u) = []))
   \<and> (fst (waitForWallpaperSetup u) = Inl SeedTimeout \<longrightarrow>
        snd (waitForWallpaperSetup u) = (sleep retryInterval ^^ retryAttempts) u)
   \<and> (fst (checkCustomerDirectory w) \<and> getExistingWallpapers (snd (checkCustomerDirectory w)) = [] \<longrightarrow>
        setupWallpaper v w =
          (case waitForWallpaperSetup (snd (openWallpaperSettings (snd (checkCustomerDirectory w)))) of
             (Inl e, w3) \<Rightarrow> (Some False, w3)
           | (Inr a, w3) \<Rightarrow> replace_step v a w3) \<and>
        (\<forall>e \<in> set (new_events w (snd (setupWallpaper v w))). \<not> is_question e))
   \<and> (\<forall>a. fst (checkCustomerDirectory w) \<and> getExistingWallpapers (snd (checkCustomerDirectory w)) = [a] \<longrightarrow>
        setupWallpaper v w =
          (case getUserConfirmation a v (snd (checkCustomerDirectory w)) of
             (None, w2) \<Rightarrow> (None, w2)
           | (Some (Inl e), w2) \<Rightarrow> (Some False, w2)
           | (Some (Inr confirmed), w2) \<Rightarrow>
               if confirmed then replace_step v a w2 else (Some False, w2)) \<and>
        (\<forall>e \<in> set (new_events w (snd (setupWallpaper v w))).
            is_question e \<longrightarrow> (\<exists>ans. e = Asked (ConfirmPrompt (name a)) ans)))
   \<and> (fst (checkCustomerDirectory w) \<and>
       2 \<le> length (getExistingWallpapers (snd (checkCustomerDirectory w))) \<longrightarrow>
        (\<forall>pre n ans post.
            new_events w (snd (setupWallpaper v w)) = pre @ Asked (ConfirmPrompt n) ans # post \<longrightarrow>
            (\<exists>sel c.
               Asked (SelectPrompt (length (getExistingWallpapers (snd (checkCustomerDirectory w))))) sel
                 \<in> set pre \<and>
               parseInt sel = Some c \<and> 1 \<le> c \<and>
               c \<le> int (length (getExistingWallpapers (snd (checkCustomerDirectory w)))) \<and>
               n = name (getExistingWallpapers (snd (checkCustomerDirectory w)) ! nat (c - 1)))))"
proof -
  have A: "(fst (waitForWallpaperSetup u) = Inl SeedTimeout \<longleftrightarrow>
        (\<forall>k < retryAttempts. getExistingWallpapers ((sleep retryInterval ^^ k) u) = []))
   \<and> (fst (waitForWallpaperSetup u) = Inl SeedTimeout \<longrightarrow>
        snd (waitForWallpaperSetup u) = (sleep retryInterval ^^ retryAttempts) u)"
    using waitForWallpaperSetup_loop_timeout[of 0 u]
    by (simp add: waitForWallpaperSetup_def)
  have B: "\<forall>e \<in> set (new_events w (snd (setupWallpaper v w))). \<not> is_question e"
    if "fst (checkCustomerDirectory w)" "getExistingWallpapers (snd (checkCustomerDirectory w)) = []"
    using grows_new[OF setupWallpaper_empty_grows[OF that, of "\<lambda>e. \<not> is_question e" v]]
    by (simp add: list_all_iff)
  have C: "\<forall>e \<in> set (new_events w (snd (setupWallpaper v w))).
            is_question e \<longrightarrow> (\<exists>ans. e = Asked (ConfirmPrompt (name a)) ans)"
    if "fst (checkCustomerDirectory w)" "getExistingWallpapers (snd (checkCustomerDirectory w)) = [a]"
    for a
    using grows_new[OF setupWallpaper_one_grows[OF that,
          of "\<lambda>e. is_question e \<longrightarrow> (\<exists>ans. e = Asked (ConfirmPrompt (name a)) ans)" v]]
    by (simp add: list_all_iff)
  show ?thesis
    using A B C setupWallpaper_empty[of w v] setupWallpaper_one[of w _ v]
      confirm_needs_selection[of w v]
    by (simp add: retryAttempts_def retryInterval_def)
qed


lemma sleep_idle:
  "arrivals w = [] \<Longrightarrow> fs (sleep ms w) = fs w \<and> arrivals (sleep ms w) = []"
  by (simp add: sleep_def Let_def emit_def)

lemma sleep_idle_funpow:
  "arrivals w = [] \<Longrightarrow> fs ((sleep ms ^^ k) w) = fs w \<and> arrivals ((sleep ms ^^ k) w) = []"
  by (induction k) (simp_all add: sleep_idle)

theorem selection_branches_on_cardinality_witness:
  "fst (waitForWallpaperSetup empty_dir_world) = Inl SeedTimeout
   \<and> filter (\<lambda>k. getExistingWallpapers ((sleep retryInterval ^^ k) empty_dir_world) \<noteq> [])
       [0..<retryAttempts] = []
   \<and> (fst (checkCustomerDirectory empty_dir_world) \<and>
      getExistingWallpapers (snd (checkCustomerDirectory empty_dir_world)) = [])
   \<and> filter is_question
       (new_events empty_dir_world (snd (setupWallpaper ''/out/v.mov'' empty_dir_world))) = []
   \<and> (fst (checkCustomerDirectory one_wallpaper_world) \<and>
      getExistingWallpapers (snd (checkCustomerDirectory one_wallpaper_world)) =
        [hd (getExistingWallpapers one_wallpaper_world)])
   \<and> set (filter is_question
         (new_events one_wallpaper_world (snd (setupWallpaper ''/out/v.mov'' one_wallpaper_world))))
       \<subseteq> range (Asked (ConfirmPrompt ''a.mov''))
   \<and> (fst (checkCustomerDirectory three_wallpaper_world) \<and>
      2 \<le> length (getExistingWallpapers (snd (checkCustomerDirectory three_wallpaper_world))))
   \<and> new_events three_wallpaper_world (snd (setupWallpaper ''/out/v.mov'' three_wallpaper_world)) =
       take 4 (new_events three_wallpaper_world (snd (setupWallpaper ''/out/v.mov'' three_wallpaper_world)))
       @ Asked (ConfirmPrompt ''b.mov'') ''y''
       # drop 5 (new_events three_wallpaper_world (snd (setupWallpaper ''/out/v.mov'' three_wallpaper_world)))
   \<and> (\<exists>sel c. Asked (SelectPrompt 3) sel \<in>
         set (take 4 (new_events three_wallpaper_world (snd (setupWallpaper ''/out/v.mov'' three_wallpaper_world)))) \<and>
         parseInt sel = Some c \<and> 1 \<le> c \<and> c \<le> 3)"
proof -
  let ?v = "''/out/v.mov''"
  note t = selection_branches_on_cardinality
  have a0: "arrivals empty_dir_world = []"
    by code_simp
  have s0: "getExistingWallpapers empty_dir_world = []"
    by code_simp
  have r0: "\<forall>k < retryAttempts. getExistingWallpapers ((sleep retryInterval ^^ k) empty_dir_world) = []"
    using getExistingWallpapers_fs[of "(sleep retryInterval ^^ k) empty_dir_world" empty_dir_world for k]
      sleep_idle_funpow[OF a0] s0
    by simp
  from r0
  have r0': "filter (\<lambda>k. getExistingWallpapers ((sleep retryInterval ^^ k) empty_dir_world) \<noteq> [])
       [0..<retryAttempts] = []"
    by (simp add: filter_empty_conv)
  from t[of empty_dir_world] r0
  have h0: "fst (waitForWallpaperSetup empty_dir_world) = Inl SeedTimeout"
    by blast
  have h1: "fst (checkCustomerDirectory empty_dir_world) \<and>
      getExistingWallpapers (snd (checkCustomerDirectory empty_dir_world)) = []"
    by code_simp
  from t[of _ empty_dir_world ?v] h1
  have r1: "\<forall>e \<in> set (new_events empty_dir_world (snd (setupWallpaper ?v empty_dir_world))). \<not> is_question e"
    by blast
  from r1
  have r1': "filter is_question (new_events empty_dir_world (snd (setupWallpaper ?v empty_dir_world))) = []"
    by (simp add: filter_empty_conv)
  have h2: "fst (checkCustomerDirectory one_wallpaper_world) \<and>
      getExistingWallpapers (snd (checkCustomerDirectory one_wallpaper_world)) =
        [hd (getExistingWallpapers one_wallpaper_world)]"
    by code_simp
  have n2: "name (hd (getExistingWallpapers one_wallpaper_world)) = ''a.mov''"
    by code_simp
  from t[of _ one_wallpaper_world ?v] h2
  have "\<forall>e \<in> set (new_events one_wallpaper_world (snd (setupWallpaper ?v one_wallpaper_world))).
         is_question e \<longrightarrow>
         (\<exists>ans. e = Asked (ConfirmPrompt (name (hd (getExistingWallpapers one_wallpaper_world)))) ans)"
    by blast
  then have r2: "\<forall>e \<in> set (new_events one_wallpaper_world (snd (setupWallpaper ?v one_wallpaper_world))).
         is_question e \<longrightarrow> (\<exists>ans. e = Asked (ConfirmPrompt ''a.mov'') ans)"
    by (simp only: n2)
  then have r2': "set (filter is_question
         (new_events one_wallpaper_world (snd (setupWallpaper ?v one_wallpaper_world))))
       \<subseteq> range (Asked (ConfirmPrompt ''a.mov''))"
    by auto
  have h3: "fst (checkCustomerDirectory three_wallpaper_world) \<and>
      2 \<le> length (getExistingWallpapers (snd (checkCustomerDirectory three_wallpaper_world)))"
    by code_simp
  have l3: "length (getExistingWallpapers (snd (checkCustomerDirectory three_wallpaper_world))) = 3"
    by code_simp
  let ?evs = "new_events three_wallpaper_world (snd (setupWallpaper ?v three_wallpaper_world))"
  have d3: "?evs = take 4 ?evs @ Asked (ConfirmPrompt ''b.mov'') ''y'' # drop 5 ?evs"
    by code_simp
  from t[of _ three_wallpaper_world ?v] h3
  have "\<forall>pre n ans post. ?evs = pre @ Asked (ConfirmPrompt n) ans # post \<longrightarrow>
     (\<exists>sel c. Asked (SelectPrompt (length (getExistingWallpapers (snd (checkCustomerDirectory three_wallpaper_world))))) sel
                 \<in> set pre \<and>
               parseInt sel = Some c \<and> 1 \<le> c \<and>
               c \<le> int (length (getExistingWallpapers (snd (checkCustomerDirectory three_wallpaper_world)))) \<and>
               n = name (getExistingWallpapers (snd (checkCustomerDirectory three_wallpaper_world)) ! nat (c - 1)))"
    by blast
  from this[rule_format, OF d3]
  have r3: "\<exists>sel c. Asked (SelectPrompt 3) sel \<in> set (take 4 ?evs) \<and>
         parseInt sel = Some c \<and> 1 \<le> c \<and> c \<le> 3"
    by (auto simp: l3)
  from h0 r0' h1 r1' h2 r2' h3 d3 r3 show ?thesis
    by (elim conjE) (intro conjI; assumption)
qed


section \<open>Cancelling\<close>

lemma cancellation_is_question: "is_cancellation e \<Longrightarrow> is_question e"
  by (auto simp: is_cancellation_def is_question_def split: event.splits prompt.splits)

lemma setupWallpaper_one_confirm:
  assumes "fst (checkCustomerDirectory w)"
    and "getExistingWallpapers (snd (checkCustomerDirectory w)) = [a]"
  shows "setupWallpaper v w = confirm_step v a (snd (checkCustomerDirectory w))"
  by (simp add: setupWallpaper_one[OF assms] confirm_step_def)

lemma setupWallpaper_many_confirm:
  assumes "fst (checkCustomerDirectory w)"
    and "length (getExistingWallpapers (snd (checkCustomerDirectory w))) \<ge> 2"
  shows "setupWallpaper v w =
     (case selectWallpaperFromList (getExistingWallpapers (snd (checkCustomerDirectory w)))
             (snd (checkCustomerDirectory w)) of
        (None, w2) \<Rightarrow> (None, w2)
      | (Some None, w2) \<Rightarrow> (Some False, w2)
      | (Some (Some selected), w2) \<Rightarrow> confirm_step v selected w2)"
  by (simp add: setupWallpaper_many[OF assms] confirm_step_def split: prod.splits option.splits)

lemma confirm_step_cases:
  "(fst (getUserConfirmation a v w) = Some (Inr False) \<and>
    confirm_step v a w = (Some False, snd (getUserConfirmation a v w)))
   \<or> grows (\<lambda>e. \<not> is_cancellation e) w (snd (confirm_step v a w))"
proof -
  let ?K = "\<lambda>e. \<not> is_cancellation e"
  obtain rc w1 where g: "getUserConfirmation a v w = (rc, w1)"
    by (cases "getUserConfirmation a v w")
  have t: "trace w1 =
      (case rc of Some (Inr c) \<Rightarrow> trace w @ [Asked (ConfirmPrompt (name a)) (hd (answers w))]
       | _ \<Rightarrow> trace w)"
    using getUserConfirmation_trace[of a v w] g by simp
  show ?thesis
  proof (cases rc)
    case None
    then have "snd (confirm_step v a w) = w1" "trace w1 = trace w"
      using g t by (simp_all add: confirm_step_def)
    then show ?thesis by (simp add: grows_trace_eq)
  next
    case (Some rs)
    show ?thesis
    proof (cases rs)
      case (Inl e)
      with Some have "snd (confirm_step v a w) = w1" "trace w1 = trace w"
        using g t by (simp_all add: confirm_step_def)
      then show ?thesis by (simp add: grows_trace_eq)
    next
      case (Inr b)
      have b: "b = is_yes (hd (answers w))"
        using getUserConfirmation_yes[of a v w b] g Some Inr by simp
      show ?thesis
      proof (cases b)
        case False
        with Some Inr g show ?thesis
          by (simp add: confirm_step_def)
      next
        case True
        have t1: "trace w1 = trace w @ [Asked (ConfirmPrompt (name a)) (hd (answers w))]"
          using t Some Inr by simp
        have g1: "grows ?K w w1"
          using True b by (intro grows_step[OF t1]) (simp add: is_cancellation_def)
        have g2: "grows ?K w1 (snd (replace_step v a w1))"
          by (rule replace_step_grows) (simp_all add: is_cancellation_def)
        have "snd (confirm_step v a w) = snd (replace_step v a w1)"
          using True Some Inr g by (simp add: confirm_step_def)
        with grows_trans[OF g1 g2] show ?thesis by simp
      qed
    qed
  qed
qed

lemma promptUser_grows_uncancelled:
  assumes "fst (promptUser ws w) \<noteq> Some None"
  shows "grows (\<lambda>e. \<not> is_cancellation e) w (snd (promptUser ws w))"
proof -
  from promptUser_events[of ws w] obtain qs where
    t: "trace (snd (promptUser ws w)) = trace w @ map (Asked (SelectPrompt (length ws))) qs"
    and so: "selection_outcome ws qs (fst (promptUser ws w))"
    by blast
  have "\<forall>ans\<in>set qs. \<not> is_cancel ans"
    using so assms
    by (cases "fst (promptUser ws w)") (auto simp: selection_outcome_def split: option.splits)
  then have "list_all (\<lambda>e. \<not> is_cancellation e) (map (Asked (SelectPrompt (length ws))) qs)"
    by (simp add: list_all_iff is_cancellation_def)
  with t show ?thesis
    by (auto simp: grows_def)
qed

lemma cancel_path:
  assumes r: "setupWallpaper v w = (Some False, w2)"
    and nc: "grows (\<lambda>e. \<not> is_copy e) w w2"
    and same: "fs w2 = fs (snd (checkCustomerDirectory w))"
  shows "fst (setupWallpaper v w) = Some False \<and>
     (\<forall>e\<in>set (new_events w (snd (setupWallpaper v w))). \<not> is_copy e) \<and>
     (\<forall>p. p \<noteq> path_join targetDir ''.test_write'' \<longrightarrow> p \<noteq> targetDir \<longrightarrow>
          lookup (snd (setupWallpaper v w)) p = lookup w p)"
proof -
  have "\<forall>e\<in>set (new_events w w2). \<not> is_copy e"
    using grows_new[OF nc] by (simp add: list_all_iff)
  moreover have "lookup w2 p = lookup w p"
    if "p \<noteq> path_join targetDir ''.test_write''" "p \<noteq> targetDir" for p
    using checkCustomerDirectory_other[OF that, of w] lookup_fs_cong[OF same, of p] by simp
  ultimately show ?thesis
    by (simp add: r)
qed


lemma setupWallpaper_cancel_or_not:
  "(fst (setupWallpaper v w) = Some False \<and>
     (\<forall>e\<in>set (new_events w (snd (setupWallpaper v w))). \<not> is_copy e) \<and>
     (\<forall>p. p \<noteq> path_join targetDir ''.test_write'' \<longrightarrow> p \<noteq> targetDir \<longrightarrow>
          lookup (snd (setupWallpaper v w)) p = lookup w p))
   \<or> grows (\<lambda>e. \<not> is_cancellation e) w (snd (setupWallpaper v w))"
proof -
  let ?K = "\<lambda>e. \<not> is_cancellation e"
  let ?Q = "\<lambda>e. \<not> is_copy e"
  let ?w1 = "snd (checkCustomerDirectory w)"
  let ?ws = "getExistingWallpapers ?w1"
  have k1: "grows ?K w ?w1"
    by (rule checkCustomerDirectory_grows) (simp_all add: is_cancellation_def)
  have q1: "grows ?Q w ?w1"
    by (rule checkCustomerDirectory_grows) (simp_all add: is_copy_def)
  show ?thesis
  proof (cases "fst (checkCustomerDirectory w)")
    case False
    then show ?thesis
      using k1 by (simp add: setupWallpaper_no_access)
  next
    case acc: True
    consider (empty) "?ws = []" | (one) a where "?ws = [a]" | (many) "length ?ws \<ge> 2"
      by (cases ?ws; cases "tl ?ws") auto
    then show ?thesis
    proof cases
      case empty
      have "grows ?K w (snd (setupWallpaper v w))"
        by (rule setupWallpaper_empty_grows[OF acc empty]) (auto dest: cancellation_is_question)
      then show ?thesis ..
    next
      case one
      note eq = setupWallpaper_one_confirm[OF acc one, of v]
      from confirm_step_cases[of a v ?w1] show ?thesis
      proof
        assume d: "fst (getUserConfirmation a v ?w1) = Some (Inr False) \<and>
          confirm_step v a ?w1 = (Some False, snd (getUserConfirmation a v ?w1))"
        have q2: "grows ?Q ?w1 (snd (getUserConfirmation a v ?w1))"
          by (rule getUserConfirmation_grows) (simp add: is_copy_def)
        have "setupWallpaper v w = (Some False, snd (getUserConfirmation a v ?w1))"
          using d eq by simp
        from cancel_path[OF this grows_trans[OF q1 q2]] show ?thesis
          by simp
      next
        assume "grows ?K ?w1 (snd (confirm_step v a ?w1))"
        with k1 have "grows ?K w (snd (setupWallpaper v w))"
          unfolding eq by (rule grows_trans)
        then show ?thesis ..
      qed
    next
      case many
      let ?wf = "snd (openFinderAtWallpaperDir ?w1)"
      have kf: "grows ?K w ?wf"
        by (rule grows_trans[OF k1 openFinderAtWallpaperDir_grows]) (simp add: is_cancellation_def)
      have qf: "grows ?Q w ?wf"
        by (rule grows_trans[OF q1 openFinderAtWallpaperDir_grows]) (simp add: is_copy_def)
      obtain r w2 where sel: "selectWallpaperFromList ?ws ?w1 = (r, w2)"
        by (cases "selectWallpaperFromList ?ws ?w1")
      then have pu: "promptUser ?ws ?wf = (r, w2)"
        by (simp add: selectWallpaperFromList_snd)
      have "grows ?Q ?wf (snd (promptUser ?ws ?wf))"
        by (rule promptUser_grows) (simp add: is_copy_def)
      with qf pu have q2: "grows ?Q w w2"
        by (auto intro: grows_trans)
      have fs2: "fs w2 = fs ?w1"
        using selectWallpaperFromList_fs[of ?ws ?w1] sel by simp
      note eq = setupWallpaper_many_confirm[OF acc many, of v, unfolded sel]
      show ?thesis
      proof (cases "r = Some None")
        case True
        with eq have "setupWallpaper v w = (Some False, w2)" by simp
        from cancel_path[OF this q2 fs2] show ?thesis by simp
      next
        case False
        have "grows ?K ?wf (snd (promptUser ?ws ?wf))"
          by (rule promptUser_grows_uncancelled) (use pu False in simp)
        with kf pu have k2: "grows ?K w w2"
          by (auto intro: grows_trans)
        show ?thesis
        proof (cases r)
          case None
          with eq k2 show ?thesis by simp
        next
          case (Some ro)
          with False obtain a where a: "r = Some (Some a)"
            by (cases ro) auto
          with eq have eq2: "setupWallpaper v w = confirm_step v a w2" by simp
          from confirm_step_cases[of a v w2] show ?thesis
          proof
            assume d: "fst (getUserConfirmation a v w2) = Some (Inr False) \<and>
              confirm_step v a w2 = (Some False, snd (getUserConfirmation a v w2))"
            have q3: "grows ?Q w2 (snd (getUserConfirmation a v w2))"
              by (rule getUserConfirmation_grows) (simp add: is_copy_def)
            have "setupWallpaper v w = (Some False, snd (getUserConfirmation a v w2))"
              using d eq2 by simp
            from cancel_path[OF this grows_trans[OF q2 q3]] fs2 show ?thesis
              by simp
          next
            assume "grows ?K w2 (snd (confirm_step v a w2))"
            with k2 have "grows ?K w (snd (setupWallpaper v w))"
              unfolding eq2 by (rule grows_trans)
            then show ?thesis ..
          qed
        qed
      qed
    qed
  qed
qed

text \<open>
  Claim C6, the part that holds. When the user cancelled, at the selection prompt with the
  cancel token or at the confirmation prompt with anything but \<open>y\<close> or \<open>yes\<close>, the
  replacement flow returns \<open>false\<close>, it has made no copy at all (neither a backup nor an
  installation), and every path of the file system other than the write probe
  \<open>.test_write\<close> and the wallpaper directory itself is what it was before the flow began.
\<close>

theorem cancellation_changes_nothing:
  "(\<exists>e\<in>set (new_events w (snd (setupWallpaper v w))). is_cancellation e) \<longrightarrow>
     fst (setupWallpaper v w) = Some False \<and>
     (\<forall>e\<in>set (new_events w (snd (setupWallpaper v w))). \<not> is_copy e) \<and>
     (\<forall>p. p \<noteq> path_join targetDir ''.test_write'' \<longrightarrow> p \<noteq> targetDir \<longrightarrow>
          lookup (snd (setupWallpaper v w)) p = lookup w p)"
proof
  assume c: "\<exists>e\<in>set (new_events w (snd (setupWallpaper v w))). is_cancellation e"
  have "\<not> grows (\<lambda>e. \<not> is_cancellation e) w (snd (setupWallpaper v w))"
  proof
    assume "grows (\<lambda>e. \<not> is_cancellation e) w (snd (setupWallpaper v w))"
    from grows_new[OF this] c show False
      by (auto simp: list_all_iff)
  qed
  with setupWallpaper_cancel_or_not[of v w]
  show "fst (setupWallpaper v w) = Some False \<and>
     (\<forall>e\<in>set (new_events w (snd (setupWallpaper v w))). \<not> is_copy e) \<and>
     (\<forall>p. p \<noteq> path_join targetDir ''.test_write'' \<longrightarrow> p \<noteq> targetDir \<longrightarrow>
          lookup (snd (setupWallpaper v w)) p = lookup w p)"
    by blast
qed

theorem cancellation_changes_nothing_witness:
  "Asked (ConfirmPrompt ''a.mov'') ''n'' \<in>
     set (new_events one_wallpaper_world (snd (setupWallpaper ''/out/v.mov'' one_wallpaper_world))) \<and>
   is_cancellation (Asked (ConfirmPrompt ''a.mov'') ''n'') \<and>
   fst (setupWallpaper ''/out/v.mov'' one_wallpaper_world) = Some False \<and>
   filter is_copy (new_events one_wallpaper_world (snd (setupWallpaper ''/out/v.mov'' one_wallpaper_world))) = [] \<and>
   lookup (snd (setupWallpaper ''/out/v.mov'' one_wallpaper_world)) (path_join targetDir ''a.mov'') =
     lookup one_wallpaper_world (path_join targetDir ''a.mov'')"
proof -
  let ?v = "''/out/v.mov''"
  let ?w = one_wallpaper_world
  have m: "Asked (ConfirmPrompt ''a.mov'') ''n'' \<in> set (new_events ?w (snd (setupWallpaper ?v ?w)))"
    by code_simp
  have c: "is_cancellation (Asked (ConfirmPrompt ''a.mov'') ''n'')"
    by code_simp
  from m c have h: "\<exists>e\<in>set (new_events ?w (snd (setupWallpaper ?v ?w))). is_cancellation e"
    by blast
  have p1: "path_join targetDir ''a.mov'' \<noteq> path_join targetDir ''.test_write''"
    by code_simp
  have p2: "path_join targetDir ''a.mov'' \<noteq> targetDir"
    by code_simp
  note r = cancellation_changes_nothing[where w = ?w and v = ?v, THEN mp, OF h]
  from r have r1: "fst (setupWallpaper ?v ?w) = Some False"
    by (rule conjunct1)
  from r have "\<forall>e\<in>set (new_events ?w (snd (setupWallpaper ?v ?w))). \<not> is_copy e"
    by (elim conjE)
  then have r2: "filter is_copy (new_events ?w (snd (setupWallpaper ?v ?w))) = []"
    by (simp add: filter_empty_conv)
  from r have "\<forall>p. p \<noteq> path_join targetDir ''.test_write'' \<longrightarrow> p \<noteq> targetDir \<longrightarrow>
                 lookup (snd (setupWallpaper ?v ?w)) p = lookup ?w p"
    by (elim conjE)
  with p1 p2 have r3: "lookup (snd (setupWallpaper ?v ?w)) (path_join targetDir ''a.mov'') =
     lookup ?w (path_join targetDir ''a.mov'')"
    by blast
  from m c r1 r2 r3 show ?thesis
    by (intro conjI)
qed

text \<open>
  Claim C6, as stated, asks that the outcome of a cancellation be distinct from a failure
  outcome. \<open>setupWallpaper\<close> returns \<open>false\<close> in both cases: here the user declines in one
  run, and in the other the copy over the selected wallpaper is refused, and the two runs
  return the same value.
\<close>

theorem cancellation_reported_as_failure_counterexample:
  "Asked (ConfirmPrompt ''a.mov'') ''n'' \<in>
     set (new_events one_wallpaper_world (snd (setupWallpaper ''/out/v.mov'' one_wallpaper_world))) \<and>
   is_cancellation (Asked (ConfirmPrompt ''a.mov'') ''n'') \<and>
   fst (setupWallpaper ''/out/v.mov'' one_wallpaper_world) = Some False \<and>
   EvCopy ''/out/v.mov'' (path_join targetDir ''a.mov'') (Some ''EACCES'') \<in>
     set (new_events install_fails_world (snd (setupWallpaper ''/out/v.mov'' install_fails_world))) \<and>
   fst (setupWallpaper ''/out/v.mov'' install_fails_world) = Some False \<and>
   fst (setupWallpaper ''/out/v.mov'' install_fails_world) =
     fst (setupWallpaper ''/out/v.mov'' one_wallpaper_world)"
  by code_simp

section \<open>What a successful run replaces\<close>

lemma confirm_step_True:
  "confirm_step v a w = (Some True, w') \<Longrightarrow>
   fst (getUserConfirmation a v w) = Some (Inr True) \<and>
   replace_step v a (snd (getUserConfirmation a v w)) = (Some True, w')"
  by (cases "getUserConfirmation a v w")
     (auto simp: confirm_step_def split: option.splits sum.splits if_splits)

lemma replace_step_True:
  "replace_step v a wS = (Some True, w') \<Longrightarrow>
   installWallpaper v (name a) (snd (createBackup a wS)) = (True, w')"
  by (auto simp: replace_step_def split: prod.splits)

lemma consent_is_last:
  assumes "getUserConfirmation a v w = (Some (Inr True), wS)"
  shows "\<exists>ans. is_yes ans \<and> trace wS = trace w @ [Asked (ConfirmPrompt (name a)) ans]"
proof -
  from assms have f: "fst (getUserConfirmation a v w) = Some (Inr True)"
    and s: "snd (getUserConfirmation a v w) = wS"
    by simp_all
  from getUserConfirmation_yes[OF f] have "is_yes (hd (answers w))"
    by simp
  moreover from getUserConfirmation_trace[of a v w] f s
  have "trace wS = trace w @ [Asked (ConfirmPrompt (name a)) (hd (answers w))]"
    by simp
  ultimately show ?thesis
    by blast
qed

lemma selection_by_number:
  assumes "fst (selectWallpaperFromList ws w) = Some (Some a)"
  shows "\<exists>qs c. trace (snd (selectWallpaperFromList ws w)) =
                  trace (snd (openFinderAtWallpaperDir w)) @ map (Asked (SelectPrompt (length ws))) qs \<and>
                qs \<noteq> [] \<and> parseInt (last qs) = Some c \<and> 1 \<le> c \<and> c \<le> int (length ws) \<and>
                a = ws ! nat (c - 1)"
  using promptUser_events[of ws "snd (openFinderAtWallpaperDir w)"] assms
  by (auto simp: selectWallpaperFromList_snd selection_outcome_def)

lemma reach_replace:
  assumes ok: "setupWallpaper v w = (Some True, w')"
  shows "\<exists>a wS. arrives_at v w a wS \<and> a \<in> set (getExistingWallpapers wS) \<and>
                replace_step v a wS = (Some True, w')"
proof -
  let ?w1 = "snd (checkCustomerDirectory w)"
  let ?ws = "getExistingWallpapers ?w1"
  have acc: "fst (checkCustomerDirectory w)"
    using ok setupWallpaper_no_access[of w v] by (cases "fst (checkCustomerDirectory w)") auto
  consider (empty) "?ws = []" | (one) a where "?ws = [a]" | (many) "length ?ws \<ge> 2"
    by (cases ?ws; cases "tl ?ws") auto
  then show ?thesis
  proof cases
    case empty
    let ?w2 = "snd (openWallpaperSettings ?w1)"
    obtain r w3 where wt: "waitForWallpaperSetup ?w2 = (r, w3)"
      by (cases "waitForWallpaperSetup ?w2")
    from ok setupWallpaper_empty[OF acc empty, of v] wt obtain a where
      a: "r = Inr a" and rs: "replace_step v a w3 = (Some True, w')"
      by (cases r) auto
    have mem: "a \<in> set (getExistingWallpapers w3)"
      using wt a waitForWallpaperSetup_loop_member[of 0 ?w2 a w3]
      by (simp add: waitForWallpaperSetup_def)
    have "arrives_at v w a w3"
      using acc empty wt a by (simp add: arrives_at_def Let_def)
    with mem rs show ?thesis by blast
  next
    case one
    let ?w2 = "snd (getUserConfirmation a v ?w1)"
    from ok setupWallpaper_one_confirm[OF acc one, of v]
    have "confirm_step v a ?w1 = (Some True, w')" by simp
    from confirm_step_True[OF this]
    have yes: "fst (getUserConfirmation a v ?w1) = Some (Inr True)"
      and rs: "replace_step v a ?w2 = (Some True, w')"
      by simp_all
    have "getExistingWallpapers ?w2 = ?ws"
      by (rule getExistingWallpapers_fs) simp
    with one have mem: "a \<in> set (getExistingWallpapers ?w2)"
      by simp
    have "arrives_at v w a ?w2"
      using acc one yes by (simp add: arrives_at_def Let_def prod_eq_iff)
    with mem rs show ?thesis by blast
  next
    case many
    obtain r w2 where sel: "selectWallpaperFromList ?ws ?w1 = (r, w2)"
      by (cases "selectWallpaperFromList ?ws ?w1")
    from ok setupWallpaper_many_confirm[OF acc many, of v] sel obtain a where
      a: "r = Some (Some a)" and cs: "confirm_step v a w2 = (Some True, w')"
      by (cases r) (auto split: option.splits)
    have mem: "a \<in> set ?ws"
      using sel a promptUser_member[of ?ws _ a w2] by (simp add: selectWallpaperFromList_snd)
    let ?w3 = "snd (getUserConfirmation a v w2)"
    from confirm_step_True[OF cs]
    have yes: "fst (getUserConfirmation a v w2) = Some (Inr True)"
      and rs: "replace_step v a ?w3 = (Some True, w')"
      by simp_all
    have "fs w2 = fs ?w1"
      using selectWallpaperFromList_fs[of ?ws ?w1] sel by simp
    then have "getExistingWallpapers ?w3 = ?ws"
      by (intro getExistingWallpapers_fs) simp
    with mem have mem3: "a \<in> set (getExistingWallpapers ?w3)"
      by simp
    have "arrives_at v w a ?w3"
      using acc many sel a yes by (auto simp: arrives_at_def Let_def prod_eq_iff)
    with mem3 rs show ?thesis by blast
  qed
qed

lemma arrives_at_asked:
  assumes "arrives_at v w a wS"
  shows "(getExistingWallpapers (snd (checkCustomerDirectory w)) \<noteq> [] \<longrightarrow>
           (\<exists>ans. is_yes ans \<and> trace wS \<noteq> [] \<and>
                  last (trace wS) = Asked (ConfirmPrompt (name a)) ans))
       \<and> (2 \<le> length (getExistingWallpapers (snd (checkCustomerDirectory w))) \<longrightarrow>
           (\<exists>qs c. trace (snd (selectWallpaperFromList
                        (getExistingWallpapers (snd (checkCustomerDirectory w)))
                        (snd (checkCustomerDirectory w)))) =
                     trace (snd (openFinderAtWallpaperDir (snd (checkCustomerDirectory w)))) @
                     map (Asked (SelectPrompt
                        (length (getExistingWallpapers (snd (checkCustomerDirectory w)))))) qs \<and>
                   qs \<noteq> [] \<and> parseInt (last qs) = Some c \<and> 1 \<le> c \<and>
                   c \<le> int (length (getExistingWallpapers (snd (checkCustomerDirectory w)))) \<and>
                   a = getExistingWallpapers (snd (checkCustomerDirectory w)) ! nat (c - 1)))"
proof -
  let ?w1 = "snd (checkCustomerDirectory w)"
  let ?ws = "getExistingWallpapers ?w1"
  have c1: "?ws \<noteq> [] \<longrightarrow>
           (\<exists>ans. is_yes ans \<and> trace wS \<noteq> [] \<and> last (trace wS) = Asked (ConfirmPrompt (name a)) ans)"
  proof
    assume ne: "?ws \<noteq> []"
    from assms ne obtain wC where "getUserConfirmation a v wC = (Some (Inr True), wS)"
      by (auto simp: arrives_at_def Let_def split: if_splits)
    from consent_is_last[OF this] show
      "\<exists>ans. is_yes ans \<and> trace wS \<noteq> [] \<and> last (trace wS) = Asked (ConfirmPrompt (name a)) ans"
      by auto
  qed
  have c2: "2 \<le> length ?ws \<longrightarrow>
           (\<exists>qs c. trace (snd (selectWallpaperFromList ?ws ?w1)) =
                     trace (snd (openFinderAtWallpaperDir ?w1)) @
                     map (Asked (SelectPrompt (length ?ws))) qs \<and>
                   qs \<noteq> [] \<and> parseInt (last qs) = Some c \<and> 1 \<le> c \<and>
                   c \<le> int (length ?ws) \<and> a = ?ws ! nat (c - 1))"
  proof
    assume "2 \<le> length ?ws"
    with assms have "fst (selectWallpaperFromList ?ws ?w1) = Some (Some a)"
      by (auto simp: arrives_at_def Let_def split: if_splits)
    then show "\<exists>qs c. trace (snd (selectWallpaperFromList ?ws ?w1)) =
                     trace (snd (openFinderAtWallpaperDir ?w1)) @
                     map (Asked (SelectPrompt (length ?ws))) qs \<and>
                   qs \<noteq> [] \<and> parseInt (last qs) = Some c \<and> 1 \<le> c \<and>
                   c \<le> int (length ?ws) \<and> a = ?ws ! nat (c - 1)"
      by (rule selection_by_number)
  qed
  from c1 c2 show ?thesis
    by (rule conjI)
qed

lemma installWallpaper_copies_once:
  assumes "fst (installWallpaper v n w)"
  shows "filter is_copy (new_events w (snd (installWallpaper v n w))) =
           [EvCopy v (path_join targetDir n) None]"
proof -
  let ?c = "copyFileSync v (path_join targetDir n) w"
  have ok: "fst ?c = None"
    using assms by (simp add: installWallpaper_steps Let_def split: if_splits)
  have "grows (\<lambda>e. \<not> is_copy e) (snd ?c) (refreshWallpaperSystem (snd ?c))"
    by (rule refreshWallpaperSystem_grows) (simp_all add: is_copy_def)
  then obtain E where E: "trace (refreshWallpaperSystem (snd ?c)) = trace (snd ?c) @ E"
    and nc: "\<forall>e\<in>set E. \<not> is_copy e"
    by (rule grows_obtain)
  from nc have "filter is_copy E = []"
    by (simp add: filter_empty_conv)
  with E ok show ?thesis
    by (simp add: installWallpaper_steps Let_def new_events_def copyFileSync_trace is_copy_def)
qed

text \<open>
  Claim C2. Whenever the replacement flow returns \<open>true\<close>, it arrived at an asset \<open>a\<close>
  (the one the poll returned, the only one, or the one the user selected by its number),
  which is a file \<open>targetDir/name a\<close> of the wallpaper directory, and, unless the directory
  was empty, the last thing before the replacement was the user's consent to replacing
  \<open>name a\<close>. The run ended with \<open>installWallpaper\<close> for that name: the installer made one
  copy, of the converted video to \<open>targetDir/name a\<close>, after which that file holds the bytes
  of the video; every other path is, but for modification times that the refresh may have
  touched, what it was when the installer started: no file name appears or disappears.
\<close>

theorem install_keeps_the_selected_name:
  "setupWallpaper v w = (Some True, w') \<longrightarrow>
     (\<exists>a wS.
        arrives_at v w a wS \<and>
        (getExistingWallpapers (snd (checkCustomerDirectory w)) \<noteq> [] \<longrightarrow>
           (\<exists>ans. is_yes ans \<and> trace wS \<noteq> [] \<and>
                  last (trace wS) = Asked (ConfirmPrompt (name a)) ans)) \<and>
        (2 \<le> length (getExistingWallpapers (snd (checkCustomerDirectory w))) \<longrightarrow>
           (\<exists>qs c. trace (snd (selectWallpaperFromList
                        (getExistingWallpapers (snd (checkCustomerDirectory w)))
                        (snd (checkCustomerDirectory w)))) =
                     trace (snd (openFinderAtWallpaperDir (snd (checkCustomerDirectory w)))) @
                     map (Asked (SelectPrompt
                        (length (getExistingWallpapers (snd (checkCustomerDirectory w)))))) qs \<and>
                   qs \<noteq> [] \<and> parseInt (last qs) = Some c \<and> 1 \<le> c \<and>
                   c \<le> int (length (getExistingWallpapers (snd (checkCustomerDirectory w)))) \<and>
                   a = getExistingWallpapers (snd (checkCustomerDirectory w)) ! nat (c - 1))) \<and>
        a \<in> set (getExistingWallpapers wS) \<and>
        path a = path_join targetDir (name a) \<and> lookup wS (path a) \<noteq> None \<and>
        installWallpaper v (name a) (snd (createBackup a wS)) = (True, w') \<and>
        filter is_copy (new_events (snd (createBackup a wS)) w') =
          [EvCopy v (path_join targetDir (name a)) None] \<and>
        (\<exists>src d. lookup (snd (createBackup a wS)) v = Some src \<and>
                 lookup w' (path_join targetDir (name a)) = Some d \<and> bytes d = bytes src) \<and>
        (\<forall>q. q \<noteq> path_join targetDir (name a) \<longrightarrow>
             map_option timeless (lookup w' q) =
               map_option timeless (lookup (snd (createBackup a wS)) q)))"
proof
  assume "setupWallpaper v w = (Some True, w')"
  from reach_replace[OF this] obtain a wS where
    arr: "arrives_at v w a wS"
    and mem: "a \<in> set (getExistingWallpapers wS)" and rs: "replace_step v a wS = (Some True, w')"
    by blast
  let ?wB = "snd (createBackup a wS)"
  have inst: "installWallpaper v (name a) ?wB = (True, w')"
    using rs by (rule replace_step_True)
  then have f: "fst (installWallpaper v (name a) ?wB)" and s: "snd (installWallpaper v (name a) ?wB) = w'"
    by simp_all
  from installWallpaper_done[OF f] s
  have content: "\<exists>src d. lookup ?wB v = Some src \<and>
                 lookup w' (path_join targetDir (name a)) = Some d \<and> bytes d = bytes src"
    by auto
  have frame: "\<forall>q. q \<noteq> path_join targetDir (name a) \<longrightarrow>
      map_option timeless (lookup w' q) = map_option timeless (lookup ?wB q)"
    using installWallpaper_other[of _ "name a" v ?wB] s by auto
  from installWallpaper_copies_once[OF f] s
  have once: "filter is_copy (new_events ?wB w') = [EvCopy v (path_join targetDir (name a)) None]"
    by simp
  note asked = arrives_at_asked[OF arr]
  note m = getExistingWallpapers_member[OF mem]
  from m have m1: "path a = path_join targetDir (name a)"
    by (rule conjunct1)
  from m have m2: "lookup wS (path a) \<noteq> None"
    by (elim conjE)
  show "\<exists>a wS.
        arrives_at v w a wS \<and>
        (getExistingWallpapers (snd (checkCustomerDirectory w)) \<noteq> [] \<longrightarrow>
           (\<exists>ans. is_yes ans \<and> trace wS \<noteq> [] \<and>
                  last (trace wS) = Asked (ConfirmPrompt (name a)) ans)) \<and>
        (2 \<le> length (getExistingWallpapers (snd (checkCustomerDirectory w))) \<longrightarrow>
           (\<exists>qs c. trace (snd (selectWallpaperFromList
                        (getExistingWallpapers (snd (checkCustomerDirectory w)))
                        (snd (checkCustomerDirectory w)))) =
                     trace (snd (openFinderAtWallpaperDir (snd (checkCustomerDirectory w)))) @
                     map (Asked (SelectPrompt
                        (length (getExistingWallpapers (snd (checkCustomerDirectory w)))))) qs \<and>
                   qs \<noteq> [] \<and> parseInt (last qs) = Some c \<and> 1 \<le> c \<and>
                   c \<le> int (length (getExistingWallpapers (snd (checkCustomerDirectory w)))) \<and>
                   a = getExistingWallpapers (snd (checkCustomerDirectory w)) ! nat (c - 1))) \<and>
        a \<in> set (getExistingWallpapers wS) \<and>
        path a = path_join targetDir (name a) \<and> lookup wS (path a) \<noteq> None \<and>
        installWallpaper v (name a) (snd (createBackup a wS)) = (True, w') \<and>
        filter is_copy (new_events (snd (createBackup a wS)) w') =
          [EvCopy v (path_join targetDir (name a)) None] \<and>
        (\<exists>src d. lookup (snd (createBackup a wS)) v = Some src \<and>
                 lookup w' (path_join targetDir (name a)) = Some d \<and> bytes d = bytes src) \<and>
        (\<forall>q. q \<noteq> path_join targetDir (name a) \<longrightarrow>
             map_option timeless (lookup w' q) =
               map_option timeless (lookup (snd (createBackup a wS)) q))"
    apply (rule exI[of _ a])
    apply (rule exI[of _ wS])
    apply (intro conjI)
    apply (rule arr)
    apply (rule asked[THEN conjunct1])
    apply (rule asked[THEN conjunct2])
    apply (rule mem)
    apply (rule m1)
    apply (rule m2)
    apply (rule inst)
    apply (rule once)
    apply (rule content)
    apply (rule frame)
    done
qed

theorem install_keeps_the_selected_name_witness:
  "fst (setupWallpaper ''/out/v.mov'' three_wallpaper_world) = Some True \<and>
   (\<exists>a wS. arrives_at ''/out/v.mov'' three_wallpaper_world a wS \<and> name a = ''b.mov'' \<and>
       installWallpaper ''/out/v.mov'' ''b.mov'' (snd (createBackup a wS)) =
         (True, snd (setupWallpaper ''/out/v.mov'' three_wallpaper_world)) \<and>
       filter is_copy (new_events (snd (createBackup a wS))
                         (snd (setupWallpaper ''/out/v.mov'' three_wallpaper_world))) =
         [EvCopy ''/out/v.mov'' (path_join targetDir ''b.mov'') None] \<and>
       (\<exists>src d. lookup (snd (createBackup a wS)) ''/out/v.mov'' = Some src \<and>
                lookup (snd (setupWallpaper ''/out/v.mov'' three_wallpaper_world))
                  (path_join targetDir ''b.mov'') = Some d \<and> bytes d = bytes src) \<and>
       map_option timeless (lookup (snd (setupWallpaper ''/out/v.mov'' three_wallpaper_world))
                              (path_join targetDir ''a.mov'')) =
         map_option timeless (lookup (snd (createBackup a wS)) (path_join targetDir ''a.mov''))) \<and>
   map_option bytes (lookup (snd (setupWallpaper ''/out/v.mov'' three_wallpaper_world))
                       (path_join targetDir ''b.mov'')) = Some ''hevc!'' \<and>
   map_option bytes (lookup (snd (setupWallpaper ''/out/v.mov'' three_wallpaper_world))
                       (path_join targetDir ''a.mov'')) = Some ''first''"
proof -
  let ?v = "''/out/v.mov''"
  let ?w = three_wallpaper_world
  let ?w' = "snd (setupWallpaper ?v ?w)"
  let ?w1 = "snd (checkCustomerDirectory ?w)"
  let ?ws = "getExistingWallpapers ?w1"
  have h: "fst (setupWallpaper ?v ?w) = Some True"
    by code_simp
  then have e: "setupWallpaper ?v ?w = (Some True, ?w')"
    by (simp add: prod_eq_iff)
  from install_keeps_the_selected_name[where v = ?v and w = ?w and w' = ?w', THEN mp, OF e]
  obtain a wS where
    arr: "arrives_at ?v ?w a wS"
    and inst: "installWallpaper ?v (name a) (snd (createBackup a wS)) = (True, ?w')"
    and once: "filter is_copy (new_events (snd (createBackup a wS)) ?w') =
          [EvCopy ?v (path_join targetDir (name a)) None]"
    and content: "\<exists>src d. lookup (snd (createBackup a wS)) ?v = Some src \<and>
                 lookup ?w' (path_join targetDir (name a)) = Some d \<and> bytes d = bytes src"
    and frame: "\<forall>q. q \<noteq> path_join targetDir (name a) \<longrightarrow>
             map_option timeless (lookup ?w' q) =
               map_option timeless (lookup (snd (createBackup a wS)) q)"
    by (elim exE conjE) (rule that; (assumption | (intro exI conjI; assumption)))
  have many: "?ws \<noteq> [] \<and> length ?ws \<noteq> 1"
    by code_simp
  have sel: "map_option (map_option name) (fst (selectWallpaperFromList ?ws ?w1)) = Some (Some ''b.mov'')"
    by code_simp
  from arr many have "fst (selectWallpaperFromList ?ws ?w1) = Some (Some a)"
    by (simp add: arrives_at_def Let_def)
  with sel have n: "name a = ''b.mov''"
    by simp
  have ne: "path_join targetDir ''a.mov'' \<noteq> path_join targetDir ''b.mov''"
    by code_simp
  from frame n ne
  have fr: "map_option timeless (lookup ?w' (path_join targetDir ''a.mov'')) =
         map_option timeless (lookup (snd (createBackup a wS)) (path_join targetDir ''a.mov''))"
    by simp
  have b1: "map_option bytes (lookup ?w' (path_join targetDir ''b.mov'')) = Some ''hevc!''"
    by code_simp
  have b2: "map_option bytes (lookup ?w' (path_join targetDir ''a.mov'')) = Some ''first''"
    by code_simp
  from arr n inst once content fr
  have "\<exists>a wS. arrives_at ?v ?w a wS \<and> name a = ''b.mov'' \<and>
       installWallpaper ?v ''b.mov'' (snd (createBackup a wS)) = (True, ?w') \<and>
       filter is_copy (new_events (snd (createBackup a wS)) ?w') =
         [EvCopy ?v (path_join targetDir ''b.mov'') None] \<and>
       (\<exists>src d. lookup (snd (createBackup a wS)) ?v = Some src \<and>
                lookup ?w' (path_join targetDir ''b.mov'') = Some d \<and> bytes d = bytes src) \<and>
       map_option timeless (lookup ?w' (path_join targetDir ''a.mov'')) =
         map_option timeless (lookup (snd (createBackup a wS)) (path_join targetDir ''a.mov''))"
    by (intro exI[of _ a] exI[of _ wS]) simp
  with h b1 b2 show ?thesis
    by (intro conjI)
qed

section \<open>A failed backup\<close>

lemma installWallpaper_first_event:
  "\<exists>rest. new_events w (snd (installWallpaper v n w)) =
     EvCopy v (path_join targetDir n) (fst (copyFileSync v (path_join targetDir n) w)) # rest"
proof -
  let ?c = "copyFileSync v (path_join targetDir n) w"
  have "grows (\<lambda>e. True) (snd ?c) (refreshWallpaperSystem (snd ?c))"
    by (rule refreshWallpaperSystem_grows) simp_all
  then obtain E where "trace (refreshWallpaperSystem (snd ?c)) = trace (snd ?c) @ E"
    by (auto simp: grows_def)
  then show ?thesis
    by (simp add: installWallpaper_steps Let_def new_events_def copyFileSync_trace)
qed

lemma confirm_step_yes:
  "fst (getUserConfirmation a v w) = Some (Inr True) \<Longrightarrow>
   confirm_step v a w = replace_step v a (snd (getUserConfirmation a v w))"
  by (cases "getUserConfirmation a v w") (simp add: confirm_step_def)

lemma fold_make_dir_new:
  "lookup (fold make_dir ps w) q = Some n \<Longrightarrow> lookup w q = Some n \<or> isDir n"
proof (induction ps arbitrary: w)
  case Nil
  then show ?case by simp
next
  case (Cons p ps)
  from Cons.IH[of "make_dir p w"] Cons.prems
  have "lookup (make_dir p w) q = Some n \<or> isDir n"
    by simp
  then show ?case
  proof (cases "q = p")
    case True
    with \<open>lookup (make_dir p w) q = Some n \<or> isDir n\<close> show ?thesis
      by (auto simp: lookup_def make_dir_def AList.update_conv')
  next
    case False
    with \<open>lookup (make_dir p w) q = Some n \<or> isDir n\<close> show ?thesis
      by (auto simp: lookup_make_dir_other)
  qed
qed

lemma make_dir_fold_new:
  "lookup (make_dir p (fold make_dir ps w)) q = Some n \<Longrightarrow> lookup w q = Some n \<or> isDir n"
  using fold_make_dir_new[of "ps @ [p]" w q n] by simp

lemma mkdirSync_new:
  assumes "lookup (snd (mkdirSync p w)) q = Some n"
  shows "lookup w q = Some n \<or> isDir n"
proof -
  have "lookup (make_dir p (fold make_dir ps (snd (take_fault w)))) q = Some n \<Longrightarrow>
        lookup w q = Some n \<or> isDir n" for ps
    using make_dir_fold_new[of p ps "snd (take_fault w)" q n] by simp
  with assms show ?thesis
    by (auto simp: mkdirSync_steps split: option.splits if_splits)
qed

lemma createBackup_null_file:
  assumes "fst (createBackup a w) = None" and "lookup (snd (createBackup a w)) q = Some n"
    and "\<not> isDir n"
  shows "lookup w q = Some n"
proof -
  let ?d = "Utils_ensureDirectoryExists (backupDir w) w"
  have "lookup (snd ?d) q = Some n"
    using assms(1,2)
    by (auto simp: createBackup_steps Let_def copyFileSync_failed_keeps split: if_splits)
  then have "lookup w q = Some n \<or> isDir n"
    by (auto simp: Utils_ensureDirectoryExists_def split: if_splits dest: mkdirSync_new)
  with assms(3) show ?thesis
    by simp
qed

text \<open>
  Claim C1, what the source does instead. When the copy into the backup directory fails,
  \<open>createBackup\<close> returns \<open>null\<close>; it has changed nothing that existed, and nothing at all
  outside the backup directory and the directories above it, which \<open>mkdir\<close> may have
  created. The replacement step then goes on regardless: its first action is the copy of the
  converted video over the selected asset, its result is that installation's result, and
  when that copy succeeds the result is \<open>true\<close> and the asset holds the bytes of the
  video. The three ways the flow reaches a confirmed asset (the poll found one, the only
  asset was confirmed, the chosen asset was confirmed) all continue with this replacement
  step, whatever \<open>createBackup\<close> returned.
\<close>

theorem backup_failure_does_not_stop_the_install:
  "(fst (copyFileSync (path a) (backupPath a u)
           (snd (Utils_ensureDirectoryExists (backupDir u) u))) \<noteq> None \<longrightarrow>
      fst (createBackup a u) = None \<and>
      (\<forall>q. lookup u q \<noteq> None \<or> q \<notin> set (backupDir u # ancestors (backupDir u)) \<longrightarrow>
           lookup (snd (createBackup a u)) q = lookup u q) \<and>
      fst (replace_step v a u) = Some (fst (installWallpaper v (name a) (snd (createBackup a u)))) \<and>
      (\<exists>rest. new_events (snd (createBackup a u)) (snd (replace_step v a u)) =
         EvCopy v (path_join targetDir (name a))
           (fst (copyFileSync v (path_join targetDir (name a)) (snd (createBackup a u)))) # rest) \<and>
      (fst (copyFileSync v (path_join targetDir (name a)) (snd (createBackup a u))) = None \<longrightarrow>
         fst (replace_step v a u) = Some True \<and>
         (\<exists>src d. lookup u v = Some src \<and>
                  lookup (snd (replace_step v a u)) (path_join targetDir (name a)) = Some d \<and>
                  bytes d = bytes src)))
   \<and> (\<forall>b w3. fst (checkCustomerDirectory w) \<and>
         getExistingWallpapers (snd (checkCustomerDirectory w)) = [] \<and>
         waitForWallpaperSetup (snd (openWallpaperSettings (snd (checkCustomerDirectory w)))) = (Inr b, w3) \<longrightarrow>
         setupWallpaper v w = replace_step v b w3)
   \<and> (\<forall>b. fst (checkCustomerDirectory w) \<and>
         getExistingWallpapers (snd (checkCustomerDirectory w)) = [b] \<and>
         fst (getUserConfirmation b v (snd (checkCustomerDirectory w))) = Some (Inr True) \<longrightarrow>
         setupWallpaper v w =
           replace_step v b (snd (getUserConfirmation b v (snd (checkCustomerDirectory w)))))
   \<and> (\<forall>b w2. fst (checkCustomerDirectory w) \<and>
         2 \<le> length (getExistingWallpapers (snd (checkCustomerDirectory w))) \<and>
         selectWallpaperFromList (getExistingWallpapers (snd (checkCustomerDirectory w)))
           (snd (checkCustomerDirectory w)) = (Some (Some b), w2) \<and>
         fst (getUserConfirmation b v w2) = Some (Inr True) \<longrightarrow>
         setupWallpaper v w = replace_step v b (snd (getUserConfirmation b v w2)))"
proof (intro conjI impI allI)
  assume f: "fst (copyFileSync (path a) (backupPath a u)
           (snd (Utils_ensureDirectoryExists (backupDir u) u))) \<noteq> None"
  then show n: "fst (createBackup a u) = None"
    by (simp add: createBackup_null)
  {
    fix q assume "lookup u q \<noteq> None \<or> q \<notin> set (backupDir u # ancestors (backupDir u))"
    with n show "lookup (snd (createBackup a u)) q = lookup u q"
      using createBackup_null_other[of a u q] createBackup_null_keeps[of a u q] by blast
  }
  assume c: "fst (copyFileSync v (path_join targetDir (name a)) (snd (createBackup a u))) = None"
  then have i: "fst (installWallpaper v (name a) (snd (createBackup a u)))"
    by (simp add: installWallpaper_steps Let_def)
  then show "fst (replace_step v a u) = Some True"
    by (simp add: replace_step_fst)
  from installWallpaper_done[OF i] obtain src d where
    s: "lookup (snd (createBackup a u)) v = Some src" "\<not> isDir src"
    and d: "lookup (snd (installWallpaper v (name a) (snd (createBackup a u))))
              (path_join targetDir (name a)) = Some d" "bytes d = bytes src"
    by auto
  from createBackup_null_file[OF n s] have "lookup u v = Some src" .
  with d show "\<exists>src d. lookup u v = Some src \<and>
                  lookup (snd (replace_step v a u)) (path_join targetDir (name a)) = Some d \<and>
                  bytes d = bytes src"
    by (auto simp: replace_step_snd)
next
  show "fst (replace_step v a u) = Some (fst (installWallpaper v (name a) (snd (createBackup a u))))"
    by (rule replace_step_fst)
next
  show "\<exists>rest. new_events (snd (createBackup a u)) (snd (replace_step v a u)) =
         EvCopy v (path_join targetDir (name a))
           (fst (copyFileSync v (path_join targetDir (name a)) (snd (createBackup a u)))) # rest"
    unfolding replace_step_snd by (rule installWallpaper_first_event)
next
  fix b w3
  assume "fst (checkCustomerDirectory w) \<and>
         getExistingWallpapers (snd (checkCustomerDirectory w)) = [] \<and>
         waitForWallpaperSetup (snd (openWallpaperSettings (snd (checkCustomerDirectory w)))) = (Inr b, w3)"
  then show "setupWallpaper v w = replace_step v b w3"
    by (simp add: setupWallpaper_empty)
next
  fix b
  assume "fst (checkCustomerDirectory w) \<and>
         getExistingWallpapers (snd (checkCustomerDirectory w)) = [b] \<and>
         fst (getUserConfirmation b v (snd (checkCustomerDirectory w))) = Some (Inr True)"
  then show "setupWallpaper v w =
           replace_step v b (snd (getUserConfirmation b v (snd (checkCustomerDirectory w))))"
    by (simp add: setupWallpaper_one_confirm confirm_step_yes)
next
  fix b w2
  assume "fst (checkCustomerDirectory w) \<and>
         2 \<le> length (getExistingWallpapers (snd (checkCustomerDirectory w))) \<and>
         selectWallpaperFromList (getExistingWallpapers (snd (checkCustomerDirectory w)))
           (snd (checkCustomerDirectory w)) = (Some (Some b), w2) \<and>
         fst (getUserConfirmation b v w2) = Some (Inr True)"
  then show "setupWallpaper v w = replace_step v b (snd (getUserConfirmation b v w2))"
    by (simp add: setupWallpaper_many_confirm confirm_step_yes)
qed

text \<open>
  Claim C1, as stated, asks that a failed backup abort the installation and leave the
  existing asset unmodified. In this run the user consents, the copy into the backup
  directory is refused, and the very next action overwrites the asset: the flow returns
  \<open>true\<close>, the asset holds the new bytes and a new modification time, and no backup
  exists.
\<close>

theorem failed_backup_counterexample:
  "drop 3 (take 6 (new_events backup_fails_world (snd (setupWallpaper ''/out/v.mov'' backup_fails_world)))) =
     [EvMkdir (backupDir backup_fails_world) None,
      EvCopy (path_join targetDir ''a.mov'') (backupPath wallpaper_a backup_fails_world) (Some ''EACCES''),
      EvCopy ''/out/v.mov'' (path_join targetDir ''a.mov'') None] \<and>
   fst (setupWallpaper ''/out/v.mov'' backup_fails_world) = Some True \<and>
   map_option bytes (lookup backup_fails_world (path_join targetDir ''a.mov'')) = Some ''old'' \<and>
   map_option bytes (lookup (snd (setupWallpaper ''/out/v.mov'' backup_fails_world))
      (path_join targetDir ''a.mov'')) = Some ''hevc!'' \<and>
   map_option mtime (lookup backup_fails_world (path_join targetDir ''a.mov'')) = Some 1 \<and>
   map_option mtime (lookup (snd (setupWallpaper ''/out/v.mov'' backup_fails_world))
      (path_join targetDir ''a.mov'')) \<noteq> Some 1 \<and>
   lookup (snd (setupWallpaper ''/out/v.mov'' backup_fails_world))
      (backupPath wallpaper_a backup_fails_world) = None"
  by code_simp

theorem backup_failure_does_not_stop_the_install_witness:
  "fst (copyFileSync (path wallpaper_a) (backupPath wallpaper_a refused_backup_world)
          (snd (Utils_ensureDirectoryExists (backupDir refused_backup_world) refused_backup_world))) =
     Some ''EACCES'' \<and>
   fst (createBackup wallpaper_a refused_backup_world) = None \<and>
   lookup (snd (createBackup wallpaper_a refused_backup_world)) (path wallpaper_a) =
     lookup refused_backup_world (path wallpaper_a) \<and>
   lookup (snd (createBackup wallpaper_a refused_backup_world)) ''/tmp/other'' =
     lookup refused_backup_world ''/tmp/other'' \<and>
   fst (replace_step ''/out/v.mov'' wallpaper_a refused_backup_world) = Some True \<and>
   (\<exists>rest. new_events (snd (createBackup wallpaper_a refused_backup_world))
              (snd (replace_step ''/out/v.mov'' wallpaper_a refused_backup_world)) =
            EvCopy ''/out/v.mov'' (path_join targetDir ''a.mov'') None # rest) \<and>
   map_option bytes (lookup refused_backup_world (path_join targetDir ''a.mov'')) = Some ''old'' \<and>
   map_option bytes (lookup (snd (replace_step ''/out/v.mov'' wallpaper_a refused_backup_world))
                       (path_join targetDir ''a.mov'')) = Some ''hevc!'' \<and>
   (fst (checkCustomerDirectory backup_fails_world) \<and>
    getExistingWallpapers (snd (checkCustomerDirectory backup_fails_world)) = [wallpaper_a] \<and>
    fst (getUserConfirmation wallpaper_a ''/out/v.mov'' (snd (checkCustomerDirectory backup_fails_world))) =
      Some (Inr True)) \<and>
   setupWallpaper ''/out/v.mov'' backup_fails_world =
     replace_step ''/out/v.mov'' wallpaper_a
       (snd (getUserConfirmation wallpaper_a ''/out/v.mov'' (snd (checkCustomerDirectory backup_fails_world))))"
proof -
  let ?v = "''/out/v.mov''"
  let ?a = wallpaper_a
  let ?u = refused_backup_world
  let ?w = backup_fails_world
  let ?t = "path_join targetDir ''a.mov''"
  note t = backup_failure_does_not_stop_the_install[where a = ?a and u = ?u and v = ?v and w = ?w]
  have h1: "fst (copyFileSync (path ?a) (backupPath ?a ?u)
          (snd (Utils_ensureDirectoryExists (backupDir ?u) ?u))) = Some ''EACCES''"
    by code_simp
  then have h1': "fst (copyFileSync (path ?a) (backupPath ?a ?u)
          (snd (Utils_ensureDirectoryExists (backupDir ?u) ?u))) \<noteq> None"
    by simp
  note r = t[THEN conjunct1, THEN mp, OF h1']
  from r have r1: "fst (createBackup ?a ?u) = None"
    by (rule conjunct1)
  from r have fr: "\<forall>q. lookup ?u q \<noteq> None \<or> q \<notin> set (backupDir ?u # ancestors (backupDir ?u)) \<longrightarrow>
           lookup (snd (createBackup ?a ?u)) q = lookup ?u q"
    by (elim conjE)
  have pa: "lookup ?u (path ?a) \<noteq> None"
    by code_simp
  with fr have r2: "lookup (snd (createBackup ?a ?u)) (path ?a) = lookup ?u (path ?a)"
    by blast
  have po: "''/tmp/other'' \<notin> set (backupDir ?u # ancestors (backupDir ?u))"
    by code_simp
  with fr have r2a: "lookup (snd (createBackup ?a ?u)) ''/tmp/other'' = lookup ?u ''/tmp/other''"
    by blast
  have n: "name ?a = ''a.mov''"
    by code_simp
  have c: "fst (copyFileSync ?v ?t (snd (createBackup ?a ?u))) = None"
    by code_simp
  from r have "\<exists>rest. new_events (snd (createBackup ?a ?u)) (snd (replace_step ?v ?a ?u)) =
         EvCopy ?v (path_join targetDir (name ?a))
           (fst (copyFileSync ?v (path_join targetDir (name ?a)) (snd (createBackup ?a ?u)))) # rest"
    by (elim conjE)
  then have r4: "\<exists>rest. new_events (snd (createBackup ?a ?u)) (snd (replace_step ?v ?a ?u)) =
            EvCopy ?v ?t None # rest"
    by (simp only: n c)
  from r have "fst (copyFileSync ?v (path_join targetDir (name ?a)) (snd (createBackup ?a ?u))) = None \<longrightarrow>
         fst (replace_step ?v ?a ?u) = Some True \<and>
         (\<exists>src d. lookup ?u ?v = Some src \<and>
                  lookup (snd (replace_step ?v ?a ?u)) (path_join targetDir (name ?a)) = Some d \<and>
                  bytes d = bytes src)"
    by (elim conjE)
  with c have ov: "fst (replace_step ?v ?a ?u) = Some True \<and>
         (\<exists>src d. lookup ?u ?v = Some src \<and>
                  lookup (snd (replace_step ?v ?a ?u)) ?t = Some d \<and> bytes d = bytes src)"
    by (simp only: n)
  then have r3: "fst (replace_step ?v ?a ?u) = Some True"
    by (rule conjunct1)
  have sv: "lookup ?u ?v = Some (fileNode ''hevc!'' 5)"
    by code_simp
  have bv: "bytes (fileNode ''hevc!'' 5) = ''hevc!''"
    by code_simp
  from ov sv bv
  have r5: "map_option bytes (lookup (snd (replace_step ?v ?a ?u)) ?t) = Some ''hevc!''"
    by auto
  have r0: "map_option bytes (lookup ?u ?t) = Some ''old''"
    by code_simp
  have h3: "fst (checkCustomerDirectory ?w) \<and>
    getExistingWallpapers (snd (checkCustomerDirectory ?w)) = [?a] \<and>
    fst (getUserConfirmation ?a ?v (snd (checkCustomerDirectory ?w))) = Some (Inr True)"
    by code_simp
  note r6 = t[THEN conjunct2, THEN conjunct2, THEN conjunct1, THEN spec, THEN mp, OF h3]
  from h1 r1 r2 r2a r3 r4 r0 r5 h3 r6 show ?thesis
    by (elim conjE) (intro conjI; assumption)
qed

end
